theory Spec2Isabelle
  imports Complex_Main "HOL-Library.Sublist"
begin

section \<open>Data model of the battle snapshot\<close>

text \<open>
  The enumerations of the battle library as the decision engine uses them. Numbers are
  exact rationals: the engine's arithmetic is modelled without rounding.
\<close>

datatype pokemon_type =
    BUG | DARK | DRAGON | ELECTRIC | FAIRY | FIGHTING | FIRE | FLYING | GHOST | GRASS
  | GROUND | ICE | NORMAL | POISON | PSYCHIC | ROCK | STEEL | WATER | STELLAR
  | THREE_QUESTION_MARKS

datatype weather =
    DELTASTREAM | DESOLATELAND | HAIL | PRIMORDIALSEA | RAINDANCE | SANDSTORM | SNOW
  | SNOWSCAPE | SUNNYDAY | UNKNOWN_WEATHER

datatype status = BRN | FNT | FRZ | PAR | PSN | SLP | TOX

datatype move_category = PHYSICAL | SPECIAL | STATUS

datatype field = TRICK_ROOM | ELECTRIC_TERRAIN | GRASSY_TERRAIN | PSYCHIC_TERRAIN
  | MISTY_TERRAIN | OTHER_FIELD string

datatype side_condition = STEALTH_ROCK | SPIKES | TOXIC_SPIKES | STICKY_WEB | REFLECT
  | LIGHT_SCREEN | AURORA_VEIL | TAILWIND | OTHER_SIDE_CONDITION string

datatype effect = TAUNT | ENCORE | LEECH_SEED | EFF_BIND | CLAMP | FIRE_SPIN | INFESTATION
  | SAND_TOMB | SNAP_TRAP | THUNDER_CAGE | WHIRLPOOL | WRAP | SUBSTITUTE | OTHER_EFFECT string

record move =
  move_id :: string
  base_power :: rat
  move_type :: pokemon_type
  category :: move_category
  accuracy :: rat
  priority :: int
  crit_ratio :: int
  flags :: "string list"
  move_boosts :: "(string \<times> int) list option"
  recoil :: rat

record pokemon =
  species :: string
  current_hp_fraction :: rat
  boosts :: "(string \<times> int) list"
  types :: "pokemon_type option list"
  status :: "status option"
  status_counter :: int
  ability :: "string option"
  possible_abilities :: "string list"
  item :: "string option"
  effects :: "effect list"
  must_recharge :: bool
  fainted :: bool
  moves :: "move list"
  stats_spe :: rat
  turn_count :: int
  weight :: rat

record battle =
  gen :: int
  turn :: int
  available_moves :: "move list"
  available_switches :: "pokemon list"
  active_pokemon :: pokemon
  opponent_active_pokemon :: pokemon
  weather :: "weather option"
  battle_fields :: "field list"
  side_conditions :: "(side_condition \<times> int) list"
  opponent_side_conditions :: "(side_condition \<times> int) list"
  team :: "pokemon list"
  opponent_team :: "pokemon list"
  force_switch :: bool

text \<open>
  The type-effectiveness functions belong to the battle library, not to the engine: they
  are parameters of the model. \<open>damage_multiplier_move\<close> is
  \<^verbatim>\<open>pokemon.damage_multiplier(move)\<close>, \<open>damage_multiplier_type\<close> is
  \<^verbatim>\<open>pokemon.damage_multiplier(type)\<close>, and \<open>type_damage_multiplier\<close> is
  \<^verbatim>\<open>type.damage_multiplier(other_type, type_chart=...)\<close>.
\<close>

record library =
  damage_multiplier_move :: "pokemon \<Rightarrow> move \<Rightarrow> rat"
  damage_multiplier_type :: "pokemon \<Rightarrow> pokemon_type \<Rightarrow> rat"
  type_damage_multiplier :: "pokemon_type \<Rightarrow> pokemon_type \<Rightarrow> rat"

record info =
  expected_damage :: rat
  stab :: bool
  multiplier :: rat
  info_priority :: int

type_synonym damage_map = "(string \<times> info) list"

section \<open>Python helpers\<close>

text \<open>Truthiness of an optional string: \<^verbatim>\<open>None\<close> and the empty string are false.\<close>

definition truthy :: "string option \<Rightarrow> bool" where
  "truthy s = (case s of None \<Rightarrow> False | Some t \<Rightarrow> t \<noteq> [])"

text \<open>\<^verbatim>\<open>sub in text\<close> on strings: \<open>sub\<close> occurs as a contiguous piece of \<open>text\<close>.\<close>

fun str_prefix :: "string \<Rightarrow> string \<Rightarrow> bool" where
  "str_prefix [] ys = True"
| "str_prefix (x # xs) [] = False"
| "str_prefix (x # xs) (y # ys) = (x = y \<and> str_prefix xs ys)"

fun str_contains :: "string \<Rightarrow> string \<Rightarrow> bool" where
  "str_contains sub [] = (sub = [])"
| "str_contains sub (c # cs) = (str_prefix sub (c # cs) \<or> str_contains sub cs)"

text \<open>\<^verbatim>\<open>sub in opt\<close> guarded by \<^verbatim>\<open>opt and ...\<close>.\<close>

definition opt_contains :: "string \<Rightarrow> string option \<Rightarrow> bool" where
  "opt_contains sub s = (case s of None \<Rightarrow> False | Some t \<Rightarrow> t \<noteq> [] \<and> str_contains sub t)"

text \<open>
  A dictionary that keeps insertion order: assigning to a key that is present replaces
  its value in place, a new key goes to the end.
\<close>

fun dict_set :: "('k \<times> 'v) list \<Rightarrow> 'k \<Rightarrow> 'v \<Rightarrow> ('k \<times> 'v) list" where
  "dict_set [] k v = [(k, v)]"
| "dict_set ((k', v') # d) k v = (if k' = k then (k, v) # d else (k', v') # dict_set d k v)"

definition dict_get :: "('k \<times> 'v) list \<Rightarrow> 'k \<Rightarrow> 'v \<Rightarrow> 'v" where
  "dict_get d k dflt = (case map_of d k of None \<Rightarrow> dflt | Some v \<Rightarrow> v)"

text \<open>\<^verbatim>\<open>if cond: x *= v\<close> as a factor of the product.\<close>

definition scale_if :: "bool \<Rightarrow> rat \<Rightarrow> rat" where
  "scale_if c v = (if c then v else 1)"

section \<open>Damage Estimation Model\<close>

definition get_crit_damage_multiplier :: "battle \<Rightarrow> pokemon \<Rightarrow> rat" where
  "get_crit_damage_multiplier b p =
     (if ability p = Some ''sniper''
      then (if gen b \<ge> 6 then 9 / 4 else 3)
      else (if gen b \<ge> 6 then 3 / 2 else 2))"

definition get_crit_chance :: "battle \<Rightarrow> move \<Rightarrow> pokemon \<Rightarrow> rat" where
  "get_crit_chance b m p =
     (let crit_stage = crit_ratio m
            + (if opt_contains ''superluck'' (ability p) then 1 else 0)
            + (if opt_contains ''scopelens'' (item p) then 1 else 0)
      in if gen b \<ge> 7 then
           (if crit_stage = 0 then 1 / 24 else if crit_stage = 1 then 1 / 8
            else if crit_stage = 2 then 1 / 2 else 1)
         else if gen b = 6 then
           (if crit_stage = 0 then 1 / 16 else if crit_stage = 1 then 1 / 8
            else if crit_stage = 2 then 1 / 2 else 1)
         else
           (if crit_stage = 0 then 1 / 16 else if crit_stage = 1 then 1 / 8
            else if crit_stage = 2 then 1 / 4 else if crit_stage = 3 then 1 / 3
            else if crit_stage = 4 then 1 / 2 else 1 / 2))"

text \<open>
  Step 1 of the loop body: the power and type of the variable moves. The result is the
  pair \<open>(power, move_type)\<close> held by the two local variables after the first
  \<^verbatim>\<open>if/elif\<close> chain.
\<close>

definition resolve_power_and_type :: "battle \<Rightarrow> move \<Rightarrow> rat \<times> pokemon_type" where
  "resolve_power_and_type b m =
     (let active = active_pokemon b; opponent = opponent_active_pokemon b in
      if move_id m = ''weatherball'' then
        (if weather b \<in> {Some SUNNYDAY, Some DESOLATELAND} then (100, FIRE)
         else if weather b \<in> {Some RAINDANCE, Some PRIMORDIALSEA} then (100, WATER)
         else if weather b = Some SANDSTORM then (100, ROCK)
         else if weather b = Some SNOW then (100, ICE)
         else (base_power m, move_type m))
      else if move_id m \<in> {''return'', ''frustration''} then (102, move_type m)
      else if move_id m \<in> {''heavyslam'', ''heatcrash''} then
        (if weight opponent \<noteq> 0 \<and> weight active \<noteq> 0 then
           (let ratio = weight opponent / weight active in
            if ratio < 1 / 5 then (120, move_type m)
            else if ratio < 1 / 4 then (100, move_type m)
            else if ratio < 1 / 3 then (80, move_type m)
            else if ratio < 1 / 2 then (60, move_type m)
            else (40, move_type m))
         else (100, move_type m))
      else (base_power m, move_type m))"

text \<open>
  The local function \<^verbatim>\<open>get_defensive_modifier(ability)\<close>; its free variables
  \<^verbatim>\<open>move_type\<close>, \<^verbatim>\<open>effectiveness\<close>, \<^verbatim>\<open>move\<close> and \<^verbatim>\<open>opponent\<close>
  are arguments here.
\<close>

definition get_defensive_modifier ::
  "pokemon_type \<Rightarrow> rat \<Rightarrow> move \<Rightarrow> pokemon \<Rightarrow> string \<Rightarrow> rat" where
  "get_defensive_modifier mt effectiveness m opponent a =
     (if a = ''dryskin'' \<and> mt = WATER then 0
      else if a = ''flashfire'' \<and> mt = FIRE then 0
      else if a = ''levitate'' \<and> mt = GROUND then 0
      else if a \<in> {''lightningrod'', ''motordrive'', ''voltabsorb''} \<and> mt = ELECTRIC then 0
      else if a = ''sapsipper'' \<and> mt = GRASS then 0
      else if a \<in> {''stormdrain'', ''waterabsorb''} \<and> mt = WATER then 0
      else
        scale_if (a \<in> {''filter'', ''solidrock'', ''prismarmor''} \<and> effectiveness > 1) (3 / 4)
        * scale_if (a = ''fluffy'' \<and> ''contact'' \<in> set (flags m)) (1 / 2)
        * scale_if (a = ''furcoat'' \<and> category m = PHYSICAL) (1 / 2)
        * scale_if (a = ''heatproof'' \<and> mt = FIRE) (1 / 2)
        * scale_if (a = ''icescales'' \<and> category m = SPECIAL) (1 / 2)
        * scale_if (a = ''multiscale'' \<and> current_hp_fraction opponent = 1) (1 / 2)
        * scale_if (a = ''punkrock'' \<and> ''sound'' \<in> set (flags m)) (1 / 2)
        * scale_if (a = ''purifyingsalt'' \<and> mt = GHOST) (1 / 2)
        * scale_if (a = ''thickfat'' \<and> mt \<in> {FIRE, ICE}) (1 / 2)
        * scale_if (a = ''waterbubble'' \<and> mt = FIRE) (1 / 2)
        * scale_if (a = ''dryskin'' \<and> mt = FIRE) (5 / 4)
        * scale_if (a = ''fluffy'' \<and> mt = FIRE) (2))"

text \<open>The loop over \<^verbatim>\<open>opponent.possible_abilities\<close>, started at \<open>1\<close>.\<close>

fun worst_case_loop :: "(string \<Rightarrow> rat) \<Rightarrow> string list \<Rightarrow> rat \<Rightarrow> rat" where
  "worst_case_loop f [] worst_case_modifier = worst_case_modifier"
| "worst_case_loop f (a # as) worst_case_modifier =
     worst_case_loop f as (if f a < worst_case_modifier then f a else worst_case_modifier)"

text \<open>
  The effectiveness after the defender's ability and before the attacker's: a known
  ability is used alone, an unknown one is the worst case over the possible abilities.
\<close>

definition defended_effectiveness :: "library \<Rightarrow> battle \<Rightarrow> move \<Rightarrow> rat" where
  "defended_effectiveness L b m =
     (let opponent = opponent_active_pokemon b;
          mt = snd (resolve_power_and_type b m);
          effectiveness = damage_multiplier_move L opponent m
      in case ability opponent of
           Some a \<Rightarrow>
             if a \<noteq> [] then effectiveness * get_defensive_modifier mt effectiveness m opponent a
             else effectiveness * worst_case_loop (get_defensive_modifier mt effectiveness m opponent)
                                    (possible_abilities opponent) 1
         | None \<Rightarrow>
             effectiveness * worst_case_loop (get_defensive_modifier mt effectiveness m opponent)
                               (possible_abilities opponent) 1)"

definition move_effectiveness :: "library \<Rightarrow> battle \<Rightarrow> move \<Rightarrow> rat" where
  "move_effectiveness L b m =
     (let effectiveness = defended_effectiveness L b m
      in if ability (active_pokemon b) = Some ''tintedlens'' \<and> effectiveness < 1
         then effectiveness * 2 else effectiveness)"

text \<open>The \<^verbatim>\<open>if/elif\<close> chain of the attacker's ability: the first branch that holds scales the power.\<close>

definition attacker_ability_boost ::
  "string option \<Rightarrow> battle \<Rightarrow> move \<Rightarrow> pokemon_type \<Rightarrow> rat" where
  "attacker_ability_boost last_move b m mt =
     (let active = active_pokemon b; a = ability active;
          low_hp = (current_hp_fraction active \<le> 1 / 3)
      in if a = Some ''aerilate'' \<and> mt = NORMAL then 6 / 5
         else if a = Some ''analytic'' \<and> turn b > 1 \<and> last_move = Some (move_id m) then 13 / 10
         else if a = Some ''blaze'' \<and> low_hp \<and> mt = FIRE then 3 / 2
         else if a = Some ''darkaura'' then 133 / 100
         else if a = Some ''fairyaura'' then 133 / 100
         else if a = Some ''flareboost'' \<and> status active = Some BRN \<and> category m = SPECIAL then 3 / 2
         else if a = Some ''guts'' \<and> status active \<noteq> None \<and> category m = PHYSICAL then 3 / 2
         else if a = Some ''ironfist'' \<and> ''punch'' \<in> set (flags m) then 6 / 5
         else if a = Some ''megalauncher'' \<and> ''pulse'' \<in> set (flags m) then 3 / 2
         else if a = Some ''overgrow'' \<and> low_hp \<and> mt = GRASS then 3 / 2
         else if a = Some ''pixilate'' \<and> mt = NORMAL then 6 / 5
         else if a = Some ''punkrock'' \<and> ''sound'' \<in> set (flags m) then 13 / 10
         else if a = Some ''reckless'' \<and> recoil m > 0 then 6 / 5
         else if a = Some ''refrigerate'' \<and> mt = NORMAL then 6 / 5
         else if a = Some ''sandforce'' \<and> weather b = Some SANDSTORM \<and> mt \<in> {ROCK, GROUND, STEEL}
           then 13 / 10
         else if a = Some ''solarpower'' \<and> weather b \<in> {Some SUNNYDAY, Some DESOLATELAND}
                 \<and> category m = SPECIAL then 3 / 2
         else if a \<in> {Some ''steelworker'', Some ''steelyspirit''} \<and> mt = STEEL then 3 / 2
         else if a = Some ''strongjaw'' \<and> ''bite'' \<in> set (flags m) then 3 / 2
         else if a = Some ''swarm'' \<and> low_hp \<and> mt = BUG then 3 / 2
         else if a = Some ''technician'' \<and> base_power m \<le> 60 then 3 / 2
         else if a = Some ''torrent'' \<and> low_hp \<and> mt = WATER then 3 / 2
         else if a = Some ''toughclaws'' \<and> ''contact'' \<in> set (flags m) then 13 / 10
         else if a = Some ''toxicboost'' \<and> status active \<in> {Some PSN, Some TOX}
                 \<and> category m = PHYSICAL then 3 / 2
         else if a = Some ''transistor'' \<and> mt = ELECTRIC then 13 / 10
         else if a = Some ''waterbubble'' \<and> mt = WATER then 2
         else 1)"

definition weather_terrain_boost :: "battle \<Rightarrow> pokemon_type \<Rightarrow> rat" where
  "weather_terrain_boost b mt =
     (let active = active_pokemon b;
          is_grounded = (Some FLYING \<notin> set (types active) \<and> ability active \<noteq> Some ''levitate'');
          sun = (weather b \<in> {Some SUNNYDAY, Some DESOLATELAND});
          rain = (weather b \<in> {Some RAINDANCE, Some PRIMORDIALSEA})
      in scale_if (sun \<and> mt = FIRE) (3 / 2)
         * scale_if (sun \<and> mt = WATER) (1 / 2)
         * scale_if (rain \<and> mt = WATER) (3 / 2)
         * scale_if (rain \<and> mt = FIRE) (1 / 2)
         * scale_if (ELECTRIC_TERRAIN \<in> set (battle_fields b) \<and> mt = ELECTRIC \<and> is_grounded) (13 / 10)
         * scale_if (GRASSY_TERRAIN \<in> set (battle_fields b) \<and> mt = GRASS \<and> is_grounded) (13 / 10)
         * scale_if (PSYCHIC_TERRAIN \<in> set (battle_fields b) \<and> mt = PSYCHIC \<and> is_grounded) (13 / 10))"

definition final_modifier :: "battle \<Rightarrow> move \<Rightarrow> rat" where
  "final_modifier b m =
     (let active = active_pokemon b; opponent = opponent_active_pokemon b in
        scale_if (status active = Some BRN \<and> category m = PHYSICAL \<and> ability active \<noteq> Some ''guts'') (1 / 2)
      * scale_if (REFLECT \<in> fst ` set (opponent_side_conditions b) \<and> category m = PHYSICAL) (1 / 2)
      * scale_if (LIGHT_SCREEN \<in> fst ` set (opponent_side_conditions b) \<and> category m = SPECIAL) (1 / 2)
      * scale_if (weather b = Some SANDSTORM \<and> Some ROCK \<in> set (types opponent) \<and> category m = SPECIAL \<and> gen b \<ge> 4) (1 / (3 / 2))
      * scale_if (weather b = Some SNOW \<and> Some ICE \<in> set (types opponent) \<and> category m = PHYSICAL \<and> gen b \<ge> 9) (1 / (3 / 2)))"

text \<open>The loop of the Freeze-Dry case over the defender's types.\<close>

fun freezedry_loop :: "library \<Rightarrow> pokemon_type option list \<Rightarrow> rat \<Rightarrow> rat" where
  "freezedry_loop L [] effectiveness = effectiveness"
| "freezedry_loop L (None # ts) effectiveness = freezedry_loop L ts effectiveness"
| "freezedry_loop L (Some t # ts) effectiveness =
     freezedry_loop L ts
       (if t = WATER then effectiveness * 2 else effectiveness * type_damage_multiplier L t ICE)"

text \<open>
  The body of the loop over \<^verbatim>\<open>battle.available_moves\<close>: the entry written to
  \<^verbatim>\<open>damage_info[move.id]\<close>. \<open>last_move\<close> is the player's \<^verbatim>\<open>self.last_move\<close>.
  The variable \<^verbatim>\<open>power\<close> set in step 1 is assigned again from
  \<^verbatim>\<open>move.base_power\<close> before the damage is computed, so only the type of step 1
  is used below.
\<close>

definition move_entry :: "library \<Rightarrow> string option \<Rightarrow> battle \<Rightarrow> move \<Rightarrow> info" where
  "move_entry L last_move b m =
     (let active = active_pokemon b; opponent = opponent_active_pokemon b;
          mt = snd (resolve_power_and_type b m);
          effectiveness = move_effectiveness L b m;
          is_stab = (Some mt \<in> set (types active))
      in if category m = STATUS \<or> effectiveness = 0 then
           \<lparr>expected_damage = 0, stab = is_stab, multiplier = effectiveness,
            info_priority = priority m\<rparr>
         else
           (let power = base_power m;
                power = (if ability active = Some ''adaptability'' \<and> is_stab then power * 2
                         else if is_stab then power * (3 / 2) else power);
                power = power * attacker_ability_boost last_move b m mt;
                power = power * weather_terrain_boost b mt;
                effectiveness = (if move_id m = ''freezedry''
                                 then freezedry_loop L (types opponent) 1 else effectiveness);
                base_damage = power * effectiveness * final_modifier b m;
                crit_chance = get_crit_chance b m active;
                crit_multiplier = get_crit_damage_multiplier b active;
                crit_damage_modifier = 1 + crit_chance * (crit_multiplier - 1)
            in \<lparr>expected_damage = (accuracy m / 100) * base_damage * crit_damage_modifier,
                stab = is_stab, multiplier = effectiveness, info_priority = priority m\<rparr>))"

fun damage_loop :: "library \<Rightarrow> string option \<Rightarrow> battle \<Rightarrow> move list \<Rightarrow> damage_map \<Rightarrow> damage_map" where
  "damage_loop L last_move b [] damage_info = damage_info"
| "damage_loop L last_move b (m # ms) damage_info =
     damage_loop L last_move b ms (dict_set damage_info (move_id m) (move_entry L last_move b m))"

definition calculate_move_damages :: "library \<Rightarrow> string option \<Rightarrow> battle \<Rightarrow> damage_map" where
  "calculate_move_damages L last_move b =
     (if available_moves b = [] then []
      else damage_loop L last_move b (available_moves b) [])"

section \<open>Strings of action names\<close>

text \<open>\<^verbatim>\<open>str.lower()\<close> on ASCII text.\<close>

definition lower_char :: "char \<Rightarrow> char" where
  "lower_char c =
     (case map_of (zip ''ABCDEFGHIJKLMNOPQRSTUVWXYZ'' ''abcdefghijklmnopqrstuvwxyz'') c of
        None \<Rightarrow> c | Some d \<Rightarrow> d)"

definition lower :: "string \<Rightarrow> string" where
  "lower s = map lower_char s"

text \<open>
  \<^verbatim>\<open>text.replace(old, new)\<close> for a non-empty \<open>old\<close>, the only use the engine makes of
  it: occurrences are replaced from the left, without overlap.
\<close>

function str_replace :: "string \<Rightarrow> string \<Rightarrow> string \<Rightarrow> string" where
  "str_replace old new [] = []"
| "str_replace old new (c # cs) =
     (if old \<noteq> [] \<and> str_prefix old (c # cs)
      then new @ str_replace old new (drop (length old) (c # cs))
      else c # str_replace old new cs)"
  by pat_completeness auto
termination
  by (relation "measure (\<lambda>(old, new, s). length s)") auto

definition startswith :: "string \<Rightarrow> string \<Rightarrow> bool" where
  "startswith s pre = str_prefix pre s"

definition is_switch :: "string \<Rightarrow> bool" where
  "is_switch a = startswith a ''switch-''"

text \<open>\<^verbatim>\<open>p.species.lower().replace(' ', '-')\<close> and the action name built from it.\<close>

definition species_key :: "pokemon \<Rightarrow> string" where
  "species_key p = str_replace '' '' ''-'' (lower (species p))"

definition switch_name :: "pokemon \<Rightarrow> string" where
  "switch_name p = ''switch-'' @ species_key p"

definition all_possible_switches :: "battle \<Rightarrow> string list" where
  "all_possible_switches b = map switch_name (available_switches b)"

text \<open>\<^verbatim>\<open>text.strip()\<close>: ASCII white space is dropped at both ends.\<close>

definition is_space :: "char \<Rightarrow> bool" where
  "is_space c = (c \<in> {CHR '' '', CHR 0x09, CHR 0x0A, CHR 0x0B, CHR 0x0C, CHR 0x0D})"

definition strip :: "string \<Rightarrow> string" where
  "strip s = rev (dropWhile is_space (rev (dropWhile is_space s)))"

definition allowed_char :: "char \<Rightarrow> bool" where
  "allowed_char c = (c \<in> set ''abcdefghijklmnopqrstuvwxyz-'')"

text \<open>\<^verbatim>\<open>re.sub(r"[^a-z-]", "", text.strip().lower())\<close>\<close>

definition sanitize_model_response :: "string \<Rightarrow> string" where
  "sanitize_model_response t = filter allowed_char (lower (strip t))"

section \<open>Viable Switch Filter\<close>

definition find_switch :: "battle \<Rightarrow> string \<Rightarrow> pokemon option" where
  "find_switch b name = find (\<lambda>p. species_key p = name) (available_switches b)"

definition is_weak :: "library \<Rightarrow> battle \<Rightarrow> pokemon \<Rightarrow> bool" where
  "is_weak L b p =
     list_ex (\<lambda>mv. damage_multiplier_move L p mv > 1)
       (filter (\<lambda>mv. category mv \<noteq> STATUS) (moves (opponent_active_pokemon b)))"

definition is_weak_to_stab :: "library \<Rightarrow> battle \<Rightarrow> pokemon \<Rightarrow> bool" where
  "is_weak_to_stab L b p =
     list_ex (\<lambda>t. case t of None \<Rightarrow> False | Some ty \<Rightarrow> damage_multiplier_type L p ty > 1)
       (types (opponent_active_pokemon b))"

text \<open>Whether the loop appends \<open>switch_option\<close> to \<^verbatim>\<open>switches_to_remove\<close>.\<close>

definition flagged_switch :: "library \<Rightarrow> battle \<Rightarrow> string \<Rightarrow> bool" where
  "flagged_switch L b switch_option =
     (case find_switch b (str_replace ''switch-'' [] switch_option) of
        None \<Rightarrow> False
      | Some p \<Rightarrow> if moves (opponent_active_pokemon b) \<noteq> [] then is_weak L b p
                  else is_weak_to_stab L b p)"

definition filter_suboptimal_switches :: "library \<Rightarrow> battle \<Rightarrow> string list \<Rightarrow> string list" where
  "filter_suboptimal_switches L b available =
     (if available = [] then []
      else
        (let filtered_switches = available;
             switches_to_remove = filter (flagged_switch L b) filtered_switches
         in if length switches_to_remove = length available \<and> available \<noteq> [] then available
            else filter (\<lambda>s. s \<notin> set switches_to_remove) filtered_switches))"

section \<open>Turn-Order Resolver\<close>

definition has_key :: "('k \<times> 'v) list \<Rightarrow> 'k \<Rightarrow> bool" where
  "has_key d k = (k \<in> fst ` set d)"

definition calculate_speed :: "battle \<Rightarrow> pokemon \<Rightarrow> (side_condition \<times> int) list \<Rightarrow> rat" where
  "calculate_speed b p conditions =
     (let boost = dict_get (boosts p) ''spe'' 0 in
        stats_spe p
        * (if boost > 0 then (2 + of_int boost) / 2
           else if boost < 0 then 2 / (2 - of_int boost) else 1)
        * (if ability p = Some ''slushrush'' \<and> weather b \<in> {Some HAIL, Some SNOW} then 2 else 1)
        * (if ability p = Some ''swiftswim'' \<and> weather b \<in> {Some RAINDANCE, Some PRIMORDIALSEA}
           then 2 else 1)
        * (if ability p = Some ''chlorophyll'' \<and> weather b \<in> {Some SUNNYDAY, Some DESOLATELAND}
           then 2 else 1)
        * (if ability p = Some ''slowstart'' \<and> turn_count p < 5 then 1 / 2 else 1)
        * (if status p = Some PAR then (if gen b \<ge> 7 then 1 / 2 else 1 / 4) else 1)
        * (if has_key conditions TAILWIND then 2 else 1))"

definition get_effective_speed :: "battle \<Rightarrow> rat \<times> rat" where
  "get_effective_speed b =
     (calculate_speed b (active_pokemon b) (side_conditions b),
      calculate_speed b (opponent_active_pokemon b) (opponent_side_conditions b))"

definition determine_who_moves_first :: "battle \<Rightarrow> bool" where
  "determine_who_moves_first b =
     (let (my_speed, opponent_speed) = get_effective_speed b in
      if TRICK_ROOM \<in> set (battle_fields b) then my_speed < opponent_speed
      else my_speed > opponent_speed)"

section \<open>The two leading rules of the Action Filter Pipeline\<close>

definition step_on_throat :: "battle \<Rightarrow> string list \<Rightarrow> damage_map \<Rightarrow> string list" where
  "step_on_throat b legal_actions damage_info =
     (if \<not> determine_who_moves_first b then legal_actions
      else
        (let ko_moves = map fst (filter (\<lambda>(k, i). expected_damage i \<ge> 5 / 2) damage_info)
         in if ko_moves \<noteq> [] then ko_moves else legal_actions))"

definition has_ko_threat :: "library \<Rightarrow> battle \<Rightarrow> bool" where
  "has_ko_threat L b =
     (let my_pokemon = active_pokemon b; opponent = opponent_active_pokemon b in
      if moves opponent \<noteq> []
      then list_ex (\<lambda>mv. damage_multiplier_move L my_pokemon mv = 4) (moves opponent)
      else list_ex (\<lambda>t. case t of None \<Rightarrow> False
                          | Some ty \<Rightarrow> damage_multiplier_type L my_pokemon ty > 1)
             (types opponent))"

definition mortal_peril_alert ::
  "library \<Rightarrow> battle \<Rightarrow> string list \<Rightarrow> damage_map \<Rightarrow> string list" where
  "mortal_peril_alert L b legal_actions damage_info =
     (if \<not> has_ko_threat L b then legal_actions
      else
        (let viable_switch_names = filter_suboptimal_switches L b (all_possible_switches b)
         in if \<not> determine_who_moves_first b then viable_switch_names
            else
              (let ko_moves = map fst (filter (\<lambda>(k, i). expected_damage i \<ge> 2) damage_info)
               in if length ko_moves = 0 then viable_switch_names else ko_moves)))"

section \<open>Action Filter Pipeline\<close>

text \<open>
  \<^verbatim>\<open>filter_suboptimal_moves\<close> is a sequence of rules over the local list
  \<^verbatim>\<open>filtered_actions\<close>. A rule either hands the list on to the next rule
  (\<open>Continue\<close>) or leaves the function with a \<^verbatim>\<open>return\<close> (\<open>Return\<close>).
\<close>

datatype 'a step = Return 'a | Continue 'a

fun run_rules :: "('a \<Rightarrow> 'a step) list \<Rightarrow> 'a \<Rightarrow> 'a" where
  "run_rules [] xs = xs"
| "run_rules (r # rs) xs = (case r xs of Return ys \<Rightarrow> ys | Continue ys \<Rightarrow> run_rules rs ys)"

text \<open>The list a rule leaves behind, whether it returns or hands on.\<close>

definition step_result :: "'a step \<Rightarrow> 'a" where
  "step_result s = (case s of Return x \<Rightarrow> x | Continue x \<Rightarrow> x)"

definition continue_with :: "('a \<Rightarrow> 'a) \<Rightarrow> 'a \<Rightarrow> 'a step" where
  "continue_with f xs = Continue (f xs)"

text \<open>\<^verbatim>\<open>for move in names: if move in filtered_actions: filtered_actions.remove(move)\<close>\<close>

definition remove_each :: "string list \<Rightarrow> string list \<Rightarrow> string list" where
  "remove_each names xs = fold remove1 names xs"

text \<open>A run of \<^verbatim>\<open>if cond and name in filtered_actions: filtered_actions.remove(name)\<close>.\<close>

definition remove_where :: "(bool \<times> string) list \<Rightarrow> string list \<Rightarrow> string list" where
  "remove_where cs xs = fold (\<lambda>(c, name) acc. if c then remove1 name acc else acc) cs xs"

definition find_move :: "battle \<Rightarrow> string \<Rightarrow> move option" where
  "find_move b k = find (\<lambda>m. move_id m = k) (available_moves b)"

definition boost_of :: "pokemon \<Rightarrow> string \<Rightarrow> int" where
  "boost_of p stat = dict_get (boosts p) stat 0"

definition multiplier_of :: "damage_map \<Rightarrow> string \<Rightarrow> rat" where
  "multiplier_of damage_map k = (case map_of damage_map k of None \<Rightarrow> 1 | Some i \<Rightarrow> multiplier i)"

definition sleep_moves :: "string list" where
  "sleep_moves = [''darkvoid'', ''grasswhistle'', ''hypnosis'', ''lovelykiss'', ''sing'',
     ''sleeppowder'', ''spore'', ''yawn'']"

definition rule_0 :: "library \<Rightarrow> battle \<Rightarrow> damage_map \<Rightarrow> string list \<Rightarrow> string list" where
  "rule_0 L b damage_map xs = mortal_peril_alert L b xs damage_map"

definition rule_0_5 :: "battle \<Rightarrow> damage_map \<Rightarrow> string list \<Rightarrow> string list" where
  "rule_0_5 b damage_map xs =
     (if current_hp_fraction (opponent_active_pokemon b) < 1 / 2
      then step_on_throat b xs damage_map else xs)"

definition rule_1 :: "battle \<Rightarrow> string list \<Rightarrow> string list" where
  "rule_1 b xs =
     (if current_hp_fraction (active_pokemon b) \<ge> 66 / 100
      then remove_each [''healorder'', ''milkdrink'', ''moonlight'', ''morningsun'', ''recover'',
             ''rest'', ''roost'', ''shoreup'', ''slackoff'', ''softboiled'', ''swallow'',
             ''synthesis''] xs
      else xs)"

definition rule_2 :: "battle \<Rightarrow> string list \<Rightarrow> string list" where
  "rule_2 b xs =
     (let opp = opponent_side_conditions b; mine = side_conditions b in
      remove_where
        [(has_key opp STEALTH_ROCK, ''stealthrock''),
         (dict_get opp SPIKES 0 \<ge> 3, ''spikes''),
         (dict_get opp TOXIC_SPIKES 0 \<ge> 2, ''toxicspikes''),
         (has_key opp STICKY_WEB, ''stickyweb''),
         (has_key mine REFLECT, ''reflect''),
         (has_key mine LIGHT_SCREEN, ''lightscreen''),
         (has_key mine AURORA_VEIL, ''auroraveil''),
         (has_key mine TAILWIND, ''tailwind''),
         (TRICK_ROOM \<in> set (battle_fields b), ''trickroom'')] xs)"

definition rule_3 :: "battle \<Rightarrow> string list \<Rightarrow> string list" where
  "rule_3 b xs =
     (let my_side_hazards =
            list_ex (\<lambda>c. c \<in> {STEALTH_ROCK, SPIKES, TOXIC_SPIKES, STICKY_WEB})
              (map fst (side_conditions b))
      in if \<not> my_side_hazards then
           (let ys = fold (\<lambda>mv acc. if mv \<noteq> ''defog'' then remove1 mv acc else acc)
                       [''rapidspin'', ''mortalspin'', ''defog''] xs
            in if \<not> list_ex (\<lambda>v. v \<noteq> 0) (map snd (opponent_side_conditions b))
               then remove1 ''defog'' ys else ys)
         else xs)"

definition rule_4 :: "battle \<Rightarrow> string list \<Rightarrow> string list" where
  "rule_4 b xs =
     (let p = active_pokemon b;
          atk = boost_of p ''atk''; def = boost_of p ''def''; spa = boost_of p ''spa'';
          spd = boost_of p ''spd''; spe = boost_of p ''spe''
      in remove_where
        [(atk \<ge> 2, ''swordsdance''),
         (spa \<ge> 2, ''nastyplot''),
         (def \<ge> 2, ''irondefense''),
         (def \<ge> 2, ''acidarmor''),
         (spd \<ge> 2, ''amnesia''),
         (spe \<ge> 2, ''agility''),
         (spe \<ge> 2, ''rockpolish''),
         (atk \<ge> 1 \<and> def \<ge> 1, ''bulkup''),
         (atk \<ge> 1 \<and> def \<ge> 1, ''coil''),
         (atk \<ge> 1 \<and> spe \<ge> 1, ''dragondance''),
         (spa \<ge> 1 \<and> spd \<ge> 1, ''calmmind''),
         (spa \<ge> 1 \<and> spd \<ge> 1 \<and> spe \<ge> 1, ''quiverdance''),
         ((atk \<ge> 2 \<or> spa \<ge> 2) \<and> spe \<ge> 2, ''shellsmash''),
         (Some GHOST \<notin> set (types p) \<and> atk \<ge> 1 \<and> def \<ge> 1, ''curse'')] xs)"

text \<open>The switch evaluation shared by rules 5 and 15: an empty viable list keeps the moves.\<close>

definition switch_or_stand :: "library \<Rightarrow> battle \<Rightarrow> string list \<Rightarrow> string list step" where
  "switch_or_stand L b xs =
     (let viable_switches = filter_suboptimal_switches L b (all_possible_switches b)
      in if viable_switches = [] then Return xs else Return viable_switches)"

definition rule_5 :: "library \<Rightarrow> battle \<Rightarrow> string list \<Rightarrow> string list step" where
  "rule_5 L b xs =
     (case available_moves b of
        [locked_move] \<Rightarrow>
          if damage_multiplier_move L (opponent_active_pokemon b) locked_move < 1
          then switch_or_stand L b xs else Continue xs
      | _ \<Rightarrow> Continue xs)"

text \<open>Rules 6 and 7: the loops over \<^verbatim>\<open>damage_map.items()\<close>.\<close>

definition remove_damaging ::
  "battle \<Rightarrow> (rat \<Rightarrow> bool) \<Rightarrow> damage_map \<Rightarrow> string list \<Rightarrow> string list" where
  "remove_damaging b low damage_map xs =
     fold (\<lambda>(k, i) acc.
            if low (expected_damage i) then
              (case find_move b k of
                 None \<Rightarrow> acc
               | Some move_obj \<Rightarrow> if category move_obj \<noteq> STATUS then remove1 k acc else acc)
            else acc) damage_map xs"

definition rule_6 :: "battle \<Rightarrow> damage_map \<Rightarrow> string list \<Rightarrow> string list" where
  "rule_6 b damage_map xs = remove_damaging b (\<lambda>d. d = 0) damage_map xs"

definition rule_7 :: "battle \<Rightarrow> damage_map \<Rightarrow> string list \<Rightarrow> string list" where
  "rule_7 b damage_map xs = remove_damaging b (\<lambda>d. d \<le> 1 / 2) damage_map xs"

definition rule_8 :: "battle \<Rightarrow> string list \<Rightarrow> string list" where
  "rule_8 b xs =
     (if list_ex (\<lambda>p. status p = Some SLP) (opponent_team b)
      then remove_each sleep_moves xs else xs)"

definition rule_9 :: "battle \<Rightarrow> string list \<Rightarrow> string list" where
  "rule_9 b xs =
     (let fx = effects (opponent_active_pokemon b);
          ys = remove_where
                 [(TAUNT \<in> set fx, ''taunt''),
                  (ENCORE \<in> set fx, ''encore''),
                  (LEECH_SEED \<in> set fx, ''leechseed'')] xs;
          is_opponent_trapped =
            list_ex (\<lambda>e. e \<in> set fx)
              [EFF_BIND, CLAMP, FIRE_SPIN, INFESTATION, SAND_TOMB, SNAP_TRAP, THUNDER_CAGE,
               WHIRLPOOL, WRAP]
      in if is_opponent_trapped
         then remove_each [''bind'', ''clamp'', ''firespin'', ''infestation'', ''sandtomb'',
                ''snaptrap'', ''thundercage'', ''whirlpool'', ''wrap''] ys
         else ys)"

text \<open>Rule 10 reads the argument \<^verbatim>\<open>legal_actions\<close> of the function, not the filtered list.\<close>

definition rule_10 :: "battle \<Rightarrow> string list \<Rightarrow> string list \<Rightarrow> string list step" where
  "rule_10 b legal_actions xs =
     (let p = active_pokemon b in
      if status p = Some SLP then
        (if status_counter p \<le> 1 then
           (if ''sleeptalk'' \<in> set legal_actions
            then Continue (''sleeptalk'' # filter is_switch xs)
            else Return (filter is_switch xs))
         else Return (filter is_switch xs))
      else Continue (remove1 ''sleeptalk'' xs))"

definition rule_11 :: "battle \<Rightarrow> string list \<Rightarrow> string list" where
  "rule_11 b xs =
     (if ''trick'' \<in> set xs \<or> ''switcheroo'' \<in> set xs then
        (if item (active_pokemon b) = None
            \<or> opt_contains ''sticky-hold'' (ability (opponent_active_pokemon b))
         then remove1 ''switcheroo'' (remove1 ''trick'' xs) else xs)
      else xs)"

definition rule_12 :: "string option \<Rightarrow> string list \<Rightarrow> string list" where
  "rule_12 last_move xs = (if last_move = Some ''wish'' then remove1 ''wish'' xs else xs)"

definition rule_13 :: "battle \<Rightarrow> string list \<Rightarrow> string list" where
  "rule_13 b xs =
     (let opp = opponent_active_pokemon b;
          ys = (if status opp \<noteq> None
                then remove_each ([''glare'', ''poisonpowder'', ''poisongas'', ''stunspore'',
                       ''thunderwave'', ''toxic'', ''willowisp''] @ sleep_moves) xs
                else xs);
          poison_immune = ((Some POISON \<in> set (types opp) \<or> Some STEEL \<in> set (types opp))
                           \<and> ability (active_pokemon b) \<noteq> Some ''corrosion'')
      in remove_where
           [(Some ELECTRIC \<in> set (types opp) \<and> gen b \<ge> 6, ''thunderwave''),
            (Some FIRE \<in> set (types opp), ''willowisp''),
            (poison_immune, ''toxic''),
            (poison_immune, ''poisonpowder''),
            (Some GRASS \<in> set (types opp), ''leechseed'')] ys)"

definition rule_13_5 :: "battle \<Rightarrow> string list \<Rightarrow> string list" where
  "rule_13_5 b xs =
     (let opp = opponent_active_pokemon b;
          abilities = (case ability opp of
                         None \<Rightarrow> possible_abilities opp
                       | Some a \<Rightarrow> if a \<noteq> [] then [a] else possible_abilities opp)
      in if abilities \<noteq> [] then
           (let ys = (if ''overcoat'' \<in> set abilities \<or> (Some GRASS \<in> set (types opp) \<and> gen b \<ge> 6)
                      then remove_each [''poisonpowder'', ''sleeppowder'', ''spore'', ''stunspore''] xs
                      else xs);
                ys = (if list_ex (\<lambda>a. a \<in> {''insomnia'', ''vitalsprit''}) abilities
                      then remove_each sleep_moves ys else ys);
                ys = (if ''waterveil'' \<in> set abilities then remove1 ''willowisp'' ys else ys);
                ys = (if ''limber'' \<in> set abilities \<or> (Some ELECTRIC \<in> set (types opp) \<and> gen b \<ge> 6)
                      then remove_each [''thunderwave'', ''glare'', ''nuzzle''] ys else ys)
            in if ''oblivious'' \<in> set abilities \<and> gen b \<ge> 6 then remove1 ''taunt'' ys else ys)
         else xs)"

definition rule_14 :: "battle \<Rightarrow> string list \<Rightarrow> string list" where
  "rule_14 b xs =
     (if current_hp_fraction (active_pokemon b) \<ge> current_hp_fraction (opponent_active_pokemon b)
      then remove1 ''painsplit'' xs else xs)"

definition rule_15 :: "library \<Rightarrow> battle \<Rightarrow> string list \<Rightarrow> string list step" where
  "rule_15 L b xs =
     (let atk_boost = boost_of (active_pokemon b) ''atk'';
          spa_boost = boost_of (active_pokemon b) ''spa'';
          physical_moves = length (filter (\<lambda>m. category m = PHYSICAL) (available_moves b));
          special_moves = length (filter (\<lambda>m. category m = SPECIAL) (available_moves b));
          should_force_switch =
            (if physical_moves > special_moves \<and> atk_boost \<le> - 2 then True
             else if special_moves > physical_moves \<and> spa_boost \<le> - 2 then True
             else if physical_moves = special_moves \<and> (atk_boost \<le> - 2 \<or> spa_boost \<le> - 2) then True
             else False)
      in if should_force_switch then switch_or_stand L b xs else Continue xs)"

definition rule_16 :: "battle \<Rightarrow> string list \<Rightarrow> string list" where
  "rule_16 b xs =
     (if length (team b) = 1
      then remove_each [''batonpass'', ''teleport'', ''flipturn'', ''voltswitch''] xs else xs)"

definition protect_moves :: "string list" where
  "protect_moves = [''protect'', ''detect'', ''spikyshield'', ''kingsshield'', ''banefulbunker'',
     ''obstruct'', ''burningbulwark'', ''silktrap'']"

definition rule_17 :: "string option \<Rightarrow> string list \<Rightarrow> string list" where
  "rule_17 last_move xs =
     (if last_move \<in> Some ` set protect_moves then remove_each protect_moves xs else xs)"

text \<open>
  Rule 18. The branch on the weathers that weaken the sun healing moves only writes to
  the log: it removes nothing and has no counterpart here.
\<close>

definition rule_18 :: "battle \<Rightarrow> string list \<Rightarrow> string list" where
  "rule_18 b xs =
     (let w = weather b;
          ys = (if w \<notin> {Some SUNNYDAY, Some DESOLATELAND}
                then remove_each [''solarbeam'', ''solarblade''] xs else xs);
          ys = (if w \<notin> {Some RAINDANCE, Some PRIMORDIALSEA}
                then remove_each [''electroshot''] ys else ys);
          ys = (if w \<notin> {Some HAIL, Some SNOW, Some SNOWSCAPE}
                then remove_each [''auroraveil''] ys else ys)
      in if w \<notin> {Some RAINDANCE, Some PRIMORDIALSEA, Some DELTASTREAM, Some DESOLATELAND,
                   Some HAIL, Some SANDSTORM, Some SNOW, Some SNOWSCAPE, Some SUNNYDAY}
         then remove_each [''weatherball''] ys else ys)"

definition rule_20 :: "battle \<Rightarrow> damage_map \<Rightarrow> string list \<Rightarrow> string list" where
  "rule_20 b damage_map xs =
     (if \<not> truthy (item (opponent_active_pokemon b)) \<and> multiplier_of damage_map ''knockoff'' \<le> 1
      then remove1 ''knockoff'' xs else xs)"

text \<open>The status moves of the list, as rules 21 and 23 collect them.\<close>

definition status_moves_in :: "battle \<Rightarrow> string list \<Rightarrow> string list" where
  "status_moves_in b xs =
     filter (\<lambda>a. \<not> is_switch a \<and>
                 (case find_move b a of None \<Rightarrow> False | Some move_obj \<Rightarrow> category move_obj = STATUS)) xs"

definition drop_status_moves :: "battle \<Rightarrow> string list \<Rightarrow> string list" where
  "drop_status_moves b xs =
     (let to_remove = status_moves_in b xs
      in if to_remove \<noteq> [] then filter (\<lambda>a. a \<notin> set to_remove) xs else xs)"

definition rule_21 :: "battle \<Rightarrow> string list \<Rightarrow> string list" where
  "rule_21 b xs =
     (if SUBSTITUTE \<in> set (effects (opponent_active_pokemon b)) then drop_status_moves b xs else xs)"

definition rule_22 :: "battle \<Rightarrow> string list \<Rightarrow> string list" where
  "rule_22 b xs =
     (if SUBSTITUTE \<in> set (effects (active_pokemon b)) then remove1 ''substitute'' xs else xs)"

definition rule_23 :: "battle \<Rightarrow> string list \<Rightarrow> string list" where
  "rule_23 b xs =
     (if ability (active_pokemon b) = Some ''prankster'' \<and> gen b \<ge> 7
         \<and> Some DARK \<in> set (types (opponent_active_pokemon b))
      then drop_status_moves b xs else xs)"

definition rule_24 :: "battle \<Rightarrow> string list \<Rightarrow> string list step" where
  "rule_24 b xs =
     (if ability (active_pokemon b) = Some ''truant'' \<and> must_recharge (active_pokemon b)
      then (let switch_actions = filter is_switch xs
            in if switch_actions \<noteq> [] then Return switch_actions else Return [])
      else Continue xs)"

definition rule_25 :: "string list \<Rightarrow> string list" where
  "rule_25 xs =
     remove_each [''hyperbeam'', ''gigaimpact'', ''rockwrecker'', ''frenzyplant'', ''blastburn'',
       ''hydrocannon'', ''roaroftime'', ''eternabeam''] xs"

text \<open>Rule 26, scenario 1: whether the single move forced by Encore is useless.\<close>

definition encore_should_switch :: "battle \<Rightarrow> damage_map \<Rightarrow> move \<Rightarrow> bool" where
  "encore_should_switch b damage_map locked_move =
     (let opp = opponent_side_conditions b in
      if category locked_move \<noteq> STATUS then multiplier_of damage_map (move_id locked_move) < 1
      else
        (case move_boosts locked_move of
           None \<Rightarrow> False
         | Some bs \<Rightarrow> bs \<noteq> [] \<and> list_all (\<lambda>(stat, v). \<not> boost_of (active_pokemon b) stat < 6) bs)
        \<or> (if move_id locked_move = ''stealthrock'' \<and> has_key opp STEALTH_ROCK then True
            else if move_id locked_move = ''spikes'' \<and> dict_get opp SPIKES 0 \<ge> 3 then True
            else if move_id locked_move = ''stickyweb'' \<and> has_key opp STICKY_WEB then True
            else False))"

definition switch_if_viable :: "library \<Rightarrow> battle \<Rightarrow> string list \<Rightarrow> string list step" where
  "switch_if_viable L b xs =
     (let viable_switches = filter_suboptimal_switches L b (all_possible_switches b)
      in if viable_switches \<noteq> [] then Return viable_switches else Continue xs)"

definition rule_26_encore :: "library \<Rightarrow> battle \<Rightarrow> damage_map \<Rightarrow> string list \<Rightarrow> string list step" where
  "rule_26_encore L b damage_map xs =
     (if ENCORE \<in> set (effects (active_pokemon b)) then
        (case available_moves b of
           [locked_move] \<Rightarrow>
             if encore_should_switch b damage_map locked_move then switch_if_viable L b xs
             else Continue xs
         | _ \<Rightarrow> Continue xs)
      else Continue xs)"

definition rule_26_taunt :: "library \<Rightarrow> battle \<Rightarrow> damage_map \<Rightarrow> string list \<Rightarrow> string list step" where
  "rule_26_taunt L b damage_map xs =
     (if TAUNT \<in> set (effects (active_pokemon b)) then
        (if available_moves b \<noteq> [] then
           (if list_all (\<lambda>m. multiplier_of damage_map (move_id m) < 1) (available_moves b)
            then switch_if_viable L b xs else Continue xs)
         else Return (filter_suboptimal_switches L b (all_possible_switches b)))
      else Continue xs)"

definition rule_27 :: "library \<Rightarrow> battle \<Rightarrow> string list \<Rightarrow> string list step" where
  "rule_27 L b xs =
     (if lower (species (opponent_active_pokemon b)) \<in> {''blissey'', ''chansey''} then
        (if \<not> list_ex (\<lambda>m. category m = PHYSICAL) (available_moves b)
         then switch_if_viable L b xs else Continue xs)
      else Continue xs)"

definition rule_29 :: "string option \<Rightarrow> string list \<Rightarrow> string list" where
  "rule_29 last_move xs = (if last_move = Some ''yawn'' then remove1 ''yawn'' xs else xs)"

definition rule_30 :: "battle \<Rightarrow> string list \<Rightarrow> string list" where
  "rule_30 b xs =
     (if \<not> (current_hp_fraction (active_pokemon b) < 34 / 100
            \<and> current_hp_fraction (opponent_active_pokemon b) > 66 / 100)
      then remove_each [''explosion'', ''selfdestruct'', ''mistyexplosion''] xs else xs)"

definition rule_33 :: "battle \<Rightarrow> string list \<Rightarrow> string list" where
  "rule_33 b xs =
     (let is_team_statused =
            list_ex (\<lambda>p. status p \<noteq> None) (filter (\<lambda>p. \<not> fainted p) (team b))
      in if \<not> is_team_statused then remove_each [''healbell'', ''aromatherapy''] xs else xs)"

definition rule_36 :: "string option \<Rightarrow> string list \<Rightarrow> string list" where
  "rule_36 last_move xs = (if last_move = Some ''trickroom'' then remove1 ''trickroom'' xs else xs)"

text \<open>The rules that follow rule 0.5, in the order of the source.\<close>

definition later_rules ::
  "library \<Rightarrow> string option \<Rightarrow> battle \<Rightarrow> string list \<Rightarrow> damage_map
     \<Rightarrow> (string list \<Rightarrow> string list step) list" where
  "later_rules L last_move b legal_actions damage_map =
     [continue_with (rule_1 b),
      continue_with (rule_2 b),
      continue_with (rule_3 b),
      continue_with (rule_4 b),
      rule_5 L b,
      continue_with (rule_6 b damage_map),
      continue_with (rule_7 b damage_map),
      continue_with (rule_8 b),
      continue_with (rule_9 b),
      rule_10 b legal_actions,
      continue_with (rule_11 b),
      continue_with (rule_12 last_move),
      continue_with (rule_13 b),
      continue_with (rule_13_5 b),
      continue_with (rule_14 b),
      rule_15 L b,
      continue_with (rule_16 b),
      continue_with (rule_17 last_move),
      continue_with (rule_18 b),
      continue_with (rule_20 b damage_map),
      continue_with (rule_21 b),
      continue_with (rule_22 b),
      continue_with (rule_23 b),
      rule_24 b,
      continue_with rule_25,
      rule_26_encore L b damage_map,
      rule_26_taunt L b damage_map,
      rule_27 L b,
      continue_with (rule_29 last_move),
      continue_with (rule_30 b),
      continue_with (rule_33 b),
      continue_with (rule_36 last_move)]"

text \<open>The candidate list after rules 0 and 0.5.\<close>

definition after_overrides ::
  "library \<Rightarrow> battle \<Rightarrow> string list \<Rightarrow> damage_map \<Rightarrow> string list" where
  "after_overrides L b legal_actions damage_map =
     rule_0_5 b damage_map (rule_0 L b damage_map legal_actions)"

definition filter_suboptimal_moves ::
  "library \<Rightarrow> string option \<Rightarrow> battle \<Rightarrow> string list \<Rightarrow> damage_map \<Rightarrow> string list" where
  "filter_suboptimal_moves L last_move b legal_actions damage_map =
     run_rules (later_rules L last_move b legal_actions damage_map)
       (after_overrides L b legal_actions damage_map)"

section \<open>Fallback Selector and the turn decision\<close>

text \<open>
  The memory the player keeps between turns, and the order it commits. \<open>RandomMove\<close> is
  the library's \<^verbatim>\<open>choose_random_move\<close>, \<open>RandomSwitch\<close> is
  \<^verbatim>\<open>random.choice(battle.available_switches)\<close>: which order is drawn is outside the model.
\<close>

record player =
  last_move :: "string option"
  just_switched :: bool

datatype order = MoveOrder string | SwitchOrder string | PassOrder | RandomMove | RandomSwitch

datatype py_error = AttributeError | StopIteration

text \<open>The loop of \<^verbatim>\<open>select_best_damage_move\<close> over \<^verbatim>\<open>damage_info.items()\<close>.\<close>

fun best_loop :: "damage_map \<Rightarrow> string option \<times> rat \<Rightarrow> string option \<times> rat" where
  "best_loop [] acc = acc"
| "best_loop ((k, i) # d) (best_move_id, max_damage) =
     (if expected_damage i > max_damage then best_loop d (Some k, expected_damage i)
      else best_loop d (best_move_id, max_damage))"

definition select_best_damage_move ::
  "library \<Rightarrow> player \<Rightarrow> battle \<Rightarrow> py_error + order \<times> player" where
  "select_best_damage_move L st b =
     (let damage_info = calculate_move_damages L (last_move st) b;
          (best_move_id, max_damage) = best_loop damage_info (None, - 1)
      in case best_move_id of
           None \<Rightarrow> Inr (RandomMove, st)
         | Some k \<Rightarrow>
             if k = [] then Inr (RandomMove, st)
             else
               (case find_move b k of
                  None \<Rightarrow> Inl AttributeError
                | Some best_move \<Rightarrow>
                    Inr (MoveOrder (move_id best_move),
                         st\<lparr>last_move := Some (move_id best_move)\<rparr>)))"

definition choose_random_switch ::
  "library \<Rightarrow> player \<Rightarrow> battle \<Rightarrow> py_error + order \<times> player" where
  "choose_random_switch L st b =
     (if available_switches b \<noteq> [] then Inr (RandomSwitch, st\<lparr>last_move := None\<rparr>)
      else select_best_damage_move L st b)"

text \<open>The candidate list that \<^verbatim>\<open>choose_move\<close> shows to the decision-maker.\<close>

definition legal_actions_of :: "library \<Rightarrow> player \<Rightarrow> battle \<Rightarrow> string list" where
  "legal_actions_of L st b =
     (let damage_map = calculate_move_damages L (last_move st) b;
          legal_moves = map move_id (available_moves b);
          legal_switches = all_possible_switches b;
          filtered_moves = filter_suboptimal_moves L (last_move st) b legal_moves damage_map;
          filtered_switches = filter_suboptimal_switches L b legal_switches
      in if just_switched st then filtered_moves else filtered_moves @ filtered_switches)"

text \<open>
  One pass of the retry loop: \<open>Some\<close> is the \<^verbatim>\<open>return\<close> inside the loop, \<open>None\<close> the
  fall through to the next attempt. \<open>model_response\<close> is what \<^verbatim>\<open>query_ollama\<close> gave.
\<close>

definition try_response ::
  "player \<Rightarrow> battle \<Rightarrow> string list \<Rightarrow> string option \<Rightarrow> (order \<times> player) option" where
  "try_response st b legal_actions model_response =
     (case model_response of
        None \<Rightarrow> None
      | Some text \<Rightarrow>
          if text = [] then None
          else
            (let cleaned_response = sanitize_model_response text in
             if cleaned_response \<in> set legal_actions then
               (if is_switch cleaned_response then
                  (case find_switch b (str_replace ''switch-'' [] cleaned_response) of
                     None \<Rightarrow> None
                   | Some switch_to_use \<Rightarrow>
                       Some (SwitchOrder (species switch_to_use),
                             st\<lparr>last_move := None, just_switched := True\<rparr>))
                else
                  (case find_move b cleaned_response of
                     None \<Rightarrow> None
                   | Some move_to_use \<Rightarrow>
                       Some (MoveOrder (move_id move_to_use),
                             st\<lparr>last_move := Some (move_id move_to_use)\<rparr>)))
             else None))"

text \<open>
  \<^verbatim>\<open>for i in range(max_retries)\<close>: \<open>responses i\<close> is the answer of the decision-maker to
  the query of attempt \<open>i\<close>.
\<close>

fun retry_loop ::
  "player \<Rightarrow> battle \<Rightarrow> string list \<Rightarrow> (nat \<Rightarrow> string option) \<Rightarrow> nat list
     \<Rightarrow> (order \<times> player) option" where
  "retry_loop st b legal_actions responses [] = None"
| "retry_loop st b legal_actions responses (i # attempts) =
     (case try_response st b legal_actions (responses i) of
        Some r \<Rightarrow> Some r
      | None \<Rightarrow> retry_loop st b legal_actions responses attempts)"

definition max_retries :: nat where
  "max_retries = 3"

text \<open>\<^verbatim>\<open>handle_switch\<close> asks the decision-maker once; \<open>model_response\<close> is its answer.\<close>

definition handle_switch ::
  "library \<Rightarrow> player \<Rightarrow> battle \<Rightarrow> string option \<Rightarrow> py_error + order \<times> player" where
  "handle_switch L st b model_response =
     (let names = filter_suboptimal_switches L b (map species_key (available_switches b)) in
      if names = [] then Inr (RandomMove, st)
      else
        (case model_response of
           None \<Rightarrow> choose_random_switch L st b
         | Some text \<Rightarrow>
             if text \<noteq> [] \<and> sanitize_model_response text \<in> set names then
               (case find_switch b (sanitize_model_response text) of
                  None \<Rightarrow> Inl StopIteration
                | Some switch_to_use \<Rightarrow>
                    Inr (SwitchOrder (species switch_to_use),
                         st\<lparr>last_move := None, just_switched := True\<rparr>))
             else choose_random_switch L st b))"

text \<open>
  \<^verbatim>\<open>choose_move\<close> on one snapshot. The snapshot does not change while the function
  waits, so a forced switch that is pending after a switch is still pending when the wait
  ends.
\<close>

definition choose_move ::
  "library \<Rightarrow> player \<Rightarrow> battle \<Rightarrow> (nat \<Rightarrow> string option) \<Rightarrow> py_error + order \<times> player" where
  "choose_move L st b responses =
     (if must_recharge (active_pokemon b) then Inr (PassOrder, st)
      else if force_switch b then
        (if just_switched st then Inr (RandomMove, st) else handle_switch L st b (responses 0))
      else
        (let legal_actions = legal_actions_of L st b;
             st1 = (if just_switched st then st\<lparr>just_switched := False\<rparr> else st)
         in if legal_actions = [] then select_best_damage_move L st1 b
            else
              (case retry_loop st1 b legal_actions responses [0..<max_retries] of
                 Some r \<Rightarrow> Inr r
               | None \<Rightarrow> select_best_damage_move L st1 b)))"

section \<open>Notions of the specification\<close>

text \<open>
  The values a type matchup over at most two types can take, the abilities the damage
  model consults for a defender (the known one, else every possible one), and the
  pairs of ability and move type that the specification calls an immunity.
\<close>

definition standard_multipliers :: "rat set" where
  "standard_multipliers = {0, 1 / 4, 1 / 2, 1, 2, 4}"

definition consulted_abilities :: "pokemon \<Rightarrow> string list" where
  "consulted_abilities p =
     (case ability p of
        None \<Rightarrow> possible_abilities p
      | Some a \<Rightarrow> if a \<noteq> [] then [a] else possible_abilities p)"

definition immune_to :: "string \<Rightarrow> pokemon_type \<Rightarrow> bool" where
  "immune_to a mt =
     ((a, mt) \<in> {(''dryskin'', WATER), (''flashfire'', FIRE), (''levitate'', GROUND),
        (''lightningrod'', ELECTRIC), (''motordrive'', ELECTRIC), (''voltabsorb'', ELECTRIC),
        (''sapsipper'', GRASS), (''stormdrain'', WATER), (''waterabsorb'', WATER)})"

text \<open>
  Rule 5 keeps the moves when the only available move is weak and no switch is viable:
  this is the one return of the pipeline that hands back the moves before the sleep rule.
\<close>

definition stands_locked :: "library \<Rightarrow> battle \<Rightarrow> bool" where
  "stands_locked L b =
     (case available_moves b of
        [locked_move] \<Rightarrow>
          damage_multiplier_move L (opponent_active_pokemon b) locked_move < 1
          \<and> filter_suboptimal_switches L b (all_possible_switches b) = []
      | _ \<Rightarrow> False)"

text \<open>
  The conditions under which a rule after rule 10 hands back the switches or drops the
  status moves: a main attacking stat lowered by two stages (rule 15), a substitute of
  the opponent (rule 21), the abilities Prankster (rule 23) and Truant (rule 24), Encore or
  Taunt on the active Pokemon (rule 26), Blissey or Chansey as the opponent (rule 27).
\<close>

definition later_rules_interfere :: "battle \<Rightarrow> bool" where
  "later_rules_interfere b =
     (boost_of (active_pokemon b) ''atk'' \<le> - 2
      \<or> boost_of (active_pokemon b) ''spa'' \<le> - 2
      \<or> SUBSTITUTE \<in> set (effects (opponent_active_pokemon b))
      \<or> ability (active_pokemon b) \<in> {Some ''prankster'', Some ''truant''}
      \<or> ENCORE \<in> set (effects (active_pokemon b))
      \<or> TAUNT \<in> set (effects (active_pokemon b))
      \<or> lower (species (opponent_active_pokemon b)) \<in> {''blissey'', ''chansey''})"

section \<open>Concrete snapshots\<close>

text \<open>
  Small snapshots on which the definitions are evaluated. \<open>neutral_library\<close> is a
  type chart in which every matchup is neutral.
\<close>

definition neutral_library :: library where
  "neutral_library =
     \<lparr>damage_multiplier_move = (\<lambda>p m. 1), damage_multiplier_type = (\<lambda>p t. 1),
      type_damage_multiplier = (\<lambda>t u. 1)\<rparr>"

definition plain_move :: move where
  "plain_move =
     \<lparr>move_id = ''tackle'', base_power = 40, move_type = NORMAL, category = PHYSICAL,
      accuracy = 100, priority = 0, crit_ratio = 0, flags = [''contact''],
      move_boosts = None, recoil = 0\<rparr>"

definition plain_pokemon :: pokemon where
  "plain_pokemon =
     \<lparr>species = ''Eevee'', current_hp_fraction = 1, boosts = [], types = [Some NORMAL, None],
      status = None, status_counter = 0, ability = None, possible_abilities = [],
      item = None, effects = [], must_recharge = False, fainted = False, moves = [],
      stats_spe = 100, turn_count = 1, weight = 10\<rparr>"

definition plain_battle :: battle where
  "plain_battle =
     \<lparr>gen = 9, turn = 2, available_moves = [plain_move], available_switches = [],
      active_pokemon = plain_pokemon, opponent_active_pokemon = plain_pokemon,
      weather = None, battle_fields = [], side_conditions = [], opponent_side_conditions = [],
      team = [plain_pokemon, plain_pokemon], opponent_team = [plain_pokemon],
      force_switch = False\<rparr>"

definition fresh_player :: player where
  "fresh_player = \<lparr>last_move = None, just_switched = False\<rparr>"

text \<open>A bench of one Pokemon whose species name carries a digit.\<close>

definition porygon_battle :: battle where
  "porygon_battle = plain_battle\<lparr>available_switches := [plain_pokemon\<lparr>species := ''Porygon2''\<rparr>]\<rparr>"

text \<open>
  A fragment of a type chart, and the library functions it gives: the multiplier of an
  attacking type against a Pokemon is the product over the types of the Pokemon.
\<close>

definition sample_chart :: "pokemon_type \<Rightarrow> pokemon_type \<Rightarrow> rat" where
  "sample_chart attacker defender =
     (if (attacker, defender) \<in> {(FIRE, GRASS), (WATER, FIRE), (GRASS, WATER), (ELECTRIC, WATER),
          (ICE, DRAGON), (ICE, FLYING), (ICE, GROUND), (FIGHTING, NORMAL), (GROUND, FIRE)} then 2
      else if (attacker, defender) \<in> {(FIRE, WATER), (WATER, GRASS), (GRASS, FIRE), (FIRE, FIRE),
          (WATER, WATER), (GRASS, GRASS), (NORMAL, ROCK)} then 1 / 2
      else if (attacker, defender) \<in> {(NORMAL, GHOST), (GROUND, FLYING), (ELECTRIC, GROUND)} then 0
      else 1)"

fun chart_product :: "pokemon_type \<Rightarrow> pokemon_type option list \<Rightarrow> rat" where
  "chart_product t [] = 1"
| "chart_product t (None # ts) = chart_product t ts"
| "chart_product t (Some d # ts) = sample_chart t d * chart_product t ts"

definition sample_library :: library where
  "sample_library =
     \<lparr>damage_multiplier_move = (\<lambda>p m. chart_product (move_type m) (types p)),
      damage_multiplier_type = (\<lambda>p t. chart_product t (types p)),
      type_damage_multiplier = sample_chart\<rparr>"

definition bulbasaur :: pokemon where
  "bulbasaur = plain_pokemon\<lparr>species := ''Bulbasaur'', types := [Some GRASS, Some POISON]\<rparr>"

definition squirtle :: pokemon where
  "squirtle = plain_pokemon\<lparr>species := ''Squirtle'', types := [Some WATER, None]\<rparr>"

definition charmander :: pokemon where
  "charmander = plain_pokemon\<lparr>species := ''Charmander'', types := [Some FIRE, None]\<rparr>"

text \<open>Facing a Fire type that has revealed no move, with a Grass and a Water type on the bench.\<close>

definition bench_battle :: battle where
  "bench_battle =
     plain_battle\<lparr>opponent_active_pokemon := charmander,
                   available_switches := [bulbasaur, squirtle]\<rparr>"

definition ember :: move where
  "ember = plain_move\<lparr>move_id := ''ember'', move_type := FIRE, category := SPECIAL, flags := []\<rparr>"

text \<open>A Fire move against a Grass type with the ability Filter.\<close>

definition filter_battle :: battle where
  "filter_battle =
     plain_battle\<lparr>available_moves := [ember],
                   opponent_active_pokemon :=
                     plain_pokemon\<lparr>species := ''Tangela'', types := [Some GRASS, None],
                                    ability := Some ''filter''\<rparr>\<rparr>"

text \<open>A Fire move against a Normal type whose only possible ability is Dry Skin.\<close>

definition dryskin_battle :: battle where
  "dryskin_battle =
     plain_battle\<lparr>available_moves := [ember],
                   opponent_active_pokemon :=
                     plain_pokemon\<lparr>possible_abilities := [''dryskin'']\<rparr>\<rparr>"

text \<open>Return as the game data has it, with base power 0, and Weather Ball in the rain.\<close>

definition return_move :: move where
  "return_move = plain_move\<lparr>move_id := ''return'', base_power := 0\<rparr>"

definition return_battle :: battle where
  "return_battle = plain_battle\<lparr>available_moves := [return_move]\<rparr>"

definition weatherball :: move where
  "weatherball =
     plain_move\<lparr>move_id := ''weatherball'', base_power := 50, category := SPECIAL, flags := []\<rparr>"

definition rain_battle :: battle where
  "rain_battle = plain_battle\<lparr>available_moves := [weatherball], weather := Some RAINDANCE\<rparr>"

text \<open>An attacker with Analytic on the second turn.\<close>

definition analytic_battle :: battle where
  "analytic_battle =
     plain_battle\<lparr>active_pokemon := plain_pokemon\<lparr>ability := Some ''analytic''\<rparr>\<rparr>"

text \<open>Only a status move to use, and one Pokemon on the bench.\<close>

definition growl :: move where
  "growl = plain_move\<lparr>move_id := ''growl'', base_power := 0, category := STATUS, flags := [''sound'']\<rparr>"

definition status_only_battle :: battle where
  "status_only_battle = plain_battle\<lparr>available_moves := [growl], available_switches := [squirtle]\<rparr>"

text \<open>Two moves of equal expected damage around a weaker one, and no move at all.\<close>

definition tie_battle :: battle where
  "tie_battle =
     plain_battle\<lparr>available_moves :=
       [plain_move\<lparr>move_id := ''pound''\<rparr>, growl, plain_move\<lparr>move_id := ''scratch''\<rparr>]\<rparr>"

definition no_move_battle :: battle where
  "no_move_battle = plain_battle\<lparr>available_moves := [], available_switches := [squirtle]\<rparr>"

text \<open>
  A faster Grass type facing a Fire type that has revealed no move: the only move that
  can answer the threat is Hyper Beam.
\<close>

definition hyperbeam :: move where
  "hyperbeam =
     plain_move\<lparr>move_id := ''hyperbeam'', base_power := 150, category := SPECIAL, flags := []\<rparr>"

definition peril_battle :: battle where
  "peril_battle =
     plain_battle\<lparr>active_pokemon := bulbasaur\<lparr>stats_spe := 120\<rparr>,
                   opponent_active_pokemon := charmander,
                   available_moves := [growl, hyperbeam],
                   available_switches := [squirtle]\<rparr>"

text \<open>Asleep with one turn left, Sleep Talk among the moves and two Pokemon on the bench.\<close>

definition sleeptalk :: move where
  "sleeptalk =
     plain_move\<lparr>move_id := ''sleeptalk'', base_power := 0, category := STATUS, flags := []\<rparr>"

definition asleep_battle :: battle where
  "asleep_battle =
     plain_battle\<lparr>active_pokemon := plain_pokemon\<lparr>status := Some SLP, status_counter := 1\<rparr>,
                   opponent_active_pokemon := charmander,
                   available_moves := [plain_move, sleeptalk],
                   available_switches := [bulbasaur, squirtle]\<rparr>"

text \<open>
  Answers of the decision-maker, by attempt: a valid answer at the third attempt after an
  absent and a mismatching one, a valid answer that only comes fourth, and a valid
  replacement that only comes second. \<open>forced_battle\<close> is a turn on which the active
  Pokemon has to be replaced.
\<close>

definition third_answer_valid :: "nat \<Rightarrow> string option" where
  "third_answer_valid i =
     (if i = 1 then Some ''tackle'' else if i = 2 then Some ''Switch-Squirtle.'' else None)"

definition fourth_answer_valid :: "nat \<Rightarrow> string option" where
  "fourth_answer_valid i = (if i = 3 then Some ''switch-squirtle'' else Some ''tackle'')"

definition second_answer_valid :: "nat \<Rightarrow> string option" where
  "second_answer_valid i = (if i = 1 then Some ''squirtle'' else Some ''pikachu'')"

definition forced_battle :: battle where
  "forced_battle = status_only_battle\<lparr>force_switch := True\<rparr>"

definition always_tackle :: "nat \<Rightarrow> string option" where
  "always_tackle i = Some ''tackle''"

definition recharge_battle :: battle where
  "recharge_battle = plain_battle\<lparr>active_pokemon := plain_pokemon\<lparr>must_recharge := True\<rparr>\<rparr>"

text \<open>The same attacker, faster than a Normal type that is below half of its hit points.\<close>

definition throat_battle :: battle where
  "throat_battle =
     peril_battle\<lparr>opponent_active_pokemon := plain_pokemon\<lparr>current_hp_fraction := 2 / 5\<rparr>\<rparr>"

text \<open>The same bench with three turns of sleep left, and with the active Pokemon awake.\<close>

definition deep_sleep_battle :: battle where
  "deep_sleep_battle =
     asleep_battle\<lparr>active_pokemon := plain_pokemon\<lparr>status := Some SLP, status_counter := 3\<rparr>\<rparr>"

definition awake_battle :: battle where
  "awake_battle = asleep_battle\<lparr>active_pokemon := plain_pokemon\<rparr>"

text \<open>The attacker under the KO threat, asleep with one turn left.\<close>

definition asleep_peril_battle :: battle where
  "asleep_peril_battle =
     peril_battle\<lparr>active_pokemon :=
       bulbasaur\<lparr>stats_spe := 120, status := Some SLP, status_counter := 1\<rparr>\<rparr>"

definition always_squirtle :: "nat \<Rightarrow> string option" where
  "always_squirtle i = Some ''Squirtle!''"

section \<open>Properties of the decision loop\<close>

lemma sanitize_allowed: "c \<in> set (sanitize_model_response t) \<Longrightarrow> allowed_char c"
  by (simp add: sanitize_model_response_def)

lemma try_response_member:
  "try_response st b legal r = Some res \<Longrightarrow>
     \<exists>t. r = Some t \<and> t \<noteq> [] \<and> sanitize_model_response t \<in> set legal"
  by (auto simp: try_response_def Let_def split: option.splits if_splits)

lemma try_response_invalid:
  "(case r of None \<Rightarrow> True | Some t \<Rightarrow> sanitize_model_response t \<notin> set legal)
     \<Longrightarrow> try_response st b legal r = None"
  by (auto simp: try_response_def Let_def split: option.splits)

lemma retry_loop_Some:
  "retry_loop st b legal responses attempts = Some res \<Longrightarrow>
     \<exists>i \<in> set attempts. try_response st b legal (responses i) = Some res"
  by (induction attempts) (auto split: option.splits)

lemma retry_loop_None:
  "(\<forall>i \<in> set attempts. try_response st b legal (responses i) = None)
     \<Longrightarrow> retry_loop st b legal responses attempts = None"
  by (induction attempts) (auto split: option.splits)

lemma retry_loop_cong:
  "(\<forall>i \<in> set attempts. responses i = responses' i)
     \<Longrightarrow> retry_loop st b legal responses attempts = retry_loop st b legal responses' attempts"
  by (induction attempts) (auto split: option.splits)

lemma post_switch_state:
  "(if just_switched st then st\<lparr>just_switched := False\<rparr> else st) = st\<lparr>just_switched := False\<rparr>"
  by (cases "just_switched st") simp_all

lemma choose_move_fallback:
  assumes "\<not> must_recharge (active_pokemon b)" and "\<not> force_switch b"
    and "\<forall>i<max_retries. try_response (st\<lparr>just_switched := False\<rparr>) b
            (legal_actions_of L st b) (responses i) = None"
  shows "choose_move L st b responses = select_best_damage_move L (st\<lparr>just_switched := False\<rparr>) b"
proof -
  have "retry_loop (st\<lparr>just_switched := False\<rparr>) b (legal_actions_of L st b) responses
          [0..<max_retries] = None"
    using assms(3) by (intro retry_loop_None) simp
  then show ?thesis
    using assms(1,2) by (simp add: choose_move_def Let_def post_switch_state)
qed

lemma retry_loop_skip:
  "(\<forall>j \<in> set pre. try_response st b legal (responses j) = None)
     \<Longrightarrow> retry_loop st b legal responses (pre @ rest) = retry_loop st b legal responses rest"
  by (induction pre) (auto split: option.splits)

lemma upt_split:
  assumes "i < n"
  shows "[0..<n] = [0..<i] @ i # [Suc i..<n]"
proof -
  have "[0..<i + (n - i)] = [0..<i] @ [i..<i + (n - i)]"
    by (rule upt_add_eq_append) simp
  moreover have "i + (n - i) = n" using assms by simp
  moreover have "[i..<n] = i # [Suc i..<n]" using assms by (rule upt_conv_Cons)
  ultimately show ?thesis by simp
qed

lemma retry_loop_first:
  assumes "i < n" and "\<forall>j<i. try_response st b legal (responses j) = None"
    and "try_response st b legal (responses i) = Some res"
  shows "retry_loop st b legal responses [0..<n] = Some res"
proof -
  have "retry_loop st b legal responses ([0..<i] @ i # [Suc i..<n])
          = retry_loop st b legal responses (i # [Suc i..<n])"
    using assms(2) by (intro retry_loop_skip) simp
  also have "\<dots> = Some res" using assms(3) by simp
  finally show ?thesis using upt_split[OF assms(1)] by simp
qed

lemma choose_move_cong:
  assumes "\<forall>i<max_retries. responses i = responses' i"
  shows "choose_move L st b responses = choose_move L st b responses'"
proof -
  have r0: "responses 0 = responses' 0"
    using assms by (simp add: max_retries_def)
  have rl: "retry_loop st' b legal responses [0..<max_retries]
          = retry_loop st' b legal responses' [0..<max_retries]" for st' legal
    using assms by (intro retry_loop_cong) simp
  show ?thesis
    unfolding choose_move_def Let_def r0 rl ..
qed

lemma accepted_is_member:
  assumes "retry_loop st b legal responses [0..<n] = Some res"
  shows "\<exists>i<n. \<exists>t. responses i = Some t \<and> sanitize_model_response t \<in> set legal
            \<and> (\<forall>c \<in> set (sanitize_model_response t). allowed_char c)"
proof -
  obtain i where i: "i \<in> set [0..<n]" "try_response st b legal (responses i) = Some res"
    using retry_loop_Some[OF assms] by blast
  obtain t where t: "responses i = Some t" "sanitize_model_response t \<in> set legal"
    using try_response_member[OF i(2)] by blast
  have "\<forall>c \<in> set (sanitize_model_response t). allowed_char c"
    using sanitize_allowed by blast
  moreover have "i < n" using i(1) by simp
  ultimately show ?thesis using t by blast
qed

lemma all_invalid_fallback:
  assumes "\<not> must_recharge (active_pokemon b)" and "\<not> force_switch b"
    and "\<forall>i<max_retries. case responses i of None \<Rightarrow> True
               | Some t \<Rightarrow> sanitize_model_response t \<notin> set (legal_actions_of L st b)"
  shows "choose_move L st b responses
              = select_best_damage_move L (st\<lparr>just_switched := False\<rparr>) b"
proof (rule choose_move_fallback[OF assms(1,2)], intro allI impI)
  fix i assume "i < max_retries"
  then have "case responses i of None \<Rightarrow> True
               | Some t \<Rightarrow> sanitize_model_response t \<notin> set (legal_actions_of L st b)"
    using assms(3) by blast
  then show "try_response (st\<lparr>just_switched := False\<rparr>) b (legal_actions_of L st b) (responses i) = None"
    by (rule try_response_invalid)
qed

lemma try_response_Some_iff:
  "try_response st b legal r = Some res \<longleftrightarrow>
     (\<exists>t. r = Some t \<and> t \<noteq> [] \<and> sanitize_model_response t \<in> set legal
        \<and> (if is_switch (sanitize_model_response t)
           then \<exists>p. find_switch b (str_replace ''switch-'' [] (sanitize_model_response t)) = Some p
                  \<and> res = (SwitchOrder (species p), st\<lparr>last_move := None, just_switched := True\<rparr>)
           else \<exists>m. find_move b (sanitize_model_response t) = Some m
                  \<and> res = (MoveOrder (move_id m), st\<lparr>last_move := Some (move_id m)\<rparr>)))"
  by (cases r) (auto simp: try_response_def Let_def split: option.splits)

lemma choose_move_commits_accepted:
  assumes "\<not> must_recharge (active_pokemon b)" and "\<not> force_switch b"
    and "retry_loop (st\<lparr>just_switched := False\<rparr>) b (legal_actions_of L st b) responses
           [0..<max_retries] = Some res"
  shows "choose_move L st b responses = Inr res"
proof -
  obtain i where "try_response (st\<lparr>just_switched := False\<rparr>) b (legal_actions_of L st b)
                    (responses i) = Some res"
    using retry_loop_Some[OF assms(3)] by blast
  then have "legal_actions_of L st b \<noteq> []"
    using try_response_member by fastforce
  then show ?thesis
    using assms by (simp add: choose_move_def Let_def post_switch_state)
qed

lemma choose_move_first_accepted:
  assumes "\<not> must_recharge (active_pokemon b)" and "\<not> force_switch b" and "i < max_retries"
    and "\<forall>j<i. try_response (st\<lparr>just_switched := False\<rparr>) b (legal_actions_of L st b)
                  (responses j) = None"
    and "try_response (st\<lparr>just_switched := False\<rparr>) b (legal_actions_of L st b)
           (responses i) = Some res"
  shows "choose_move L st b responses = Inr res"
  by (rule choose_move_commits_accepted[OF assms(1,2) retry_loop_first[OF assms(3,4,5)]])

lemma first_accepted_exists:
  assumes "\<not> (\<forall>i<n::nat. f i = None)"
  shows "\<exists>i<n. \<exists>y. (\<forall>j<i. f j = None) \<and> f i = Some (y::'a)"
proof -
  have "\<exists>i. i < n \<and> f i \<noteq> None" using assms by blast
  then obtain i where i: "i < n \<and> f i \<noteq> None" and least: "\<forall>j<i. \<not> (j < n \<and> f j \<noteq> None)"
    using exists_least_iff[of "\<lambda>i. i < n \<and> f i \<noteq> None"] by blast
  have "\<forall>j<i. f j = None"
  proof (intro allI impI)
    fix j assume "j < i"
    then have "\<not> (j < n \<and> f j \<noteq> None)" and "j < n" using least i by simp_all
    then show "f j = None" by simp
  qed
  moreover obtain y where "f i = Some y" using i by blast
  ultimately show ?thesis using i by blast
qed

lemma choose_move_accepts_or_falls_back:
  assumes "\<not> must_recharge (active_pokemon b)" and "\<not> force_switch b"
  shows "(\<forall>i<max_retries. try_response (st\<lparr>just_switched := False\<rparr>) b
              (legal_actions_of L st b) (responses i) = None)
         \<and> choose_move L st b responses
             = select_best_damage_move L (st\<lparr>just_switched := False\<rparr>) b
       \<or> (\<exists>i<max_retries. \<exists>accepted.
             (\<forall>j<i. try_response (st\<lparr>just_switched := False\<rparr>) b
                 (legal_actions_of L st b) (responses j) = None)
           \<and> try_response (st\<lparr>just_switched := False\<rparr>) b
                 (legal_actions_of L st b) (responses i) = Some accepted
           \<and> choose_move L st b responses = Inr accepted)"
proof (cases "\<forall>i<max_retries. try_response (st\<lparr>just_switched := False\<rparr>) b
              (legal_actions_of L st b) (responses i) = None")
  case True
  then show ?thesis using choose_move_fallback[OF assms True] by blast
next
  case False
  obtain i y where i: "i < max_retries"
      "\<forall>j<i. try_response (st\<lparr>just_switched := False\<rparr>) b
                 (legal_actions_of L st b) (responses j) = None"
      "try_response (st\<lparr>just_switched := False\<rparr>) b
                 (legal_actions_of L st b) (responses i) = Some y"
    using first_accepted_exists[OF False] by blast
  have "choose_move L st b responses = Inr y"
    by (rule choose_move_first_accepted[OF assms i])
  then show ?thesis using i by blast
qed

lemma choose_move_forced:
  "\<not> must_recharge (active_pokemon b) \<Longrightarrow> force_switch b \<Longrightarrow>
     choose_move L st b responses
       = (if just_switched st then Inr (RandomMove, st)
          else handle_switch L st b (responses 0))"
  by (simp add: choose_move_def)

lemma choose_move_recharge:
  "must_recharge (active_pokemon b) \<Longrightarrow> choose_move L st b responses = Inr (PassOrder, st)"
  by (simp add: choose_move_def)

lemma handle_switch_mismatch:
  assumes "filter_suboptimal_switches L b (map species_key (available_switches b)) \<noteq> []"
    and "case r of None \<Rightarrow> True
         | Some t \<Rightarrow> t = [] \<or> sanitize_model_response t
             \<notin> set (filter_suboptimal_switches L b (map species_key (available_switches b)))"
  shows "handle_switch L st b r = choose_random_switch L st b"
  using assms by (auto simp: handle_switch_def Let_def split: option.splits)


lemma handle_switch_accepts:
  assumes "filter_suboptimal_switches L b (map species_key (available_switches b)) \<noteq> []"
    and "q = Some answer" and "answer \<noteq> []"
    and "sanitize_model_response answer
           \<in> set (filter_suboptimal_switches L b (map species_key (available_switches b)))"
    and "find_switch b (sanitize_model_response answer) = Some target"
  shows "handle_switch L st b q
           = Inr (SwitchOrder (species target), st\<lparr>last_move := None, just_switched := True\<rparr>)"
  using assms by (simp add: handle_switch_def Let_def)

text \<open>
  Claim C8, as amended. An answer is accepted exactly when it is present, not empty, its
  sanitised form (lowercase letters and hyphens only) is a member of the candidate list
  and names an available switch or move; the committed order is then that switch or move.
  On a turn that is neither a recharge nor a forced switch \<^verbatim>\<open>choose_move\<close> commits the
  first accepted answer among three attempts, reads no answer beyond the third, and
  commits the result of \<^verbatim>\<open>select_best_damage_move\<close> when all three fail; nothing else is
  ever committed on such a turn. On a forced switch it asks once through
  \<^verbatim>\<open>handle_switch\<close>, which commits an answer whose sanitised form is the name of a
  viable replacement, and where a mismatch or an absent answer is followed by
  \<^verbatim>\<open>choose_random_switch\<close> and not by another attempt; on a recharge turn it passes.
\<close>

theorem choose_move_validates_retries_then_falls_back:
  "max_retries = 3
   \<and> (try_response st' b legal r = Some res \<longleftrightarrow>
        (\<exists>t. r = Some t \<and> t \<noteq> [] \<and> sanitize_model_response t \<in> set legal
           \<and> (if is_switch (sanitize_model_response t)
              then \<exists>p. find_switch b (str_replace ''switch-'' [] (sanitize_model_response t)) = Some p
                     \<and> res = (SwitchOrder (species p),
                              st'\<lparr>last_move := None, just_switched := True\<rparr>)
              else \<exists>m. find_move b (sanitize_model_response t) = Some m
                     \<and> res = (MoveOrder (move_id m), st'\<lparr>last_move := Some (move_id m)\<rparr>))))
   \<and> (\<forall>c \<in> set (sanitize_model_response u). allowed_char c)
   \<and> (\<not> must_recharge (active_pokemon b) \<and> \<not> force_switch b \<and> i < max_retries
        \<and> (\<forall>j<i. try_response (st\<lparr>just_switched := False\<rparr>) b (legal_actions_of L st b)
                     (responses j) = None)
        \<and> try_response (st\<lparr>just_switched := False\<rparr>) b (legal_actions_of L st b)
              (responses i) = Some accepted
        \<longrightarrow> choose_move L st b responses = Inr accepted)
   \<and> (\<not> must_recharge (active_pokemon b) \<and> \<not> force_switch b
        \<and> (\<forall>i<max_retries. try_response (st\<lparr>just_switched := False\<rparr>) b
                (legal_actions_of L st b) (responses i) = None)
        \<longrightarrow> choose_move L st b responses
              = select_best_damage_move L (st\<lparr>just_switched := False\<rparr>) b)
   \<and> (\<not> must_recharge (active_pokemon b) \<and> \<not> force_switch b
        \<longrightarrow> (\<forall>i<max_retries. try_response (st\<lparr>just_switched := False\<rparr>) b
                  (legal_actions_of L st b) (responses i) = None)
             \<and> choose_move L st b responses
                 = select_best_damage_move L (st\<lparr>just_switched := False\<rparr>) b
           \<or> (\<exists>i<max_retries. \<exists>first.
                 (\<forall>j<i. try_response (st\<lparr>just_switched := False\<rparr>) b
                     (legal_actions_of L st b) (responses j) = None)
               \<and> try_response (st\<lparr>just_switched := False\<rparr>) b
                     (legal_actions_of L st b) (responses i) = Some first
               \<and> choose_move L st b responses = Inr first))
   \<and> ((\<forall>i<max_retries. responses i = responses' i)
        \<longrightarrow> choose_move L st b responses = choose_move L st b responses')
   \<and> (\<not> must_recharge (active_pokemon b) \<and> force_switch b
        \<longrightarrow> choose_move L st b responses
              = (if just_switched st then Inr (RandomMove, st)
                 else handle_switch L st b (responses 0)))
   \<and> (filter_suboptimal_switches L b (map species_key (available_switches b)) \<noteq> []
        \<and> (case q of None \<Rightarrow> True
            | Some t \<Rightarrow> t = [] \<or> sanitize_model_response t
                \<notin> set (filter_suboptimal_switches L b (map species_key (available_switches b))))
        \<longrightarrow> handle_switch L st b q = choose_random_switch L st b)
   \<and> (filter_suboptimal_switches L b (map species_key (available_switches b)) \<noteq> []
        \<and> q = Some answer \<and> answer \<noteq> []
        \<and> sanitize_model_response answer
             \<in> set (filter_suboptimal_switches L b (map species_key (available_switches b)))
        \<and> find_switch b (sanitize_model_response answer) = Some target
        \<longrightarrow> handle_switch L st b q
              = Inr (SwitchOrder (species target),
                     st\<lparr>last_move := None, just_switched := True\<rparr>))
   \<and> (must_recharge (active_pokemon b)
        \<longrightarrow> choose_move L st b responses = Inr (PassOrder, st))"
proof -
  have bound: "max_retries = 3"
    by (simp add: max_retries_def)
  have accept: "try_response st' b legal r = Some res \<longleftrightarrow>
        (\<exists>t. r = Some t \<and> t \<noteq> [] \<and> sanitize_model_response t \<in> set legal
           \<and> (if is_switch (sanitize_model_response t)
              then \<exists>p. find_switch b (str_replace ''switch-'' [] (sanitize_model_response t)) = Some p
                     \<and> res = (SwitchOrder (species p),
                              st'\<lparr>last_move := None, just_switched := True\<rparr>)
              else \<exists>m. find_move b (sanitize_model_response t) = Some m
                     \<and> res = (MoveOrder (move_id m), st'\<lparr>last_move := Some (move_id m)\<rparr>)))"
    by (rule try_response_Some_iff)
  have alphabet: "\<forall>c \<in> set (sanitize_model_response u). allowed_char c"
    using sanitize_allowed by blast
  have first: "\<not> must_recharge (active_pokemon b) \<and> \<not> force_switch b \<and> i < max_retries
        \<and> (\<forall>j<i. try_response (st\<lparr>just_switched := False\<rparr>) b (legal_actions_of L st b)
                     (responses j) = None)
        \<and> try_response (st\<lparr>just_switched := False\<rparr>) b (legal_actions_of L st b)
              (responses i) = Some accepted
        \<longrightarrow> choose_move L st b responses = Inr accepted"
    using choose_move_first_accepted[of b i st L responses accepted] by blast
  have fallback: "\<not> must_recharge (active_pokemon b) \<and> \<not> force_switch b
        \<and> (\<forall>i<max_retries. try_response (st\<lparr>just_switched := False\<rparr>) b
                (legal_actions_of L st b) (responses i) = None)
        \<longrightarrow> choose_move L st b responses
              = select_best_damage_move L (st\<lparr>just_switched := False\<rparr>) b"
    using choose_move_fallback[of b st L responses] by blast
  have either: "\<not> must_recharge (active_pokemon b) \<and> \<not> force_switch b
        \<longrightarrow> (\<forall>i<max_retries. try_response (st\<lparr>just_switched := False\<rparr>) b
                  (legal_actions_of L st b) (responses i) = None)
             \<and> choose_move L st b responses
                 = select_best_damage_move L (st\<lparr>just_switched := False\<rparr>) b
           \<or> (\<exists>i<max_retries. \<exists>first.
                 (\<forall>j<i. try_response (st\<lparr>just_switched := False\<rparr>) b
                     (legal_actions_of L st b) (responses j) = None)
               \<and> try_response (st\<lparr>just_switched := False\<rparr>) b
                     (legal_actions_of L st b) (responses i) = Some first
               \<and> choose_move L st b responses = Inr first)"
    using choose_move_accepts_or_falls_back[of b st L responses] by (intro impI) (elim conjE)
  have unread: "(\<forall>i<max_retries. responses i = responses' i)
        \<longrightarrow> choose_move L st b responses = choose_move L st b responses'"
    using choose_move_cong[of responses responses' L st b] by (intro impI)
  have forced: "\<not> must_recharge (active_pokemon b) \<and> force_switch b
        \<longrightarrow> choose_move L st b responses
              = (if just_switched st then Inr (RandomMove, st)
                 else handle_switch L st b (responses 0))"
    using choose_move_forced[of b L st responses] by (intro impI) (elim conjE)
  have once: "filter_suboptimal_switches L b (map species_key (available_switches b)) \<noteq> []
        \<and> (case q of None \<Rightarrow> True
            | Some t \<Rightarrow> t = [] \<or> sanitize_model_response t
                \<notin> set (filter_suboptimal_switches L b (map species_key (available_switches b))))
        \<longrightarrow> handle_switch L st b q = choose_random_switch L st b"
    using handle_switch_mismatch[of L b q st] by (intro impI) (elim conjE)
  have named: "filter_suboptimal_switches L b (map species_key (available_switches b)) \<noteq> []
        \<and> q = Some answer \<and> answer \<noteq> []
        \<and> sanitize_model_response answer
             \<in> set (filter_suboptimal_switches L b (map species_key (available_switches b)))
        \<and> find_switch b (sanitize_model_response answer) = Some target
        \<longrightarrow> handle_switch L st b q
              = Inr (SwitchOrder (species target),
                     st\<lparr>last_move := None, just_switched := True\<rparr>)"
    using handle_switch_accepts[of L b q answer target st] by (intro impI) (elim conjE)
  have recharge: "must_recharge (active_pokemon b)
        \<longrightarrow> choose_move L st b responses = Inr (PassOrder, st)"
    using choose_move_recharge[of b L st responses] by (intro impI)
  show ?thesis
    by (intro conjI) (fact bound accept alphabet first fallback either unread forced once named
                        recharge)+
qed

theorem choose_move_validates_retries_then_falls_back_witness:
  "choose_move neutral_library fresh_player status_only_battle third_answer_valid
     = Inr (SwitchOrder ''Squirtle'', \<lparr>last_move = None, just_switched = True\<rparr>)
   \<and> choose_move neutral_library fresh_player status_only_battle fourth_answer_valid
     = Inr (MoveOrder ''growl'', \<lparr>last_move = Some ''growl'', just_switched = False\<rparr>)
   \<and> choose_move neutral_library fresh_player status_only_battle fourth_answer_valid
     = choose_move neutral_library fresh_player status_only_battle always_tackle
   \<and> choose_move neutral_library fresh_player forced_battle always_tackle
     = Inr (RandomSwitch, \<lparr>last_move = None, just_switched = False\<rparr>)
   \<and> choose_move neutral_library fresh_player forced_battle always_squirtle
     = Inr (SwitchOrder ''Squirtle'', \<lparr>last_move = None, just_switched = True\<rparr>)
   \<and> choose_move neutral_library fresh_player recharge_battle always_tackle
     = Inr (PassOrder, fresh_player)"
proof -
  note C = choose_move_validates_retries_then_falls_back
  let ?won = "(SwitchOrder ''Squirtle'', \<lparr>last_move = None, just_switched = True\<rparr>)"
  have legal: "legal_actions_of neutral_library fresh_player status_only_battle
                 = [''growl'', ''switch-squirtle'']"
    by code_simp
  have normal: "\<not> must_recharge (active_pokemon status_only_battle)
                \<and> \<not> force_switch status_only_battle"
    by code_simp
  have t0: "try_response (fresh_player\<lparr>just_switched := False\<rparr>) status_only_battle
              [''growl'', ''switch-squirtle''] (third_answer_valid 0) = None"
    by code_simp
  have t1: "try_response (fresh_player\<lparr>just_switched := False\<rparr>) status_only_battle
              [''growl'', ''switch-squirtle''] (third_answer_valid 1) = None"
    by code_simp
  have t2: "try_response (fresh_player\<lparr>just_switched := False\<rparr>) status_only_battle
              [''growl'', ''switch-squirtle''] (third_answer_valid 2) = Some ?won"
    by code_simp
  have before: "\<forall>j<2. try_response (fresh_player\<lparr>just_switched := False\<rparr>) status_only_battle
              [''growl'', ''switch-squirtle''] (third_answer_valid j) = None"
    using t0 t1 by (simp add: less_Suc_eq numeral_2_eq_2)
  have two: "(2::nat) < max_retries"
    by (simp add: max_retries_def)
  have w1: "choose_move neutral_library fresh_player status_only_battle third_answer_valid
              = Inr ?won"
    using C[where b = status_only_battle and L = neutral_library and st = fresh_player
          and responses = third_answer_valid and i = 2 and accepted = ?won]
      normal legal t2 before two
    by simp
  have f0: "try_response (fresh_player\<lparr>just_switched := False\<rparr>) status_only_battle
              [''growl'', ''switch-squirtle''] (Some ''tackle'') = None"
    by code_simp
  have fails: "\<forall>i<max_retries. try_response (fresh_player\<lparr>just_switched := False\<rparr>)
              status_only_battle [''growl'', ''switch-squirtle''] (fourth_answer_valid i) = None"
    using f0 by (simp add: fourth_answer_valid_def max_retries_def)
  have fb: "select_best_damage_move neutral_library (fresh_player\<lparr>just_switched := False\<rparr>)
              status_only_battle
            = Inr (MoveOrder ''growl'', \<lparr>last_move = Some ''growl'', just_switched = False\<rparr>)"
    by code_simp
  have w2: "choose_move neutral_library fresh_player status_only_battle fourth_answer_valid
     = Inr (MoveOrder ''growl'', \<lparr>last_move = Some ''growl'', just_switched = False\<rparr>)"
    using C[where b = status_only_battle and L = neutral_library and st = fresh_player
          and responses = fourth_answer_valid]
      normal legal fails fb
    by simp
  have same: "\<forall>i<max_retries. fourth_answer_valid i = always_tackle i"
    by (simp add: fourth_answer_valid_def always_tackle_def max_retries_def)
  have w3: "choose_move neutral_library fresh_player status_only_battle fourth_answer_valid
     = choose_move neutral_library fresh_player status_only_battle always_tackle"
    using C[where b = status_only_battle and L = neutral_library and st = fresh_player
          and responses = fourth_answer_valid and responses' = always_tackle] same
    by blast
  have forced: "\<not> must_recharge (active_pokemon forced_battle) \<and> force_switch forced_battle
                \<and> \<not> just_switched fresh_player"
    by code_simp
  have names: "filter_suboptimal_switches neutral_library forced_battle
                 (map species_key (available_switches forced_battle)) = [''squirtle'']"
    by code_simp
  have san: "sanitize_model_response ''tackle'' = ''tackle''"
    by code_simp
  have rs: "choose_random_switch neutral_library fresh_player forced_battle
              = Inr (RandomSwitch, \<lparr>last_move = None, just_switched = False\<rparr>)"
    by code_simp
  have w4: "choose_move neutral_library fresh_player forced_battle always_tackle
     = Inr (RandomSwitch, \<lparr>last_move = None, just_switched = False\<rparr>)"
    using C[where b = forced_battle and L = neutral_library and st = fresh_player
          and responses = always_tackle and q = "Some ''tackle''"]
      forced names san rs
    by (simp add: always_tackle_def)
  have san': "sanitize_model_response ''Squirtle!'' = ''squirtle''"
    by code_simp
  have found: "find_switch forced_battle ''squirtle'' = Some squirtle"
    by code_simp
  have named: "species squirtle = ''Squirtle''"
    by code_simp
  have w6: "choose_move neutral_library fresh_player forced_battle always_squirtle
     = Inr (SwitchOrder ''Squirtle'', \<lparr>last_move = None, just_switched = True\<rparr>)"
    using C[where b = forced_battle and L = neutral_library and st = fresh_player
          and responses = always_squirtle and q = "Some ''Squirtle!''"
          and answer = "''Squirtle!''" and target = squirtle]
      forced names san' found named
    by (simp add: always_squirtle_def fresh_player_def)
  have rech: "must_recharge (active_pokemon recharge_battle)"
    by code_simp
  have w5: "choose_move neutral_library fresh_player recharge_battle always_tackle
     = Inr (PassOrder, fresh_player)"
    using C[where b = recharge_battle and L = neutral_library and st = fresh_player
          and responses = always_tackle] rech
    by blast
  show ?thesis using w1 w2 w3 w4 w6 w5 by (intro conjI)
qed

text \<open>
  On a forced switch the first answer names no viable replacement and the second one does:
  \<^verbatim>\<open>choose_move\<close> neither reads the second answer nor commits the move of the fallback,
  it commits a random switch.
\<close>

theorem forced_switch_is_asked_once:
  "\<not> must_recharge (active_pokemon forced_battle)
   \<and> second_answer_valid 0 = Some ''pikachu''
   \<and> second_answer_valid 1 = Some ''squirtle''
   \<and> handle_switch neutral_library fresh_player forced_battle (second_answer_valid 1)
       = Inr (SwitchOrder ''Squirtle'', \<lparr>last_move = None, just_switched = True\<rparr>)
   \<and> select_best_damage_move neutral_library fresh_player forced_battle
       = Inr (MoveOrder ''growl'', \<lparr>last_move = Some ''growl'', just_switched = False\<rparr>)
   \<and> choose_move neutral_library fresh_player forced_battle second_answer_valid
       = Inr (RandomSwitch, \<lparr>last_move = None, just_switched = False\<rparr>)"
  by code_simp

text \<open>
  Claim C10. A candidate whose name holds a character other than a lowercase letter or a
  hyphen is never the sanitised answer: no answer is accepted as that candidate, and when
  the answers of the decision-maker match no other candidate the turn is decided by
  \<^verbatim>\<open>select_best_damage_move\<close>.
\<close>

theorem candidate_outside_alphabet_never_accepted:
  assumes "\<exists>c \<in> set candidate. \<not> allowed_char c"
  shows "sanitize_model_response t \<noteq> candidate
       \<and> (try_response st b legal r = Some res \<longrightarrow>
            (\<exists>u. r = Some u \<and> sanitize_model_response u \<in> set legal
                 \<and> sanitize_model_response u \<noteq> candidate))
       \<and> (\<not> must_recharge (active_pokemon b) \<and> \<not> force_switch b
            \<and> (\<forall>i<max_retries. \<forall>u. responses i = Some u
                   \<longrightarrow> sanitize_model_response u \<in> set (legal_actions_of L st b)
                   \<longrightarrow> sanitize_model_response u = candidate)
          \<longrightarrow> choose_move L st b responses
                = select_best_damage_move L (st\<lparr>just_switched := False\<rparr>) b)"
proof -
  have neq: "sanitize_model_response u \<noteq> candidate" for u
    using assms sanitize_allowed by blast
  have "try_response st' b legal' (responses i) = None"
    if "\<forall>u. responses i = Some u \<longrightarrow> sanitize_model_response u \<in> set legal'
              \<longrightarrow> sanitize_model_response u = candidate" for st' legal' i
    using that neq by (intro try_response_invalid) (auto split: option.splits)
  then show ?thesis
    using neq try_response_member[of st b legal r res] choose_move_fallback[of b st L responses]
    by blast
qed

theorem candidate_outside_alphabet_never_accepted_witness:
  "(\<exists>c \<in> set ''switch-porygon2''. \<not> allowed_char c)
   \<and> ''switch-porygon2'' \<in> set (legal_actions_of neutral_library fresh_player porygon_battle)
   \<and> sanitize_model_response ''Switch-Porygon2'' = ''switch-porygon''
   \<and> choose_move neutral_library fresh_player porygon_battle (\<lambda>i. Some ''Switch-Porygon2'')
       = select_best_damage_move neutral_library (fresh_player\<lparr>just_switched := False\<rparr>) porygon_battle
   \<and> select_best_damage_move neutral_library (fresh_player\<lparr>just_switched := False\<rparr>) porygon_battle
       = Inr (MoveOrder ''tackle'', \<lparr>last_move = Some ''tackle'', just_switched = False\<rparr>)"
proof -
  have bad: "\<exists>c \<in> set ''switch-porygon2''. \<not> allowed_char c"
    by (simp add: allowed_char_def)
  have legal: "legal_actions_of neutral_library fresh_player porygon_battle
                 = [''tackle'', ''switch-porygon2'']"
    by code_simp
  have san: "sanitize_model_response ''Switch-Porygon2'' = ''switch-porygon''"
    by code_simp
  have pre: "\<not> must_recharge (active_pokemon porygon_battle) \<and> \<not> force_switch porygon_battle"
    by code_simp
  have fb: "select_best_damage_move neutral_library (fresh_player\<lparr>just_switched := False\<rparr>) porygon_battle
       = Inr (MoveOrder ''tackle'', \<lparr>last_move = Some ''tackle'', just_switched = False\<rparr>)"
    by code_simp
  show ?thesis
    using candidate_outside_alphabet_never_accepted[OF bad,
        where t = "''Switch-Porygon2''" and st = fresh_player and b = porygon_battle
          and responses = "\<lambda>i. Some ''Switch-Porygon2''" and L = neutral_library]
      bad legal san pre fb
    by simp
qed

section \<open>Properties of the Viable Switch Filter\<close>

lemma filter_not_all:
  assumes "length (filter P xs) \<noteq> length xs"
  shows "\<exists>x \<in> set xs. \<not> P x"
proof (rule ccontr)
  assume "\<not> (\<exists>x \<in> set xs. \<not> P x)"
  then have "filter P xs = xs" by (simp add: filter_id_conv)
  with assms show False by simp
qed

lemma filter_suboptimal_switches_nonempty:
  assumes "available \<noteq> []"
  shows "filter_suboptimal_switches L b available \<noteq> []"
proof (cases "length (filter (flagged_switch L b) available) = length available")
  case True
  then show ?thesis using assms by (simp add: filter_suboptimal_switches_def)
next
  case False
  then obtain x where x: "x \<in> set available" "\<not> flagged_switch L b x"
    using filter_not_all by blast
  then have "x \<in> set (filter (\<lambda>s. s \<notin> set (filter (flagged_switch L b) available)) available)"
    by simp
  then have "filter (\<lambda>s. s \<notin> set (filter (flagged_switch L b) available)) available \<noteq> []"
    by (metis empty_iff empty_set)
  moreover have "filter_suboptimal_switches L b available
      = filter (\<lambda>s. s \<notin> set (filter (flagged_switch L b) available)) available"
    using False assms by (simp add: filter_suboptimal_switches_def Let_def)
  ultimately show ?thesis by simp
qed

lemma filter_suboptimal_switches_all_flagged:
  assumes "\<forall>s \<in> set available. flagged_switch L b s"
  shows "filter_suboptimal_switches L b available = available"
proof -
  have "filter (flagged_switch L b) available = available"
    using assms by (simp add: filter_id_conv)
  then show ?thesis by (simp add: filter_suboptimal_switches_def)
qed

lemma filter_suboptimal_switches_subset:
  "set (filter_suboptimal_switches L b available) \<subseteq> set available"
  by (auto simp: filter_suboptimal_switches_def Let_def)

text \<open>
  Claim C5. The Viable Switch Filter returns a non-empty list for a non-empty input; when
  the weakness criteria flag every candidate, it returns the input list itself; it never
  adds a candidate.
\<close>

theorem viable_switch_filter_never_empty:
  "(available \<noteq> [] \<longrightarrow> filter_suboptimal_switches L b available \<noteq> [])
   \<and> ((\<forall>s \<in> set available. flagged_switch L b s)
        \<longrightarrow> filter_suboptimal_switches L b available = available)
   \<and> set (filter_suboptimal_switches L b available) \<subseteq> set available"
  using filter_suboptimal_switches_nonempty filter_suboptimal_switches_all_flagged
    filter_suboptimal_switches_subset
  by blast

theorem viable_switch_filter_never_empty_witness:
  "[''switch-bulbasaur'', ''switch-squirtle''] \<noteq> []
   \<and> filter_suboptimal_switches sample_library bench_battle
        [''switch-bulbasaur'', ''switch-squirtle''] = [''switch-squirtle'']
   \<and> flagged_switch sample_library bench_battle ''switch-bulbasaur''
   \<and> filter_suboptimal_switches sample_library bench_battle [''switch-bulbasaur'']
        = [''switch-bulbasaur'']"
proof -
  have flagged: "\<forall>s \<in> set [''switch-bulbasaur'']. flagged_switch sample_library bench_battle s"
    by code_simp
  have two: "filter_suboptimal_switches sample_library bench_battle
        [''switch-bulbasaur'', ''switch-squirtle''] = [''switch-squirtle'']"
    by code_simp
  have "filter_suboptimal_switches sample_library bench_battle [''switch-bulbasaur'']
        = [''switch-bulbasaur'']"
    using viable_switch_filter_never_empty[where available = "[''switch-bulbasaur'']"
        and L = sample_library and b = bench_battle] flagged
    by blast
  moreover have "filter_suboptimal_switches sample_library bench_battle
        [''switch-bulbasaur'', ''switch-squirtle''] \<noteq> []"
    using viable_switch_filter_never_empty[where available = "[''switch-bulbasaur'', ''switch-squirtle'']"
        and L = sample_library and b = bench_battle]
    by blast
  ultimately show ?thesis using flagged two by simp
qed

section \<open>Properties of the Damage Estimation Model\<close>

lemma dict_set_keys: "fst ` set (dict_set d k v) = insert k (fst ` set d)"
proof (induction d)
  case Nil
  then show ?case by simp
next
  case (Cons e d)
  obtain k' v' where e: "e = (k', v')" by (cases e)
  show ?case
  proof (cases "k' = k")
    case True
    with e show ?thesis by simp
  next
    case False
    with e Cons.IH show ?thesis by (simp add: insert_commute)
  qed
qed

lemma dict_set_distinct: "distinct (map fst d) \<Longrightarrow> distinct (map fst (dict_set d k v))"
proof (induction d)
  case Nil
  then show ?case by simp
next
  case (Cons e d)
  obtain k' v' where e: "e = (k', v')" by (cases e)
  show ?case
  proof (cases "k' = k")
    case True
    with Cons.prems e show ?thesis by simp
  next
    case False
    have "k' \<notin> fst ` set (dict_set d k v)"
      using Cons.prems e False by (simp add: dict_set_keys)
    with Cons e False show ?thesis by simp
  qed
qed

lemma dict_set_entries:
  "(k', v') \<in> set (dict_set d k v) \<Longrightarrow> (k' = k \<and> v' = v) \<or> (k', v') \<in> set d"
  by (induction d) (auto split: if_splits)

lemma damage_loop_keys:
  "fst ` set (damage_loop L lm b ms d) = fst ` set d \<union> move_id ` set ms"
  by (induction ms arbitrary: d) (auto simp: dict_set_keys)

lemma damage_loop_distinct:
  "distinct (map fst d) \<Longrightarrow> distinct (map fst (damage_loop L lm b ms d))"
  by (induction ms arbitrary: d) (auto simp: dict_set_distinct)

lemma damage_loop_entries:
  "(k, i) \<in> set (damage_loop L lm b ms d) \<Longrightarrow>
     (k, i) \<in> set d \<or> (\<exists>m \<in> set ms. move_id m = k \<and> i = move_entry L lm b m)"
proof (induction ms arbitrary: d)
  case Nil
  then show ?case by simp
next
  case (Cons m ms)
  from Cons.prems have "(k, i) \<in> set (damage_loop L lm b ms (dict_set d (move_id m) (move_entry L lm b m)))"
    by simp
  then have "(k, i) \<in> set (dict_set d (move_id m) (move_entry L lm b m))
      \<or> (\<exists>m' \<in> set ms. move_id m' = k \<and> i = move_entry L lm b m')"
    by (rule Cons.IH)
  then show ?case
    using dict_set_entries[of k i d "move_id m" "move_entry L lm b m"] by auto
qed

lemma calculate_keys:
  "fst ` set (calculate_move_damages L lm b) = move_id ` set (available_moves b)"
  by (simp add: calculate_move_damages_def damage_loop_keys)

lemma calculate_distinct: "distinct (map fst (calculate_move_damages L lm b))"
  by (simp add: calculate_move_damages_def damage_loop_distinct)

lemma calculate_entries:
  "(k, i) \<in> set (calculate_move_damages L lm b) \<Longrightarrow>
     \<exists>m \<in> set (available_moves b). move_id m = k \<and> i = move_entry L lm b m"
  using damage_loop_entries[of k i L lm b "available_moves b" "[]"]
  by (auto simp: calculate_move_damages_def split: if_splits)

lemma scale_if_nonneg: "0 \<le> v \<Longrightarrow> 0 \<le> scale_if c v"
  by (simp add: scale_if_def)

lemma scale_if_pos: "0 < v \<Longrightarrow> 0 < scale_if c v"
  by (simp add: scale_if_def)

lemma zero_or_nonneg: "0 \<le> x \<Longrightarrow> 0 \<le> (if c then 0 else (x::rat))"
  by simp

lemma get_defensive_modifier_nonneg: "0 \<le> get_defensive_modifier mt e m opp a"
  unfolding get_defensive_modifier_def
  by (intro zero_or_nonneg mult_nonneg_nonneg scale_if_nonneg) simp_all

lemma Min_insert_pair:
  assumes "finite S"
  shows "Min (insert w (insert x S)) = Min (insert (min x w) S)"
proof (cases "S = {}")
  case True
  then show ?thesis by (simp add: min.commute)
next
  case False
  then show ?thesis
    using assms by (simp add: Min_insert min.assoc min.commute min.left_commute)
qed

lemma worst_case_loop_Min:
  "worst_case_loop f as w = Min (insert w (f ` set as))"
proof (induction as arbitrary: w)
  case Nil
  then show ?case by simp
next
  case (Cons a as)
  have step: "(if f a < w then f a else w) = min (f a) w"
    by (auto simp: min_def)
  have "worst_case_loop f (a # as) w = worst_case_loop f as (min (f a) w)"
    by (simp only: worst_case_loop.simps step)
  also have "\<dots> = Min (insert (min (f a) w) (f ` set as))"
    by (rule Cons.IH)
  also have "\<dots> = Min (insert w (insert (f a) (f ` set as)))"
    by (rule Min_insert_pair[symmetric]) simp
  finally show ?case by simp
qed

lemma worst_case_loop_nonneg:
  assumes "\<And>a. 0 \<le> f a" and "0 \<le> w"
  shows "0 \<le> worst_case_loop f as w"
  using assms(2) by (induction as arbitrary: w) (simp_all add: assms(1))

lemma worst_case_loop_zero_one:
  assumes "\<forall>a \<in> set as. f a \<in> {0, 1}" and "w \<in> {0, 1}"
  shows "worst_case_loop f as w \<in> {0, 1}"
  using assms by (induction as arbitrary: w) auto

lemma defended_effectiveness_nonneg:
  assumes "0 \<le> damage_multiplier_move L (opponent_active_pokemon b) m"
  shows "0 \<le> defended_effectiveness L b m"
proof -
  let ?f = "get_defensive_modifier (snd (resolve_power_and_type b m))
              (damage_multiplier_move L (opponent_active_pokemon b) m) m (opponent_active_pokemon b)"
  have 1: "0 \<le> ?f a" for a by (rule get_defensive_modifier_nonneg)
  have 2: "0 \<le> worst_case_loop ?f (possible_abilities (opponent_active_pokemon b)) 1"
    by (rule worst_case_loop_nonneg) (simp_all add: get_defensive_modifier_nonneg)
  show ?thesis
    unfolding defended_effectiveness_def Let_def
    using assms 1 2 by (auto split: option.splits intro!: mult_nonneg_nonneg)
qed

lemma move_effectiveness_nonneg:
  assumes "0 \<le> damage_multiplier_move L (opponent_active_pokemon b) m"
  shows "0 \<le> move_effectiveness L b m"
  using defended_effectiveness_nonneg[OF assms]
  by (simp add: move_effectiveness_def Let_def)

lemma attacker_ability_boost_pos: "0 < attacker_ability_boost lm b m mt"
  by (simp add: attacker_ability_boost_def Let_def)

lemma weather_terrain_boost_pos: "0 < weather_terrain_boost b mt"
  unfolding weather_terrain_boost_def Let_def
  by (intro mult_pos_pos scale_if_pos) simp_all

lemma final_modifier_pos: "0 < final_modifier b m"
  unfolding final_modifier_def Let_def
  by (intro mult_pos_pos scale_if_pos) simp_all

lemma get_crit_chance_nonneg: "0 \<le> get_crit_chance b m p"
  by (simp add: get_crit_chance_def Let_def)

lemma get_crit_damage_multiplier_ge_1: "1 \<le> get_crit_damage_multiplier b p"
  by (simp add: get_crit_damage_multiplier_def)

lemma freezedry_loop_nonneg:
  assumes "\<And>t. 0 \<le> type_damage_multiplier L t ICE"
  shows "0 \<le> e \<Longrightarrow> 0 \<le> freezedry_loop L ts e"
proof (induction ts arbitrary: e)
  case Nil
  then show ?case by simp
next
  case (Cons x ts)
  show ?case
  proof (cases x)
    case None
    then show ?thesis using Cons by simp
  next
    case (Some t)
    have "0 \<le> (if t = WATER then e * 2 else e * type_damage_multiplier L t ICE)"
      using Cons.prems assms[of t] by (auto intro: mult_nonneg_nonneg)
    then have "0 \<le> freezedry_loop L ts
        (if t = WATER then e * 2 else e * type_damage_multiplier L t ICE)"
      by (rule Cons.IH)
    then show ?thesis using Some by (simp only: freezedry_loop.simps)
  qed
qed

lemma stab_power_nonneg:
  "0 \<le> p \<Longrightarrow> 0 \<le> (if c1 then p * 2 else if c2 then p * (3 / 2) else (p::rat))"
  by simp

lemma move_entry_nonneg:
  assumes "0 \<le> base_power m" and "0 \<le> accuracy m"
    and "0 \<le> damage_multiplier_move L (opponent_active_pokemon b) m"
    and "\<And>t. 0 \<le> type_damage_multiplier L t ICE"
  shows "0 \<le> expected_damage (move_entry L lm b m)"
proof (cases "category m = STATUS \<or> move_effectiveness L b m = 0")
  case True
  then show ?thesis by (auto simp: move_entry_def Let_def)
next
  case False
  let ?mt = "snd (resolve_power_and_type b m)"
  let ?stab = "Some ?mt \<in> set (types (active_pokemon b))"
  let ?p = "(if ability (active_pokemon b) = Some ''adaptability'' \<and> ?stab then base_power m * 2
            else if ?stab then base_power m * (3 / 2) else base_power m)"
  let ?e = "(if move_id m = ''freezedry''
             then freezedry_loop L (types (opponent_active_pokemon b)) 1
             else move_effectiveness L b m)"
  have p: "0 \<le> ?p" using assms(1) by (rule stab_power_nonneg)
  have e: "0 \<le> ?e"
    using move_effectiveness_nonneg[OF assms(3)] freezedry_loop_nonneg[of L 1, OF assms(4)]
    by simp
  have cm: "0 \<le> 1 + get_crit_chance b m (active_pokemon b)
                     * (get_crit_damage_multiplier b (active_pokemon b) - 1)"
    using get_crit_chance_nonneg[of b m "active_pokemon b"]
      get_crit_damage_multiplier_ge_1[of b "active_pokemon b"]
    by (simp add: add_nonneg_nonneg)
  have acc: "0 \<le> accuracy m / 100" using assms(2) by simp
  have ab: "0 \<le> attacker_ability_boost lm b m ?mt"
    using attacker_ability_boost_pos[of lm b m ?mt] by (rule less_imp_le)
  have wt: "0 \<le> weather_terrain_boost b ?mt"
    using weather_terrain_boost_pos[of b ?mt] by (rule less_imp_le)
  have fm: "0 \<le> final_modifier b m"
    using final_modifier_pos[of b m] by (rule less_imp_le)
  have "0 \<le> accuracy m / 100
          * (?p * attacker_ability_boost lm b m ?mt * weather_terrain_boost b ?mt * ?e
             * final_modifier b m)
          * (1 + get_crit_chance b m (active_pokemon b)
                 * (get_crit_damage_multiplier b (active_pokemon b) - 1))"
    by (intro mult_nonneg_nonneg p e cm acc ab wt fm)
  then show ?thesis
    using False by (simp add: move_entry_def Let_def)
qed

lemma move_entry_multiplier:
  "move_id m \<noteq> ''freezedry'' \<Longrightarrow> multiplier (move_entry L lm b m) = move_effectiveness L b m"
  by (simp add: move_entry_def Let_def)

lemma defended_effectiveness_consulted:
  "defended_effectiveness L b m =
     damage_multiplier_move L (opponent_active_pokemon b) m
     * (case ability (opponent_active_pokemon b) of
          None \<Rightarrow> worst_case_loop
                    (get_defensive_modifier (snd (resolve_power_and_type b m))
                       (damage_multiplier_move L (opponent_active_pokemon b) m) m
                       (opponent_active_pokemon b))
                    (possible_abilities (opponent_active_pokemon b)) 1
        | Some a \<Rightarrow>
            if a \<noteq> [] then
              get_defensive_modifier (snd (resolve_power_and_type b m))
                (damage_multiplier_move L (opponent_active_pokemon b) m) m
                (opponent_active_pokemon b) a
            else worst_case_loop
                   (get_defensive_modifier (snd (resolve_power_and_type b m))
                      (damage_multiplier_move L (opponent_active_pokemon b) m) m
                      (opponent_active_pokemon b))
                   (possible_abilities (opponent_active_pokemon b)) 1)"
  by (simp add: defended_effectiveness_def Let_def split: option.splits)

lemma scaled_standard:
  "raw \<in> standard_multipliers \<Longrightarrow> k \<in> {0, 1} \<Longrightarrow> raw * k \<in> standard_multipliers"
  by (auto simp: standard_multipliers_def)

lemma defended_effectiveness_standard:
  assumes "damage_multiplier_move L (opponent_active_pokemon b) m \<in> standard_multipliers"
    and "\<forall>a \<in> set (consulted_abilities (opponent_active_pokemon b)).
           get_defensive_modifier (snd (resolve_power_and_type b m))
             (damage_multiplier_move L (opponent_active_pokemon b) m) m
             (opponent_active_pokemon b) a \<in> {0, 1}"
  shows "defended_effectiveness L b m \<in> standard_multipliers"
proof -
  let ?opp = "opponent_active_pokemon b"
  let ?raw = "damage_multiplier_move L ?opp m"
  let ?f = "get_defensive_modifier (snd (resolve_power_and_type b m)) ?raw m ?opp"
  let ?w = "worst_case_loop ?f (possible_abilities ?opp) 1"
  have w: "?w \<in> {0, 1}" if "\<forall>a \<in> set (possible_abilities ?opp). ?f a \<in> {0, 1}"
    using that by (rule worst_case_loop_zero_one) simp
  show ?thesis
  proof (cases "ability ?opp")
    case None
    then have "?w \<in> {0, 1}"
      using assms(2) by (intro w) (simp add: consulted_abilities_def)
    then have "?raw * ?w \<in> standard_multipliers"
      by (rule scaled_standard[OF assms(1)])
    then show ?thesis
      using None by (simp add: defended_effectiveness_consulted)
  next
    case (Some a)
    show ?thesis
    proof (cases "a = []")
      case True
      then have "?w \<in> {0, 1}"
        using assms(2) Some by (intro w) (simp add: consulted_abilities_def)
      then have "?raw * ?w \<in> standard_multipliers"
        by (rule scaled_standard[OF assms(1)])
      then show ?thesis
        using Some True by (simp add: defended_effectiveness_consulted)
    next
      case False
      then have "?f a \<in> {0, 1}"
        using assms(2) Some by (simp add: consulted_abilities_def)
      then have "?raw * ?f a \<in> standard_multipliers"
        by (rule scaled_standard[OF assms(1)])
      then show ?thesis
        using Some False by (simp add: defended_effectiveness_consulted)
    qed
  qed
qed

lemma move_effectiveness_standard:
  assumes "defended_effectiveness L b m \<in> standard_multipliers"
  shows "move_effectiveness L b m \<in> standard_multipliers"
  using assms by (auto simp: move_effectiveness_def Let_def standard_multipliers_def)

text \<open>
  Claim C2, as amended. The damage map has one entry for each id of the available moves.
  When base powers, accuracies and the library's multipliers are not negative, every
  expected damage is not negative. The multiplier of an entry other than Freeze-Dry is one
  of 0, 1/4, 1/2, 1, 2, 4 when the library's multiplier is and every ability consulted for
  the defender has the modifier 0 or 1 for the move; an ability with another modifier
  takes it out of that set.
\<close>

theorem damage_map_one_entry_per_move:
  assumes "\<forall>m \<in> set (available_moves b).
             0 \<le> base_power m \<and> 0 \<le> accuracy m
             \<and> 0 \<le> damage_multiplier_move L (opponent_active_pokemon b) m"
    and "\<forall>t. 0 \<le> type_damage_multiplier L t ICE"
  shows "distinct (map fst (calculate_move_damages L lm b))
       \<and> fst ` set (calculate_move_damages L lm b) = move_id ` set (available_moves b)
       \<and> (\<forall>(k, i) \<in> set (calculate_move_damages L lm b).
            0 \<le> expected_damage i
            \<and> (\<exists>m \<in> set (available_moves b). move_id m = k \<and> i = move_entry L lm b m
                 \<and> (k \<noteq> ''freezedry''
                      \<and> damage_multiplier_move L (opponent_active_pokemon b) m \<in> standard_multipliers
                      \<and> (\<forall>a \<in> set (consulted_abilities (opponent_active_pokemon b)).
                            get_defensive_modifier (snd (resolve_power_and_type b m))
                              (damage_multiplier_move L (opponent_active_pokemon b) m) m
                              (opponent_active_pokemon b) a \<in> {0, 1})
                      \<longrightarrow> multiplier i \<in> standard_multipliers)))"
proof (intro conjI)
  show "distinct (map fst (calculate_move_damages L lm b))"
    by (rule calculate_distinct)
  show "fst ` set (calculate_move_damages L lm b) = move_id ` set (available_moves b)"
    by (rule calculate_keys)
  show "\<forall>(k, i) \<in> set (calculate_move_damages L lm b).
            0 \<le> expected_damage i
            \<and> (\<exists>m \<in> set (available_moves b). move_id m = k \<and> i = move_entry L lm b m
                 \<and> (k \<noteq> ''freezedry''
                      \<and> damage_multiplier_move L (opponent_active_pokemon b) m \<in> standard_multipliers
                      \<and> (\<forall>a \<in> set (consulted_abilities (opponent_active_pokemon b)).
                            get_defensive_modifier (snd (resolve_power_and_type b m))
                              (damage_multiplier_move L (opponent_active_pokemon b) m) m
                              (opponent_active_pokemon b) a \<in> {0, 1})
                      \<longrightarrow> multiplier i \<in> standard_multipliers))"
  proof (clarify, intro conjI)
    fix k i assume ki: "(k, i) \<in> set (calculate_move_damages L lm b)"
    then obtain m where m: "m \<in> set (available_moves b)" "move_id m = k" "i = move_entry L lm b m"
      using calculate_entries by blast
    have wf: "0 \<le> base_power m" "0 \<le> accuracy m"
      "0 \<le> damage_multiplier_move L (opponent_active_pokemon b) m"
      using assms(1) m(1) by auto
    show "0 \<le> expected_damage i"
      unfolding m(3) using wf assms(2) by (intro move_entry_nonneg) auto
    have "multiplier i \<in> standard_multipliers"
      if "k \<noteq> ''freezedry''"
        and "damage_multiplier_move L (opponent_active_pokemon b) m \<in> standard_multipliers"
        and "\<forall>a \<in> set (consulted_abilities (opponent_active_pokemon b)).
                get_defensive_modifier (snd (resolve_power_and_type b m))
                  (damage_multiplier_move L (opponent_active_pokemon b) m) m
                  (opponent_active_pokemon b) a \<in> {0, 1}"
    proof -
      have "defended_effectiveness L b m \<in> standard_multipliers"
        using that(2,3) by (rule defended_effectiveness_standard)
      then have "move_effectiveness L b m \<in> standard_multipliers"
        by (rule move_effectiveness_standard)
      then show ?thesis
        using that(1) m(2,3) by (simp add: move_entry_multiplier)
    qed
    then show "\<exists>m \<in> set (available_moves b). move_id m = k \<and> i = move_entry L lm b m
                 \<and> (k \<noteq> ''freezedry''
                      \<and> damage_multiplier_move L (opponent_active_pokemon b) m \<in> standard_multipliers
                      \<and> (\<forall>a \<in> set (consulted_abilities (opponent_active_pokemon b)).
                            get_defensive_modifier (snd (resolve_power_and_type b m))
                              (damage_multiplier_move L (opponent_active_pokemon b) m) m
                              (opponent_active_pokemon b) a \<in> {0, 1})
                      \<longrightarrow> multiplier i \<in> standard_multipliers)"
      using m by blast
  qed
qed

lemma sample_chart_nonneg: "0 \<le> sample_chart t u"
  by (simp add: sample_chart_def)

theorem damage_map_one_entry_per_move_witness:
  "calculate_move_damages sample_library None plain_battle
     = [(''tackle'', \<lparr>expected_damage = 245 / 4, stab = True, multiplier = 1, info_priority = 0\<rparr>)]
   \<and> 0 \<le> expected_damage (move_entry sample_library None plain_battle plain_move)
   \<and> multiplier (move_entry sample_library None plain_battle plain_move) \<in> standard_multipliers"
proof -
  have moves: "available_moves plain_battle = [plain_move]"
    by (simp add: plain_battle_def)
  have raw: "damage_multiplier_move sample_library (opponent_active_pokemon plain_battle) plain_move = 1"
    by code_simp
  have h1: "\<forall>m \<in> set (available_moves plain_battle).
             0 \<le> base_power m \<and> 0 \<le> accuracy m
             \<and> 0 \<le> damage_multiplier_move sample_library (opponent_active_pokemon plain_battle) m"
    using raw by (simp add: moves) (simp add: plain_move_def)
  have h2: "\<forall>t. 0 \<le> type_damage_multiplier sample_library t ICE"
    by (simp add: sample_library_def sample_chart_nonneg)
  have val: "calculate_move_damages sample_library None plain_battle
     = [(''tackle'', \<lparr>expected_damage = 245 / 4, stab = True, multiplier = 1, info_priority = 0\<rparr>)]"
    by code_simp
  have entry: "move_entry sample_library None plain_battle plain_move
     = \<lparr>expected_damage = 245 / 4, stab = True, multiplier = 1, info_priority = 0\<rparr>"
    by code_simp
  have none: "consulted_abilities (opponent_active_pokemon plain_battle) = []"
    by code_simp
  have std: "(1::rat) \<in> standard_multipliers"
    by (simp add: standard_multipliers_def)
  have name: "move_id plain_move = ''tackle''"
    by (simp add: plain_move_def)
  show ?thesis
    using damage_map_one_entry_per_move[OF h1 h2, of None] val entry
    by (simp add: moves raw none std name)
qed

theorem multiplier_outside_standard_values:
  "damage_multiplier_move sample_library (opponent_active_pokemon filter_battle) ember = 2
   \<and> calculate_move_damages sample_library None filter_battle
       = [(''ember'', \<lparr>expected_damage = 245 / 4, stab = False, multiplier = 3 / 2,
                        info_priority = 0\<rparr>)]
   \<and> (3 / 2 :: rat) \<notin> standard_multipliers"
proof -
  have "(3 / 2 :: rat) \<notin> standard_multipliers"
    by (simp add: standard_multipliers_def)
  moreover have "damage_multiplier_move sample_library (opponent_active_pokemon filter_battle) ember = 2"
    by code_simp
  moreover have "calculate_move_damages sample_library None filter_battle
       = [(''ember'', \<lparr>expected_damage = 245 / 4, stab = False, multiplier = 3 / 2,
                        info_priority = 0\<rparr>)]"
    by code_simp
  ultimately show ?thesis by blast
qed

lemma immune_modifier_zero:
  "immune_to a mt \<Longrightarrow> get_defensive_modifier mt e m opp a = 0"
  by (auto simp: immune_to_def get_defensive_modifier_def)

lemma not_immune_modifier:
  assumes "\<not> immune_to a mt"
  shows "get_defensive_modifier mt e m opp a =
      scale_if (a \<in> {''filter'', ''solidrock'', ''prismarmor''} \<and> e > 1) (3 / 4)
      * scale_if (a = ''fluffy'' \<and> ''contact'' \<in> set (flags m)) (1 / 2)
      * scale_if (a = ''furcoat'' \<and> category m = PHYSICAL) (1 / 2)
      * scale_if (a = ''heatproof'' \<and> mt = FIRE) (1 / 2)
      * scale_if (a = ''icescales'' \<and> category m = SPECIAL) (1 / 2)
      * scale_if (a = ''multiscale'' \<and> current_hp_fraction opp = 1) (1 / 2)
      * scale_if (a = ''punkrock'' \<and> ''sound'' \<in> set (flags m)) (1 / 2)
      * scale_if (a = ''purifyingsalt'' \<and> mt = GHOST) (1 / 2)
      * scale_if (a = ''thickfat'' \<and> mt \<in> {FIRE, ICE}) (1 / 2)
      * scale_if (a = ''waterbubble'' \<and> mt = FIRE) (1 / 2)
      * scale_if (a = ''dryskin'' \<and> mt = FIRE) (5 / 4)
      * scale_if (a = ''fluffy'' \<and> mt = FIRE) (2)"
proof -
  have c: "\<not> (a = ''dryskin'' \<and> mt = WATER)" "\<not> (a = ''flashfire'' \<and> mt = FIRE)"
    "\<not> (a = ''levitate'' \<and> mt = GROUND)"
    "\<not> (a \<in> {''lightningrod'', ''motordrive'', ''voltabsorb''} \<and> mt = ELECTRIC)"
    "\<not> (a = ''sapsipper'' \<and> mt = GRASS)"
    "\<not> (a \<in> {''stormdrain'', ''waterabsorb''} \<and> mt = WATER)"
    using assms by (auto simp: immune_to_def)
  show ?thesis
    unfolding get_defensive_modifier_def by (simp only: c if_False)
qed

lemma not_immune_modifier_pos:
  assumes "\<not> immune_to a mt"
  shows "0 < get_defensive_modifier mt e m opp a"
  unfolding not_immune_modifier[OF assms]
  by (intro mult_pos_pos scale_if_pos) simp_all

lemma modifier_zero_iff_immune:
  "get_defensive_modifier mt e m opp a = 0 \<longleftrightarrow> immune_to a mt"
  using immune_modifier_zero[of a mt e m opp] not_immune_modifier_pos[of a mt e m opp]
  by (cases "immune_to a mt") auto

text \<open>
  Claim C3, as amended. With an unknown ability the effectiveness after the defender's
  ability is the library's multiplier times the least of 1 and the modifiers of the
  possible abilities: the search starts at 1, so a modifier above 1 is never applied on
  that path. With a known ability it is the library's multiplier times the modifier of
  that ability. A modifier is 0 exactly for an immunity, whatever reductions or increases
  the ability has besides. The attacker's Tinted Lens then doubles a value below 1.
\<close>

theorem defensive_ability_worst_case:
  "(ability (opponent_active_pokemon b) = None \<or> ability (opponent_active_pokemon b) = Some []
      \<longrightarrow> defended_effectiveness L b m
          = damage_multiplier_move L (opponent_active_pokemon b) m
            * Min (insert 1
                (get_defensive_modifier (snd (resolve_power_and_type b m))
                   (damage_multiplier_move L (opponent_active_pokemon b) m) m
                   (opponent_active_pokemon b) ` set (possible_abilities (opponent_active_pokemon b)))))
   \<and> (ability (opponent_active_pokemon b) = Some a \<and> a \<noteq> []
      \<longrightarrow> defended_effectiveness L b m
          = damage_multiplier_move L (opponent_active_pokemon b) m
            * get_defensive_modifier (snd (resolve_power_and_type b m))
                (damage_multiplier_move L (opponent_active_pokemon b) m) m
                (opponent_active_pokemon b) a)
   \<and> (get_defensive_modifier mt e m opp a' = 0 \<longleftrightarrow> immune_to a' mt)
   \<and> move_effectiveness L b m
       = (if ability (active_pokemon b) = Some ''tintedlens'' \<and> defended_effectiveness L b m < 1
          then defended_effectiveness L b m * 2 else defended_effectiveness L b m)"
proof (intro conjI impI)
  assume "ability (opponent_active_pokemon b) = None \<or> ability (opponent_active_pokemon b) = Some []"
  then show "defended_effectiveness L b m
          = damage_multiplier_move L (opponent_active_pokemon b) m
            * Min (insert 1
                (get_defensive_modifier (snd (resolve_power_and_type b m))
                   (damage_multiplier_move L (opponent_active_pokemon b) m) m
                   (opponent_active_pokemon b) ` set (possible_abilities (opponent_active_pokemon b))))"
    by (auto simp: defended_effectiveness_consulted worst_case_loop_Min)
next
  assume "ability (opponent_active_pokemon b) = Some a \<and> a \<noteq> []"
  then show "defended_effectiveness L b m
          = damage_multiplier_move L (opponent_active_pokemon b) m
            * get_defensive_modifier (snd (resolve_power_and_type b m))
                (damage_multiplier_move L (opponent_active_pokemon b) m) m
                (opponent_active_pokemon b) a"
    by (simp add: defended_effectiveness_consulted)
next
  show "get_defensive_modifier mt e m opp a' = 0 \<longleftrightarrow> immune_to a' mt"
    by (rule modifier_zero_iff_immune)
next
  show "move_effectiveness L b m
       = (if ability (active_pokemon b) = Some ''tintedlens'' \<and> defended_effectiveness L b m < 1
          then defended_effectiveness L b m * 2 else defended_effectiveness L b m)"
    by (simp add: move_effectiveness_def Let_def)
qed

theorem defensive_ability_worst_case_witness:
  "defended_effectiveness sample_library dryskin_battle ember = 1
   \<and> defended_effectiveness sample_library filter_battle ember = 2 * (3 / 4)
   \<and> get_defensive_modifier WATER 1 ember plain_pokemon ''waterabsorb'' = 0"
proof -
  have unknown: "ability (opponent_active_pokemon dryskin_battle) = None"
    by code_simp
  have raw1: "damage_multiplier_move sample_library (opponent_active_pokemon dryskin_battle) ember = 1"
    by code_simp
  have poss: "possible_abilities (opponent_active_pokemon dryskin_battle) = [''dryskin'']"
    by code_simp
  have mod1: "get_defensive_modifier (snd (resolve_power_and_type dryskin_battle ember)) 1 ember
                (opponent_active_pokemon dryskin_battle) ''dryskin'' = 5 / 4"
    by code_simp
  have first: "defended_effectiveness sample_library dryskin_battle ember = 1"
    using defensive_ability_worst_case[where b = dryskin_battle and L = sample_library and m = ember]
      unknown
    by (simp add: raw1 poss mod1)
  have known: "ability (opponent_active_pokemon filter_battle) = Some ''filter''"
    by code_simp
  have raw2: "damage_multiplier_move sample_library (opponent_active_pokemon filter_battle) ember = 2"
    by code_simp
  have mod2: "get_defensive_modifier (snd (resolve_power_and_type filter_battle ember)) 2 ember
                (opponent_active_pokemon filter_battle) ''filter'' = 3 / 4"
    by code_simp
  have second: "defended_effectiveness sample_library filter_battle ember = 2 * (3 / 4)"
    using defensive_ability_worst_case[where b = filter_battle and L = sample_library and m = ember
        and a = "''filter''"] known
    by (simp add: raw2 mod2)
  have imm: "immune_to ''waterabsorb'' WATER"
    by (simp add: immune_to_def)
  have third: "get_defensive_modifier WATER 1 ember plain_pokemon ''waterabsorb'' = 0"
    using defensive_ability_worst_case[where mt = WATER and e = 1 and m = ember
        and opp = plain_pokemon and a' = "''waterabsorb''"] imm
    by blast
  show ?thesis using first second third by blast
qed

theorem worst_case_capped_at_one:
  "ability (opponent_active_pokemon dryskin_battle) = None
   \<and> possible_abilities (opponent_active_pokemon dryskin_battle) = [''dryskin'']
   \<and> damage_multiplier_move sample_library (opponent_active_pokemon dryskin_battle) ember = 1
   \<and> get_defensive_modifier (snd (resolve_power_and_type dryskin_battle ember)) 1 ember
        (opponent_active_pokemon dryskin_battle) ''dryskin'' = 5 / 4
   \<and> multiplier (move_entry sample_library None dryskin_battle ember) = 1"
  by code_simp

text \<open>
  Claim C4 fails on the code. The power resolved in step 1 (102 for Return, 100 for
  Weather Ball in the rain) is overwritten by the nominal base power before the damage is
  computed: Return with its nominal power 0 gets the expected damage 0, and Weather Ball in
  the rain gets half of what the same move with nominal power 100 gets.
\<close>

theorem resolved_power_is_discarded:
  "resolve_power_and_type return_battle return_move = (102, NORMAL)
   \<and> base_power return_move = 0
   \<and> expected_damage (move_entry sample_library None return_battle return_move) = 0
   \<and> resolve_power_and_type rain_battle weatherball = (100, WATER)
   \<and> base_power weatherball = 50
   \<and> expected_damage (move_entry sample_library None rain_battle weatherball) = 1225 / 16
   \<and> expected_damage (move_entry sample_library None rain_battle (weatherball\<lparr>base_power := 100\<rparr>))
       = 1225 / 8"
  by code_simp

lemma attacker_ability_boost_last_move:
  assumes "ability (active_pokemon b) \<noteq> Some ''analytic'' \<or> turn b \<le> 1
           \<or> ((lm = Some (move_id m)) = (lm' = Some (move_id m)))"
  shows "attacker_ability_boost lm b m mt = attacker_ability_boost lm' b m mt"
proof -
  have "(ability (active_pokemon b) = Some ''analytic'' \<and> turn b > 1 \<and> lm = Some (move_id m))
      = (ability (active_pokemon b) = Some ''analytic'' \<and> turn b > 1 \<and> lm' = Some (move_id m))"
    using assms by auto
  then show ?thesis
    unfolding attacker_ability_boost_def Let_def by (simp only:)
qed

lemma move_entry_last_move:
  assumes "ability (active_pokemon b) \<noteq> Some ''analytic'' \<or> turn b \<le> 1
           \<or> ((lm = Some (move_id m)) = (lm' = Some (move_id m)))"
  shows "move_entry L lm b m = move_entry L lm' b m"
  unfolding move_entry_def Let_def
  by (simp only: attacker_ability_boost_last_move[OF assms])

lemma damage_loop_last_move:
  assumes "\<forall>m \<in> set ms. move_entry L lm b m = move_entry L lm' b m"
  shows "damage_loop L lm b ms d = damage_loop L lm' b ms d"
  using assms by (induction ms arbitrary: d) simp_all

text \<open>
  Claim C9, as amended. The damage map is a function of the snapshot, the library's tables
  and the player's \<^verbatim>\<open>last_move\<close>, which it reads for the ability Analytic and never
  writes. Two runs on one snapshot give equal maps when the attacker's ability is not
  Analytic, or the turn is the first, or the two values of \<^verbatim>\<open>last_move\<close> name the same
  available moves.
\<close>

theorem damage_map_depends_on_last_move_only_for_analytic:
  assumes "ability (active_pokemon b) \<noteq> Some ''analytic'' \<or> turn b \<le> 1
           \<or> (\<forall>m \<in> set (available_moves b). (lm = Some (move_id m)) = (lm' = Some (move_id m)))"
  shows "calculate_move_damages L lm b = calculate_move_damages L lm' b"
proof -
  have "move_entry L lm b m = move_entry L lm' b m" if "m \<in> set (available_moves b)" for m
    using assms that by (intro move_entry_last_move) blast
  then have "damage_loop L lm b (available_moves b) [] = damage_loop L lm' b (available_moves b) []"
    by (intro damage_loop_last_move) blast
  then show ?thesis by (simp add: calculate_move_damages_def)
qed

theorem damage_map_depends_on_last_move_only_for_analytic_witness:
  "calculate_move_damages sample_library (Some ''tackle'') plain_battle
     = calculate_move_damages sample_library None plain_battle
   \<and> calculate_move_damages sample_library (Some ''ember'') analytic_battle
     = calculate_move_damages sample_library None analytic_battle"
proof -
  have a1: "ability (active_pokemon plain_battle) \<noteq> Some ''analytic''"
    by code_simp
  have a2: "(Some ''ember'' = Some (move_id plain_move)) = (None = Some (move_id plain_move))"
    by code_simp
  have moves: "available_moves analytic_battle = [plain_move]"
    by code_simp
  show ?thesis
    using damage_map_depends_on_last_move_only_for_analytic[where b = plain_battle
        and lm = "Some ''tackle''" and lm' = None and L = sample_library]
      damage_map_depends_on_last_move_only_for_analytic[where b = analytic_battle
        and lm = "Some ''ember''" and lm' = None and L = sample_library]
      a1 a2 moves
    by simp
qed

theorem damage_map_reads_last_move:
  "calculate_move_damages sample_library None analytic_battle
     = [(''tackle'', \<lparr>expected_damage = 245 / 4, stab = True, multiplier = 1, info_priority = 0\<rparr>)]
   \<and> calculate_move_damages sample_library (Some ''tackle'') analytic_battle
     = [(''tackle'', \<lparr>expected_damage = 637 / 8, stab = True, multiplier = 1, info_priority = 0\<rparr>)]
   \<and> calculate_move_damages sample_library None analytic_battle
     \<noteq> calculate_move_damages sample_library (Some ''tackle'') analytic_battle"
proof -
  have a: "calculate_move_damages sample_library None analytic_battle
     = [(''tackle'', \<lparr>expected_damage = 245 / 4, stab = True, multiplier = 1, info_priority = 0\<rparr>)]"
    by code_simp
  have b: "calculate_move_damages sample_library (Some ''tackle'') analytic_battle
     = [(''tackle'', \<lparr>expected_damage = 637 / 8, stab = True, multiplier = 1, info_priority = 0\<rparr>)]"
    by code_simp
  show ?thesis unfolding a b by simp
qed

section \<open>Properties of the Fallback Selector\<close>

lemma best_loop_none:
  "(\<forall>e \<in> set d. expected_damage (snd e) \<le> mx) \<Longrightarrow> best_loop d (best, mx) = (best, mx)"
proof (induction d)
  case Nil
  then show ?case by simp
next
  case (Cons e d)
  obtain k i where e: "e = (k, i)" by (cases e)
  from Cons.prems e have "\<not> expected_damage i > mx" by auto
  moreover have "best_loop d (best, mx) = (best, mx)"
    using Cons by simp
  ultimately show ?case using e by simp
qed

lemma best_loop_some:
  assumes "\<exists>e \<in> set d. expected_damage (snd e) > mx"
  shows "\<exists>pre k i post. d = pre @ (k, i) # post
          \<and> (\<forall>e \<in> set pre. expected_damage (snd e) < expected_damage i)
          \<and> (\<forall>e \<in> set post. expected_damage (snd e) \<le> expected_damage i)
          \<and> mx < expected_damage i
          \<and> best_loop d (best, mx) = (Some k, expected_damage i)"
  using assms
proof (induction d arbitrary: best mx)
  case Nil
  then show ?case by simp
next
  case (Cons e d)
  obtain k0 i0 where e: "e = (k0, i0)" by (cases e)
  show ?case
  proof (cases "expected_damage i0 > mx")
    case True
    then have step: "best_loop (e # d) (best, mx) = best_loop d (Some k0, expected_damage i0)"
      using e by simp
    show ?thesis
    proof (cases "\<exists>e' \<in> set d. expected_damage (snd e') > expected_damage i0")
      case True
      then obtain pre k i post where h: "d = pre @ (k, i) # post"
        "\<forall>e \<in> set pre. expected_damage (snd e) < expected_damage i"
        "\<forall>e \<in> set post. expected_damage (snd e) \<le> expected_damage i"
        "expected_damage i0 < expected_damage i"
        "best_loop d (Some k0, expected_damage i0) = (Some k, expected_damage i)"
        using Cons.IH[of "expected_damage i0" "Some k0"] by blast
      have 1: "e # d = (e # pre) @ (k, i) # post" using h(1) by simp
      have 2: "\<forall>e' \<in> set (e # pre). expected_damage (snd e') < expected_damage i"
        using h(2,4) e by simp
      have 3: "mx < expected_damage i" using \<open>expected_damage i0 > mx\<close> h(4) by simp
      show ?thesis
        using 1 2 3 h(3,5) step by metis
    next
      case False
      then have le: "\<forall>e' \<in> set d. expected_damage (snd e') \<le> expected_damage i0"
        by auto
      then have "best_loop d (Some k0, expected_damage i0) = (Some k0, expected_damage i0)"
        by (rule best_loop_none)
      then have 4: "best_loop (e # d) (best, mx) = (Some k0, expected_damage i0)"
        using step by simp
      have 1: "e # d = [] @ (k0, i0) # d" using e by simp
      have 2: "\<forall>e' \<in> set []. expected_damage (snd e') < expected_damage i0" by simp
      show ?thesis
        using 1 2 le True 4 by metis
    qed
  next
    case False
    then have step: "best_loop (e # d) (best, mx) = best_loop d (best, mx)"
      using e by simp
    have "\<exists>e' \<in> set d. expected_damage (snd e') > mx"
      using Cons.prems False e by auto
    then obtain pre k i post where h: "d = pre @ (k, i) # post"
      "\<forall>e \<in> set pre. expected_damage (snd e) < expected_damage i"
      "\<forall>e \<in> set post. expected_damage (snd e) \<le> expected_damage i"
      "mx < expected_damage i"
      "best_loop d (best, mx) = (Some k, expected_damage i)"
      using Cons.IH[of mx best] by blast
    have 1: "e # d = (e # pre) @ (k, i) # post" using h(1) by simp
    have 2: "\<forall>e' \<in> set (e # pre). expected_damage (snd e') < expected_damage i"
      using h(2,4) e False by simp
    show ?thesis
      using 1 2 h(3,4,5) step by metis
  qed
qed

lemma find_move_key:
  assumes "k \<in> move_id ` set (available_moves b)"
  shows "\<exists>m. find_move b k = Some m \<and> move_id m = k"
proof -
  have "find (\<lambda>m. move_id m = k) (available_moves b) \<noteq> None"
    using assms by (auto simp: find_None_iff)
  then obtain m where m: "find (\<lambda>m. move_id m = k) (available_moves b) = Some m"
    by blast
  then have "move_id m = k"
    by (auto simp: find_Some_iff)
  with m show ?thesis by (simp add: find_move_def)
qed

lemma select_best_none:
  assumes "\<forall>e \<in> set (calculate_move_damages L (last_move st) b). expected_damage (snd e) \<le> - 1"
  shows "select_best_damage_move L st b = Inr (RandomMove, st)"
  using best_loop_none[OF assms, of None]
  by (simp add: select_best_damage_move_def Let_def)

lemma select_best_some:
  assumes "\<exists>e \<in> set (calculate_move_damages L (last_move st) b). - 1 < expected_damage (snd e)"
  shows "\<exists>pre k i post. calculate_move_damages L (last_move st) b = pre @ (k, i) # post
          \<and> (\<forall>e \<in> set pre. expected_damage (snd e) < expected_damage i)
          \<and> (\<forall>e \<in> set post. expected_damage (snd e) \<le> expected_damage i)
          \<and> select_best_damage_move L st b
              = (if k = [] then Inr (RandomMove, st)
                 else Inr (MoveOrder k, st\<lparr>last_move := Some k\<rparr>))"
proof -
  let ?D = "calculate_move_damages L (last_move st) b"
  obtain pre k i post where h: "?D = pre @ (k, i) # post"
    "\<forall>e \<in> set pre. expected_damage (snd e) < expected_damage i"
    "\<forall>e \<in> set post. expected_damage (snd e) \<le> expected_damage i"
    "best_loop ?D (None, - 1) = (Some k, expected_damage i)"
    using best_loop_some[OF assms, of None] by blast
  have "k \<in> fst ` set ?D" using h(1) by force
  then have "k \<in> move_id ` set (available_moves b)"
    by (simp add: calculate_keys)
  then obtain m where m: "find_move b k = Some m" "move_id m = k"
    using find_move_key by blast
  have "select_best_damage_move L st b
      = (if k = [] then Inr (RandomMove, st) else Inr (MoveOrder k, st\<lparr>last_move := Some k\<rparr>))"
    using h(4) m by (simp add: select_best_damage_move_def Let_def)
  then show ?thesis using h(1,2,3) by blast
qed

lemma well_formed_has_candidate:
  assumes "available_moves b \<noteq> []"
    and "\<forall>m \<in> set (available_moves b).
             0 \<le> base_power m \<and> 0 \<le> accuracy m
             \<and> 0 \<le> damage_multiplier_move L (opponent_active_pokemon b) m"
    and "\<forall>t. 0 \<le> type_damage_multiplier L t ICE"
  shows "\<exists>e \<in> set (calculate_move_damages L lm b). - 1 < expected_damage (snd e)"
proof -
  have "fst ` set (calculate_move_damages L lm b) \<noteq> {}"
    using assms(1) by (simp add: calculate_keys)
  then have "calculate_move_damages L lm b \<noteq> []"
    by auto
  then obtain e rest where "calculate_move_damages L lm b = e # rest"
    by (cases "calculate_move_damages L lm b") auto
  then have "(fst e, snd e) \<in> set (calculate_move_damages L lm b)"
    by simp
  then obtain k i where ki: "(k, i) \<in> set (calculate_move_damages L lm b)"
    by blast
  then obtain m where m: "m \<in> set (available_moves b)" "i = move_entry L lm b m"
    using calculate_entries by blast
  have "0 \<le> expected_damage i"
    unfolding m(2) using assms(2,3) m(1) by (intro move_entry_nonneg) auto
  then have "- 1 < expected_damage (snd (k, i))" by simp
  then show ?thesis using ki by blast
qed

text \<open>
  Claim C7, as amended. The Fallback Selector commits the first entry of the damage map,
  which lists the ids in the order of their first appearance in the available moves, whose
  expected damage is greatest; status moves take part with the expected damage 0. Only
  when no entry exceeds the sentinel -1, which for a well-formed snapshot means that no
  move is available, it hands the choice to the library's random selection.
\<close>

theorem fallback_picks_first_greatest:
  "((\<forall>e \<in> set (calculate_move_damages L (last_move st) b). expected_damage (snd e) \<le> - 1)
      \<longrightarrow> select_best_damage_move L st b = Inr (RandomMove, st))
   \<and> ((\<exists>e \<in> set (calculate_move_damages L (last_move st) b). - 1 < expected_damage (snd e))
      \<longrightarrow> (\<exists>pre k i post. calculate_move_damages L (last_move st) b = pre @ (k, i) # post
            \<and> (\<forall>e \<in> set pre. expected_damage (snd e) < expected_damage i)
            \<and> (\<forall>e \<in> set post. expected_damage (snd e) \<le> expected_damage i)
            \<and> select_best_damage_move L st b
                = (if k = [] then Inr (RandomMove, st)
                   else Inr (MoveOrder k, st\<lparr>last_move := Some k\<rparr>))))
   \<and> (available_moves b = [] \<longrightarrow> select_best_damage_move L st b = Inr (RandomMove, st))
   \<and> (available_moves b \<noteq> []
        \<and> (\<forall>m \<in> set (available_moves b).
             0 \<le> base_power m \<and> 0 \<le> accuracy m
             \<and> 0 \<le> damage_multiplier_move L (opponent_active_pokemon b) m)
        \<and> (\<forall>t. 0 \<le> type_damage_multiplier L t ICE)
      \<longrightarrow> (\<exists>e \<in> set (calculate_move_damages L (last_move st) b). - 1 < expected_damage (snd e)))"
proof (intro conjI impI)
  assume "\<forall>e \<in> set (calculate_move_damages L (last_move st) b). expected_damage (snd e) \<le> - 1"
  then show "select_best_damage_move L st b = Inr (RandomMove, st)"
    by (rule select_best_none)
next
  assume "\<exists>e \<in> set (calculate_move_damages L (last_move st) b). - 1 < expected_damage (snd e)"
  then show "\<exists>pre k i post. calculate_move_damages L (last_move st) b = pre @ (k, i) # post
            \<and> (\<forall>e \<in> set pre. expected_damage (snd e) < expected_damage i)
            \<and> (\<forall>e \<in> set post. expected_damage (snd e) \<le> expected_damage i)
            \<and> select_best_damage_move L st b
                = (if k = [] then Inr (RandomMove, st)
                   else Inr (MoveOrder k, st\<lparr>last_move := Some k\<rparr>))"
    by (rule select_best_some)
next
  assume "available_moves b = []"
  then have "calculate_move_damages L (last_move st) b = []"
    by (simp add: calculate_move_damages_def)
  then show "select_best_damage_move L st b = Inr (RandomMove, st)"
    by (intro select_best_none) simp
next
  assume "available_moves b \<noteq> []
        \<and> (\<forall>m \<in> set (available_moves b).
             0 \<le> base_power m \<and> 0 \<le> accuracy m
             \<and> 0 \<le> damage_multiplier_move L (opponent_active_pokemon b) m)
        \<and> (\<forall>t. 0 \<le> type_damage_multiplier L t ICE)"
  then show "\<exists>e \<in> set (calculate_move_damages L (last_move st) b). - 1 < expected_damage (snd e)"
    by (intro well_formed_has_candidate) blast+
qed

theorem fallback_picks_first_greatest_witness:
  "select_best_damage_move sample_library fresh_player no_move_battle = Inr (RandomMove, fresh_player)
   \<and> calculate_move_damages sample_library (last_move fresh_player) tie_battle
       = [(''pound'', \<lparr>expected_damage = 245 / 4, stab = True, multiplier = 1, info_priority = 0\<rparr>),
          (''growl'', \<lparr>expected_damage = 0, stab = True, multiplier = 1, info_priority = 0\<rparr>),
          (''scratch'', \<lparr>expected_damage = 245 / 4, stab = True, multiplier = 1, info_priority = 0\<rparr>)]
   \<and> select_best_damage_move sample_library fresh_player tie_battle
       = Inr (MoveOrder ''pound'', fresh_player\<lparr>last_move := Some ''pound''\<rparr>)"
proof -
  let ?D = "[(''pound'', \<lparr>expected_damage = 245 / 4, stab = True, multiplier = 1, info_priority = 0\<rparr>),
          (''growl'', \<lparr>expected_damage = 0, stab = True, multiplier = 1, info_priority = 0\<rparr>),
          (''scratch'', \<lparr>expected_damage = (245 / 4 :: rat), stab = True, multiplier = 1, info_priority = 0\<rparr>)]"
  have none: "available_moves no_move_battle = []"
    by code_simp
  have first: "select_best_damage_move sample_library fresh_player no_move_battle
                 = Inr (RandomMove, fresh_player)"
    using fallback_picks_first_greatest[where L = sample_library and st = fresh_player
        and b = no_move_battle] none
    by blast
  have D: "calculate_move_damages sample_library (last_move fresh_player) tie_battle = ?D"
    by code_simp
  have some: "\<exists>e \<in> set (calculate_move_damages sample_library (last_move fresh_player) tie_battle).
                - 1 < expected_damage (snd e)"
    unfolding D by simp
  obtain pre k i post where h: "?D = pre @ (k, i) # post"
    "\<forall>e \<in> set pre. expected_damage (snd e) < expected_damage i"
    "\<forall>e \<in> set post. expected_damage (snd e) \<le> expected_damage i"
    "select_best_damage_move sample_library fresh_player tie_battle
       = (if k = [] then Inr (RandomMove, fresh_player)
          else Inr (MoveOrder k, fresh_player\<lparr>last_move := Some k\<rparr>))"
    using fallback_picks_first_greatest[where L = sample_library and st = fresh_player
        and b = tie_battle] some
    unfolding D by blast
  have "k = ''pound''"
  proof (cases pre)
    case Nil
    then show ?thesis using h(1) by simp
  next
    case (Cons e1 pre1)
    then have e1: "e1 = (''pound'', \<lparr>expected_damage = 245 / 4, stab = True, multiplier = 1, info_priority = 0\<rparr>)"
      using h(1) by simp
    show ?thesis
    proof (cases pre1)
      case Nil
      then have "i = \<lparr>expected_damage = 0, stab = True, multiplier = 1, info_priority = 0\<rparr>"
        using h(1) Cons by simp
      then show ?thesis using h(2) Cons e1 by simp
    next
      case (Cons e2 pre2)
      then have "pre2 = [] \<and> i = \<lparr>expected_damage = 245 / 4, stab = True, multiplier = 1, info_priority = 0\<rparr>"
        using h(1) \<open>pre = e1 # pre1\<close> by (cases pre2) auto
      then show ?thesis using h(2) \<open>pre = e1 # pre1\<close> e1 by simp
    qed
  qed
  then have "select_best_damage_move sample_library fresh_player tie_battle
       = Inr (MoveOrder ''pound'', fresh_player\<lparr>last_move := Some ''pound''\<rparr>)"
    using h(4) by simp
  then show ?thesis using first D by simp
qed

theorem status_move_beats_switch:
  "calculate_move_damages sample_library (last_move fresh_player) status_only_battle
     = [(''growl'', \<lparr>expected_damage = 0, stab = True, multiplier = 1, info_priority = 0\<rparr>)]
   \<and> all_possible_switches status_only_battle = [''switch-squirtle'']
   \<and> select_best_damage_move sample_library fresh_player status_only_battle
       = Inr (MoveOrder ''growl'', \<lparr>last_move = Some ''growl'', just_switched = False\<rparr>)"
  by code_simp

section \<open>Properties of the Action Filter Pipeline\<close>

lemma subseq_set: "subseq xs ys \<Longrightarrow> set xs \<subseteq> set ys"
  by (induction rule: list_emb.induct) auto

lemma subseq_distinct: "subseq xs ys \<Longrightarrow> distinct ys \<Longrightarrow> distinct xs"
  using subseqs_distinctD[of xs ys] by (simp add: set_subseqs_eq)

lemma subseq_remove1: "subseq (remove1 a xs) xs"
  by (induction xs) auto

lemma sub_refl: "subseq xs (xs::string list)"
  by simp

lemma sub_remove1: "subseq ys xs \<Longrightarrow> subseq (remove1 a ys) xs"
  by (rule subseq_order.trans[OF subseq_remove1])

lemma sub_filter: "subseq ys xs \<Longrightarrow> subseq (filter P ys) xs"
  by (rule subseq_order.trans[OF subseq_filter_left])

lemma sub_if:
  assumes "subseq ys xs" and "subseq zs xs"
  shows "subseq (if c then ys else zs) xs"
proof (cases c)
  case True
  then show ?thesis using assms(1) by (simp only: if_True)
next
  case False
  then show ?thesis using assms(2) by (simp only: if_False)
qed

lemma sub_fold:
  assumes "\<And>a zs. subseq zs xs \<Longrightarrow> subseq (f a zs) xs"
  shows "subseq ys xs \<Longrightarrow> subseq (fold f names ys) xs"
proof (induction names arbitrary: ys)
  case Nil
  then show ?case by (simp only: fold_simps id_apply)
next
  case (Cons n names)
  have "subseq (f n ys) xs" using Cons.prems by (rule assms)
  then have "subseq (fold f names (f n ys)) xs" by (rule Cons.IH)
  then show ?case by (simp only: fold_simps comp_apply)
qed

lemma sub_remove_each: "subseq ys xs \<Longrightarrow> subseq (remove_each names ys) xs"
  unfolding remove_each_def by (rule sub_fold) (rule sub_remove1)

lemma sub_remove_where: "subseq ys xs \<Longrightarrow> subseq (remove_where cs ys) xs"
  unfolding remove_where_def
proof (rule sub_fold)
  fix c :: "bool \<times> string" and zs
  assume zs: "subseq zs xs"
  obtain cond name where c: "c = (cond, name)" by (cases c)
  have "subseq (if cond then remove1 name zs else zs) xs"
    using zs by (intro sub_if sub_remove1)
  then show "subseq ((\<lambda>(c, name) acc. if c then remove1 name acc else acc) c zs) xs"
    unfolding c by (simp only: prod.case)
qed

lemma sub_option:
  assumes "subseq ys xs" and "\<And>v. subseq (f v) xs"
  shows "subseq (case opt of None \<Rightarrow> ys | Some v \<Rightarrow> f v) xs"
proof (cases opt)
  case None
  then show ?thesis using assms(1) by (simp only: option.case)
next
  case (Some v)
  then show ?thesis using assms(2)[of v] by (simp only: option.case)
qed

lemma sub_remove_damaging: "subseq ys xs \<Longrightarrow> subseq (remove_damaging b low dm ys) xs"
  unfolding remove_damaging_def
proof (rule sub_fold)
  fix e :: "string \<times> info" and zs
  assume zs: "subseq zs xs"
  obtain k i where e: "e = (k, i)" by (cases e)
  have "subseq (if low (expected_damage i) then
              (case find_move b k of
                 None \<Rightarrow> zs
               | Some move_obj \<Rightarrow> if category move_obj \<noteq> STATUS then remove1 k zs else zs)
            else zs) xs"
    using zs by (intro sub_if sub_option sub_remove1)
  then show "subseq ((\<lambda>(k, i) acc.
            if low (expected_damage i) then
              (case find_move b k of
                 None \<Rightarrow> acc
               | Some move_obj \<Rightarrow> if category move_obj \<noteq> STATUS then remove1 k acc else acc)
            else acc) e zs) xs"
    unfolding e by (simp only: prod.case)
qed

lemma sub_drop_status_moves: "subseq ys xs \<Longrightarrow> subseq (drop_status_moves b ys) xs"
  unfolding drop_status_moves_def Let_def by (intro sub_if sub_filter)

lemmas sub_intros = sub_if sub_remove1 sub_filter sub_remove_each sub_remove_where
  sub_remove_damaging sub_drop_status_moves sub_refl

lemma rule_1_sub: "subseq (rule_1 b xs) xs"
  unfolding rule_1_def by (intro sub_intros)

lemma rule_2_sub: "subseq (rule_2 b xs) xs"
  unfolding rule_2_def Let_def by (intro sub_intros)

lemma rule_3_sub: "subseq (rule_3 b xs) xs"
  unfolding rule_3_def Let_def by (intro sub_intros sub_fold)

lemma rule_4_sub: "subseq (rule_4 b xs) xs"
  unfolding rule_4_def Let_def by (intro sub_intros)

lemma rule_6_sub: "subseq (rule_6 b dm xs) xs"
  unfolding rule_6_def by (intro sub_intros)

lemma rule_7_sub: "subseq (rule_7 b dm xs) xs"
  unfolding rule_7_def by (intro sub_intros)

lemma rule_8_sub: "subseq (rule_8 b xs) xs"
  unfolding rule_8_def by (intro sub_intros)

lemma rule_9_sub: "subseq (rule_9 b xs) xs"
  unfolding rule_9_def Let_def by (intro sub_intros)

lemma rule_11_sub: "subseq (rule_11 b xs) xs"
  unfolding rule_11_def by (intro sub_intros)

lemma rule_12_sub: "subseq (rule_12 lm xs) xs"
  unfolding rule_12_def by (intro sub_intros)

lemma rule_13_sub: "subseq (rule_13 b xs) xs"
  unfolding rule_13_def Let_def by (intro sub_intros)

lemma rule_13_5_sub: "subseq (rule_13_5 b xs) xs"
  unfolding rule_13_5_def Let_def by (intro sub_intros)

lemma rule_14_sub: "subseq (rule_14 b xs) xs"
  unfolding rule_14_def by (intro sub_intros)

lemma rule_16_sub: "subseq (rule_16 b xs) xs"
  unfolding rule_16_def by (intro sub_intros)

lemma rule_17_sub: "subseq (rule_17 lm xs) xs"
  unfolding rule_17_def by (intro sub_intros)

lemma rule_18_sub: "subseq (rule_18 b xs) xs"
  unfolding rule_18_def Let_def by (intro sub_intros)

lemma rule_20_sub: "subseq (rule_20 b dm xs) xs"
  unfolding rule_20_def by (intro sub_intros)

lemma rule_21_sub: "subseq (rule_21 b xs) xs"
  unfolding rule_21_def by (intro sub_intros)

lemma rule_22_sub: "subseq (rule_22 b xs) xs"
  unfolding rule_22_def by (intro sub_intros)

lemma rule_23_sub: "subseq (rule_23 b xs) xs"
  unfolding rule_23_def by (intro sub_intros)

lemma rule_25_sub: "subseq (rule_25 xs) xs"
  unfolding rule_25_def by (intro sub_intros)

lemma rule_29_sub: "subseq (rule_29 lm xs) xs"
  unfolding rule_29_def by (intro sub_intros)

lemma rule_30_sub: "subseq (rule_30 b xs) xs"
  unfolding rule_30_def by (intro sub_intros)

lemma rule_33_sub: "subseq (rule_33 b xs) xs"
  unfolding rule_33_def Let_def by (intro sub_intros)

lemma rule_36_sub: "subseq (rule_36 lm xs) xs"
  unfolding rule_36_def by (intro sub_intros)

lemma str_prefix_append: "str_prefix p (p @ s)"
  by (induction p) simp_all

lemma switch_name_is_switch: "is_switch (switch_name p)"
  by (simp add: is_switch_def startswith_def switch_name_def str_prefix_append)

lemma all_possible_switches_are_switches:
  "a \<in> set (all_possible_switches b) \<Longrightarrow> is_switch a"
  by (auto simp: all_possible_switches_def switch_name_is_switch)

lemma sleeptalk_not_switch: "\<not> is_switch ''sleeptalk''"
  by (simp add: is_switch_def startswith_def)

lemma sleeptalk_not_a_switch_name: "''sleeptalk'' \<notin> set (all_possible_switches b)"
  using all_possible_switches_are_switches sleeptalk_not_switch by blast

lemma viable_switches_subset:
  "set (filter_suboptimal_switches L b (all_possible_switches b)) \<subseteq> set (all_possible_switches b)"
  by (rule filter_suboptimal_switches_subset)

lemma step_result_continue_with: "step_result (continue_with f xs) = f xs"
  by (simp add: step_result_def continue_with_def)

lemma continue_with_within:
  assumes "subseq (f xs) xs"
  shows "set (step_result (continue_with f xs)) \<subseteq> set xs \<union> S"
  using subseq_set[OF assms] by (auto simp: step_result_continue_with)

lemma switch_or_stand_within:
  "set (step_result (switch_or_stand L b xs)) \<subseteq> set xs \<union> set (all_possible_switches b)"
  using viable_switches_subset[of L b]
  by (auto simp: switch_or_stand_def step_result_def Let_def)

lemma switch_if_viable_within:
  "set (step_result (switch_if_viable L b xs)) \<subseteq> set xs \<union> set (all_possible_switches b)"
  using viable_switches_subset[of L b]
  by (auto simp: switch_if_viable_def step_result_def Let_def)

lemma continue_within: "set (step_result (Continue xs)) \<subseteq> set xs \<union> S"
  by (simp add: step_result_def)

lemma rule_5_within:
  "set (step_result (rule_5 L b xs)) \<subseteq> set xs \<union> set (all_possible_switches b)"
  unfolding rule_5_def
  using switch_or_stand_within[of L b xs] continue_within[of xs "set (all_possible_switches b)"]
  by (simp split: list.split)

lemma within_if:
  assumes "set (step_result s) \<subseteq> T" and "set (step_result t) \<subseteq> T"
  shows "set (step_result (if c then s else t)) \<subseteq> T"
proof (cases c)
  case True
  then show ?thesis using assms(1) by (simp only: if_True)
next
  case False
  then show ?thesis using assms(2) by (simp only: if_False)
qed

lemma rule_15_within:
  "set (step_result (rule_15 L b xs)) \<subseteq> set xs \<union> set (all_possible_switches b)"
  unfolding rule_15_def Let_def
  by (rule within_if[OF switch_or_stand_within continue_within])

lemma rule_24_within:
  "set (step_result (rule_24 b xs)) \<subseteq> set xs \<union> S"
  by (auto simp: rule_24_def step_result_def Let_def)

lemma rule_26_encore_within:
  "set (step_result (rule_26_encore L b dm xs)) \<subseteq> set xs \<union> set (all_possible_switches b)"
  unfolding rule_26_encore_def
  using switch_if_viable_within[of L b xs] continue_within[of xs "set (all_possible_switches b)"]
  by (simp split: list.split)

lemma rule_26_taunt_within:
  "set (step_result (rule_26_taunt L b dm xs)) \<subseteq> set xs \<union> set (all_possible_switches b)"
proof -
  have "set (step_result (Return (filter_suboptimal_switches L b (all_possible_switches b))))
          \<subseteq> set xs \<union> set (all_possible_switches b)"
    using viable_switches_subset[of L b] by (auto simp: step_result_def)
  then show ?thesis
    unfolding rule_26_taunt_def
    using switch_if_viable_within[of L b xs] continue_within[of xs "set (all_possible_switches b)"]
    by simp
qed

lemma rule_27_within:
  "set (step_result (rule_27 L b xs)) \<subseteq> set xs \<union> set (all_possible_switches b)"
  unfolding rule_27_def
  using switch_if_viable_within[of L b xs] continue_within[of xs "set (all_possible_switches b)"]
  by simp

lemma rule_10_within:
  "set (step_result (rule_10 b legal xs)) \<subseteq> insert ''sleeptalk'' (set xs)"
  using set_remove1_subset[of "''sleeptalk''" xs]
  by (auto simp: rule_10_def step_result_def Let_def)

lemma run_rules_inv:
  assumes "\<And>r xs. r \<in> set rs \<Longrightarrow> I xs \<Longrightarrow> I (step_result (r xs))"
  shows "I xs \<Longrightarrow> I (run_rules rs xs)"
  using assms
proof (induction rs arbitrary: xs)
  case Nil
  then show ?case by simp
next
  case (Cons r rs)
  have step: "I (step_result (r xs))"
    using Cons.prems(1) Cons.prems(2)[of r xs] by simp
  show ?case
  proof (cases "r xs")
    case (Return ys)
    then show ?thesis using step by (simp add: step_result_def)
  next
    case (Continue ys)
    then have "I ys" using step by (simp add: step_result_def)
    then have "I (run_rules rs ys)"
      using Cons.prems(2) by (intro Cons.IH) auto
    then show ?thesis using Continue by simp
  qed
qed

lemma run_rules_phase:
  assumes early: "\<And>r xs. r \<in> set A \<Longrightarrow> I xs
             \<Longrightarrow> (case r xs of Return ys \<Rightarrow> Post ys | Continue ys \<Rightarrow> I ys)"
    and late: "\<And>ys. I ys \<Longrightarrow> Post (run_rules B ys)"
  shows "I xs \<Longrightarrow> Post (run_rules (A @ B) xs)"
  using early
proof (induction A arbitrary: xs)
  case Nil
  then show ?case using late by simp
next
  case (Cons r A)
  have step: "case r xs of Return ys \<Rightarrow> Post ys | Continue ys \<Rightarrow> I ys"
    using Cons.prems(1) Cons.prems(2)[of r xs] by simp
  show ?case
  proof (cases "r xs")
    case (Return ys)
    then show ?thesis using step by simp
  next
    case (Continue ys)
    then have "I ys" using step by simp
    then have "Post (run_rules (A @ B) ys)"
      using Cons.prems(2) by (intro Cons.IH) auto
    then show ?thesis using Continue by simp
  qed
qed

lemma widen_switches:
  "A \<subseteq> set xs \<union> set sw \<Longrightarrow> A \<subseteq> set xs \<union> insert s (set sw)"
  by blast

lemma widen_sleeptalk:
  "A \<subseteq> insert s (set xs) \<Longrightarrow> A \<subseteq> set xs \<union> insert s (set sw)"
  by blast

lemma continue_with_sub:
  assumes "\<And>ys. subseq (f ys) ys"
  shows "set (step_result (continue_with f xs)) \<subseteq> set xs \<union> S"
  using subseq_set[OF assms[of xs]] by (auto simp: step_result_continue_with)

lemmas rule_sub_facts =
  rule_1_sub rule_2_sub rule_3_sub rule_4_sub rule_6_sub rule_7_sub rule_8_sub rule_9_sub
  rule_11_sub rule_12_sub rule_13_sub rule_13_5_sub rule_14_sub rule_16_sub rule_17_sub
  rule_18_sub rule_20_sub rule_21_sub rule_22_sub rule_23_sub rule_25_sub rule_29_sub
  rule_30_sub rule_33_sub rule_36_sub

lemmas rule_within_facts =
  widen_switches[OF rule_5_within] widen_sleeptalk[OF rule_10_within]
  widen_switches[OF rule_15_within] rule_24_within
  widen_switches[OF rule_26_encore_within] widen_switches[OF rule_26_taunt_within]
  widen_switches[OF rule_27_within]

lemma later_rule_within:
  assumes "r \<in> set (later_rules L lm b legal dm)"
  shows "set (step_result (r xs))
           \<subseteq> set xs \<union> insert ''sleeptalk'' (set (all_possible_switches b))"
proof -
  have "r = continue_with (rule_1 b) \<or>
   r = continue_with (rule_2 b) \<or>
   r = continue_with (rule_3 b) \<or>
   r = continue_with (rule_4 b) \<or>
   r = rule_5 L b \<or>
   r = continue_with (rule_6 b dm) \<or>
   r = continue_with (rule_7 b dm) \<or>
   r = continue_with (rule_8 b) \<or>
   r = continue_with (rule_9 b) \<or>
   r = rule_10 b legal \<or>
   r = continue_with (rule_11 b) \<or>
   r = continue_with (rule_12 lm) \<or>
   r = continue_with (rule_13 b) \<or>
   r = continue_with (rule_13_5 b) \<or>
   r = continue_with (rule_14 b) \<or>
   r = rule_15 L b \<or>
   r = continue_with (rule_16 b) \<or>
   r = continue_with (rule_17 lm) \<or>
   r = continue_with (rule_18 b) \<or>
   r = continue_with (rule_20 b dm) \<or>
   r = continue_with (rule_21 b) \<or>
   r = continue_with (rule_22 b) \<or>
   r = continue_with (rule_23 b) \<or>
   r = rule_24 b \<or>
   r = continue_with rule_25 \<or>
   r = rule_26_encore L b dm \<or>
   r = rule_26_taunt L b dm \<or>
   r = rule_27 L b \<or>
   r = continue_with (rule_29 lm) \<or>
   r = continue_with (rule_30 b) \<or>
   r = continue_with (rule_33 b) \<or> r = continue_with (rule_36 lm)"
    using assms by (simp add: later_rules_def)
  then show ?thesis
    apply (elim disjE)
    apply (hypsubst, (rule rule_within_facts | (rule continue_with_sub, rule rule_sub_facts)))+
    done
qed

lemma later_rules_within:
  "set (run_rules (later_rules L lm b legal dm) xs)
     \<subseteq> set xs \<union> insert ''sleeptalk'' (set (all_possible_switches b))"
proof (rule run_rules_inv[where I = "\<lambda>ys. set ys
          \<subseteq> set xs \<union> insert ''sleeptalk'' (set (all_possible_switches b))"])
  fix r ys
  assume r: "r \<in> set (later_rules L lm b legal dm)"
    and ys: "set ys \<subseteq> set xs \<union> insert ''sleeptalk'' (set (all_possible_switches b))"
  show "set (step_result (r ys))
          \<subseteq> set xs \<union> insert ''sleeptalk'' (set (all_possible_switches b))"
    using later_rule_within[OF r, of ys] ys by blast
next
  show "set xs \<subseteq> set xs \<union> insert ''sleeptalk'' (set (all_possible_switches b))"
    by blast
qed

lemma rule_0_fires:
  "has_ko_threat L b \<Longrightarrow>
     rule_0 L b dm legal
       = (if determine_who_moves_first b
             \<and> map fst (filter (\<lambda>(k, i). expected_damage i \<ge> 2) dm) \<noteq> []
          then map fst (filter (\<lambda>(k, i). expected_damage i \<ge> 2) dm)
          else filter_suboptimal_switches L b (all_possible_switches b))"
  by (simp add: rule_0_def mortal_peril_alert_def Let_def)

lemma rule_0_idle: "\<not> has_ko_threat L b \<Longrightarrow> rule_0 L b dm legal = legal"
  by (simp add: rule_0_def mortal_peril_alert_def)

lemma rule_0_5_fires:
  "current_hp_fraction (opponent_active_pokemon b) < 1 / 2 \<Longrightarrow> determine_who_moves_first b
     \<Longrightarrow> map fst (filter (\<lambda>(k, i). expected_damage i \<ge> 5 / 2) dm) \<noteq> []
     \<Longrightarrow> after_overrides L b legal dm
           = map fst (filter (\<lambda>(k, i). expected_damage i \<ge> 5 / 2) dm)"
  by (simp add: after_overrides_def rule_0_5_def step_on_throat_def Let_def)

lemma rule_0_5_idle:
  "\<not> (current_hp_fraction (opponent_active_pokemon b) < 1 / 2 \<and> determine_who_moves_first b
       \<and> map fst (filter (\<lambda>(k, i). expected_damage i \<ge> 5 / 2) dm) \<noteq> [])
     \<Longrightarrow> after_overrides L b legal dm = rule_0 L b dm legal"
  by (auto simp: after_overrides_def rule_0_5_def step_on_throat_def Let_def)

lemma later_rules_split:
  "later_rules L lm b legal dm
     = take 9 (later_rules L lm b legal dm) @ rule_10 b legal # drop 10 (later_rules L lm b legal dm)"
  by (simp add: later_rules_def)

lemma early_rule_cases:
  assumes "r \<in> set (take 9 (later_rules L lm b legal dm))"
  shows "r = rule_5 L b \<or> (\<exists>f. r = continue_with f \<and> (\<forall>ys. subseq (f ys) ys))"
proof -
  have "r = continue_with (rule_1 b) \<or>
   r = continue_with (rule_2 b) \<or>
   r = continue_with (rule_3 b) \<or>
   r = continue_with (rule_4 b) \<or>
   r = rule_5 L b \<or>
   r = continue_with (rule_6 b dm) \<or>
   r = continue_with (rule_7 b dm) \<or>
   r = continue_with (rule_8 b) \<or>
   r = continue_with (rule_9 b)"
    using assms by (simp add: later_rules_def)
  then show ?thesis
    using rule_1_sub rule_2_sub rule_3_sub rule_4_sub rule_6_sub rule_7_sub rule_8_sub rule_9_sub
    by blast
qed

lemma rule_5_not_locked:
  assumes "\<not> stands_locked L b"
  shows "rule_5 L b xs = Continue xs
       \<or> rule_5 L b xs = Return (filter_suboptimal_switches L b (all_possible_switches b))"
  using assms
  by (auto simp: rule_5_def stands_locked_def switch_or_stand_def Let_def split: list.splits)

lemma early_rule_step:
  assumes "r \<in> set (take 9 (later_rules L lm b legal dm))" and "\<not> stands_locked L b"
  shows "(\<exists>ys. r xs = Continue ys \<and> subseq ys xs)
       \<or> r xs = Return (filter_suboptimal_switches L b (all_possible_switches b))"
  using early_rule_cases[OF assms(1)]
proof
  assume "r = rule_5 L b"
  then show ?thesis using rule_5_not_locked[OF assms(2), of xs] by auto
next
  assume "\<exists>f. r = continue_with f \<and> (\<forall>ys. subseq (f ys) ys)"
  then show ?thesis by (auto simp: continue_with_def)
qed

lemma late_rule_within:
  assumes "r \<in> set (drop 10 (later_rules L lm b legal dm))"
  shows "set (step_result (r xs)) \<subseteq> set xs \<union> set (all_possible_switches b)"
proof -
  have "r = continue_with (rule_11 b) \<or>
   r = continue_with (rule_12 lm) \<or>
   r = continue_with (rule_13 b) \<or>
   r = continue_with (rule_13_5 b) \<or>
   r = continue_with (rule_14 b) \<or>
   r = rule_15 L b \<or>
   r = continue_with (rule_16 b) \<or>
   r = continue_with (rule_17 lm) \<or>
   r = continue_with (rule_18 b) \<or>
   r = continue_with (rule_20 b dm) \<or>
   r = continue_with (rule_21 b) \<or>
   r = continue_with (rule_22 b) \<or>
   r = continue_with (rule_23 b) \<or>
   r = rule_24 b \<or>
   r = continue_with rule_25 \<or>
   r = rule_26_encore L b dm \<or>
   r = rule_26_taunt L b dm \<or>
   r = rule_27 L b \<or>
   r = continue_with (rule_29 lm) \<or>
   r = continue_with (rule_30 b) \<or>
   r = continue_with (rule_33 b) \<or> r = continue_with (rule_36 lm)"
    using assms by (simp add: later_rules_def)
  then show ?thesis
    apply (elim disjE)
    apply (hypsubst, (rule rule_15_within rule_24_within rule_26_encore_within
              rule_26_taunt_within rule_27_within
            | (rule continue_with_sub, rule rule_sub_facts)))+
    done
qed

text \<open>The rules after rule 10 keep every property that holds for all switch names.\<close>

lemma late_rules_keep:
  assumes "\<forall>a \<in> set xs. P a" and "\<forall>a \<in> set (all_possible_switches b). P a"
  shows "\<forall>a \<in> set (run_rules (drop 10 (later_rules L lm b legal dm)) xs). P a"
proof (rule run_rules_inv[where I = "\<lambda>ys. \<forall>a \<in> set ys. P a"])
  fix r ys
  assume r: "r \<in> set (drop 10 (later_rules L lm b legal dm))" and ys: "\<forall>a \<in> set ys. P a"
  show "\<forall>a \<in> set (step_result (r ys)). P a"
    using late_rule_within[OF r, of ys] ys assms(2) by blast
next
  show "\<forall>a \<in> set xs. P a" by (rule assms(1))
qed

lemma viable_switches_keep:
  assumes "\<forall>a \<in> set (all_possible_switches b). P a"
  shows "\<forall>a \<in> set (filter_suboptimal_switches L b (all_possible_switches b)). P a"
  using assms viable_switches_subset[of L b] by blast

lemma run_later_rules_split:
  "run_rules (later_rules L lm b legal dm) xs
     = run_rules (take 9 (later_rules L lm b legal dm)
                  @ rule_10 b legal # drop 10 (later_rules L lm b legal dm)) xs"
  by (rule arg_cong[where f = "\<lambda>rs. run_rules rs xs"], rule later_rules_split)

lemma asleep_candidates:
  assumes asleep: "status (active_pokemon b) = Some SLP" and free: "\<not> stands_locked L b"
  shows "\<forall>a \<in> set (filter_suboptimal_moves L lm b legal dm). a = ''sleeptalk'' \<or> is_switch a"
  unfolding filter_suboptimal_moves_def run_later_rules_split
proof (rule run_rules_phase[where I = "\<lambda>ys. True"
          and Post = "\<lambda>ys. \<forall>a \<in> set ys. a = ''sleeptalk'' \<or> is_switch a"])
  fix r xs
  assume r: "r \<in> set (take 9 (later_rules L lm b legal dm))"
  have "\<forall>a \<in> set (filter_suboptimal_switches L b (all_possible_switches b)).
          a = ''sleeptalk'' \<or> is_switch a"
    using all_possible_switches_are_switches by (intro viable_switches_keep) blast
  then show "case r xs of Return ys \<Rightarrow> \<forall>a \<in> set ys. a = ''sleeptalk'' \<or> is_switch a
             | Continue ys \<Rightarrow> True"
    using early_rule_step[OF r free, of xs] by auto
next
  fix ys
  have keep: "\<forall>a \<in> set (run_rules (drop 10 (later_rules L lm b legal dm))
                  (''sleeptalk'' # filter is_switch ys)). a = ''sleeptalk'' \<or> is_switch a"
    using all_possible_switches_are_switches by (intro late_rules_keep) auto
  show "\<forall>a \<in> set (run_rules (rule_10 b legal # drop 10 (later_rules L lm b legal dm)) ys).
          a = ''sleeptalk'' \<or> is_switch a"
    using keep asleep by (simp add: rule_10_def Let_def)
next
  show True ..
qed

lemma asleep_switch_only:
  assumes asleep: "status (active_pokemon b) = Some SLP" and free: "\<not> stands_locked L b"
    and deep: "status_counter (active_pokemon b) > 1 \<or> ''sleeptalk'' \<notin> set legal"
  shows "\<forall>a \<in> set (filter_suboptimal_moves L lm b legal dm). is_switch a"
  unfolding filter_suboptimal_moves_def run_later_rules_split
proof (rule run_rules_phase[where I = "\<lambda>ys. True"
          and Post = "\<lambda>ys. \<forall>a \<in> set ys. is_switch a"])
  fix r xs
  assume r: "r \<in> set (take 9 (later_rules L lm b legal dm))"
  have "\<forall>a \<in> set (filter_suboptimal_switches L b (all_possible_switches b)). is_switch a"
    using all_possible_switches_are_switches by (intro viable_switches_keep) blast
  then show "case r xs of Return ys \<Rightarrow> \<forall>a \<in> set ys. is_switch a | Continue ys \<Rightarrow> True"
    using early_rule_step[OF r free, of xs] by auto
next
  fix ys
  show "\<forall>a \<in> set (run_rules (rule_10 b legal # drop 10 (later_rules L lm b legal dm)) ys).
          is_switch a"
    using asleep deep by (auto simp: rule_10_def Let_def)
next
  show True ..
qed

lemma remove1_sleeptalk:
  assumes "distinct ys \<or> ''sleeptalk'' \<notin> set ys"
  shows "\<forall>a \<in> set (remove1 ''sleeptalk'' ys). a \<noteq> ''sleeptalk''"
  using assms
proof
  assume "distinct ys"
  then show ?thesis by simp
next
  assume "''sleeptalk'' \<notin> set ys"
  then show ?thesis using set_remove1_subset[of "''sleeptalk''" ys] by blast
qed

lemma awake_no_sleeptalk:
  assumes awake: "status (active_pokemon b) \<noteq> Some SLP" and free: "\<not> stands_locked L b"
    and start: "distinct (after_overrides L b legal dm)
                \<or> ''sleeptalk'' \<notin> set (after_overrides L b legal dm)"
  shows "\<forall>a \<in> set (filter_suboptimal_moves L lm b legal dm). a \<noteq> ''sleeptalk''"
  unfolding filter_suboptimal_moves_def run_later_rules_split
proof (rule run_rules_phase[where I = "\<lambda>ys. distinct ys \<or> ''sleeptalk'' \<notin> set ys"
          and Post = "\<lambda>ys. \<forall>a \<in> set ys. a \<noteq> ''sleeptalk''"])
  fix r xs
  assume r: "r \<in> set (take 9 (later_rules L lm b legal dm))"
    and xs: "distinct xs \<or> ''sleeptalk'' \<notin> set xs"
  have sw: "\<forall>a \<in> set (filter_suboptimal_switches L b (all_possible_switches b)).
          a \<noteq> ''sleeptalk''"
    using sleeptalk_not_a_switch_name[of b] by (intro viable_switches_keep) blast
  have sub: "distinct ys \<or> ''sleeptalk'' \<notin> set ys" if "subseq ys xs" for ys
    using xs subseq_distinct[OF that] subseq_set[OF that] by blast
  show "case r xs of Return ys \<Rightarrow> \<forall>a \<in> set ys. a \<noteq> ''sleeptalk''
        | Continue ys \<Rightarrow> distinct ys \<or> ''sleeptalk'' \<notin> set ys"
    using early_rule_step[OF r free, of xs] sw sub by auto
next
  fix ys
  assume ys: "distinct ys \<or> ''sleeptalk'' \<notin> set ys"
  have keep: "\<forall>a \<in> set (run_rules (drop 10 (later_rules L lm b legal dm))
                  (remove1 ''sleeptalk'' ys)). a \<noteq> ''sleeptalk''"
    using remove1_sleeptalk[OF ys] sleeptalk_not_a_switch_name[of b]
    by (intro late_rules_keep) blast+
  show "\<forall>a \<in> set (run_rules (rule_10 b legal # drop 10 (later_rules L lm b legal dm)) ys).
          a \<noteq> ''sleeptalk''"
    using keep awake by (simp add: rule_10_def Let_def)
next
  show "distinct (after_overrides L b legal dm)
        \<or> ''sleeptalk'' \<notin> set (after_overrides L b legal dm)"
    by (rule start)
qed

lemma distinct_keys_filter:
  "distinct (map fst dm) \<Longrightarrow> distinct (map fst (filter P dm))"
  by (rule distinct_map_filter)

lemma after_overrides_start:
  assumes "distinct legal" and "distinct (map fst dm)"
  shows "distinct (after_overrides L b legal dm)
         \<or> ''sleeptalk'' \<notin> set (after_overrides L b legal dm)"
proof -
  have sw: "''sleeptalk'' \<notin> set (filter_suboptimal_switches L b (all_possible_switches b))"
    using sleeptalk_not_a_switch_name[of b] viable_switches_subset[of L b] by blast
  have ko: "distinct (map fst (filter P dm))" for P
    using assms(2) by (rule distinct_keys_filter)
  have r0: "distinct (rule_0 L b dm legal) \<or> ''sleeptalk'' \<notin> set (rule_0 L b dm legal)"
    using assms(1) sw ko by (simp add: rule_0_def mortal_peril_alert_def Let_def)
  show ?thesis
    using r0 ko by (simp add: after_overrides_def rule_0_5_def step_on_throat_def Let_def)
qed

lemma legal_actions_of_parts:
  "legal_actions_of L st b
     = filter_suboptimal_moves L (last_move st) b (map move_id (available_moves b))
         (calculate_move_damages L (last_move st) b)
       @ (if just_switched st then []
          else filter_suboptimal_switches L b (all_possible_switches b))"
  by (simp add: legal_actions_of_def Let_def)

lemma candidates_keep:
  assumes "\<forall>a \<in> set (filter_suboptimal_moves L (last_move st) b (map move_id (available_moves b))
                (calculate_move_damages L (last_move st) b)). P a"
    and "\<forall>a \<in> set (all_possible_switches b). P a"
  shows "\<forall>a \<in> set (legal_actions_of L st b). P a"
  using assms(1) viable_switches_keep[of b P L, OF assms(2)]
  unfolding legal_actions_of_parts by auto

lemma not_candidate: "\<forall>a \<in> set xs. P a \<Longrightarrow> \<not> P x \<Longrightarrow> x \<notin> set xs"
  by blast

lemma rule_11_st: "rule_11 b [''sleeptalk''] = [''sleeptalk'']"
  by (simp add: rule_11_def)

lemma rule_12_st: "rule_12 lm [''sleeptalk''] = [''sleeptalk'']"
  by (simp add: rule_12_def)

lemma rule_13_st: "rule_13 b [''sleeptalk''] = [''sleeptalk'']"
  by (simp add: rule_13_def Let_def remove_each_def remove_where_def sleep_moves_def cong: if_cong)

lemma rule_13_5_st: "rule_13_5 b [''sleeptalk''] = [''sleeptalk'']"
  by (simp add: rule_13_5_def Let_def remove_each_def sleep_moves_def cong: if_cong)

lemma rule_14_st: "rule_14 b [''sleeptalk''] = [''sleeptalk'']"
  by (simp add: rule_14_def)

lemma rule_16_st: "rule_16 b [''sleeptalk''] = [''sleeptalk'']"
  by (simp add: rule_16_def remove_each_def)

lemma rule_17_st: "rule_17 lm [''sleeptalk''] = [''sleeptalk'']"
  by (simp add: rule_17_def remove_each_def protect_moves_def)

lemma rule_18_st: "rule_18 b [''sleeptalk''] = [''sleeptalk'']"
  by (simp add: rule_18_def Let_def remove_each_def cong: if_cong)

lemma rule_20_st: "rule_20 b dm [''sleeptalk''] = [''sleeptalk'']"
  by (simp add: rule_20_def)

lemma rule_22_st: "rule_22 b [''sleeptalk''] = [''sleeptalk'']"
  by (simp add: rule_22_def)

lemma rule_25_st: "rule_25 [''sleeptalk''] = [''sleeptalk'']"
  by (simp add: rule_25_def remove_each_def)

lemma rule_29_st: "rule_29 lm [''sleeptalk''] = [''sleeptalk'']"
  by (simp add: rule_29_def)

lemma rule_30_st: "rule_30 b [''sleeptalk''] = [''sleeptalk'']"
  by (simp add: rule_30_def remove_each_def)

lemma rule_33_st: "rule_33 b [''sleeptalk''] = [''sleeptalk'']"
  by (simp add: rule_33_def Let_def remove_each_def)

lemma rule_36_st: "rule_36 lm [''sleeptalk''] = [''sleeptalk'']"
  by (simp add: rule_36_def)

lemma rule_21_st:
  "\<not> later_rules_interfere b \<Longrightarrow> rule_21 b [''sleeptalk''] = [''sleeptalk'']"
  by (simp add: rule_21_def later_rules_interfere_def)

lemma rule_23_st:
  "\<not> later_rules_interfere b \<Longrightarrow> rule_23 b [''sleeptalk''] = [''sleeptalk'']"
  by (simp add: rule_23_def later_rules_interfere_def)

lemma rule_15_st:
  "\<not> later_rules_interfere b \<Longrightarrow> rule_15 L b xs = Continue xs"
  by (auto simp: rule_15_def later_rules_interfere_def Let_def)

lemma rule_24_st:
  "\<not> later_rules_interfere b \<Longrightarrow> rule_24 b xs = Continue xs"
  by (simp add: rule_24_def later_rules_interfere_def)

lemma rule_26_encore_st:
  "\<not> later_rules_interfere b \<Longrightarrow> rule_26_encore L b dm xs = Continue xs"
  by (simp add: rule_26_encore_def later_rules_interfere_def)

lemma rule_26_taunt_st:
  "\<not> later_rules_interfere b \<Longrightarrow> rule_26_taunt L b dm xs = Continue xs"
  by (simp add: rule_26_taunt_def later_rules_interfere_def)

lemma rule_27_st:
  "\<not> later_rules_interfere b \<Longrightarrow> rule_27 L b xs = Continue xs"
  by (simp add: rule_27_def later_rules_interfere_def)

lemmas after_sleep_rule_facts =
  rule_11_st rule_12_st rule_13_st rule_13_5_st rule_14_st rule_16_st rule_17_st rule_18_st
  rule_20_st rule_21_st rule_22_st rule_23_st rule_25_st rule_29_st rule_30_st rule_33_st
  rule_36_st rule_15_st rule_24_st rule_26_encore_st rule_26_taunt_st rule_27_st

lemma late_rules_keep_sleeptalk:
  assumes "\<not> later_rules_interfere b"
  shows "run_rules (drop 10 (later_rules L lm b legal dm)) [''sleeptalk''] = [''sleeptalk'']"
  using assms by (simp add: later_rules_def continue_with_def after_sleep_rule_facts)

lemma rule_5_unlocked: "length (available_moves b) \<noteq> 1 \<Longrightarrow> rule_5 L b xs = Continue xs"
  by (cases "available_moves b") (simp_all add: rule_5_def split: list.split)

lemma early_rule_continues:
  assumes "r \<in> set (take 9 (later_rules L lm b legal dm))"
    and "length (available_moves b) \<noteq> 1"
  shows "\<exists>ys. r xs = Continue ys \<and> subseq ys xs"
  using early_rule_cases[OF assms(1)] rule_5_unlocked[OF assms(2), of L xs]
  by (auto simp: continue_with_def)

lemma no_switch_subseq:
  assumes "subseq ys xs" and "\<forall>a \<in> set xs. \<not> is_switch a"
  shows "\<forall>a \<in> set ys. \<not> is_switch a"
  using subseq_set[OF assms(1)] assms(2) by blast

lemma asleep_exact_sleeptalk:
  assumes asleep: "status (active_pokemon b) = Some SLP"
    and last: "status_counter (active_pokemon b) \<le> 1"
    and known: "''sleeptalk'' \<in> set legal"
    and several: "length (available_moves b) \<noteq> 1"
    and quiet: "\<not> later_rules_interfere b"
    and clean: "\<forall>a \<in> set (after_overrides L b legal dm). \<not> is_switch a"
  shows "filter_suboptimal_moves L lm b legal dm = [''sleeptalk'']"
  unfolding filter_suboptimal_moves_def run_later_rules_split
proof (rule run_rules_phase[where I = "\<lambda>ys. \<forall>a \<in> set ys. \<not> is_switch a"
          and Post = "\<lambda>ys. ys = [''sleeptalk'']"])
  fix r xs
  assume r: "r \<in> set (take 9 (later_rules L lm b legal dm))"
    and xs: "\<forall>a \<in> set xs. \<not> is_switch a"
  obtain ys where ys: "r xs = Continue ys" "subseq ys xs"
    using early_rule_continues[OF r several, of xs] by blast
  have "\<forall>a \<in> set ys. \<not> is_switch a"
    using ys(2) xs by (rule no_switch_subseq)
  then show "case r xs of Return ys \<Rightarrow> ys = [''sleeptalk'']
             | Continue ys \<Rightarrow> \<forall>a \<in> set ys. \<not> is_switch a"
    using ys(1) by simp
next
  fix ys :: "string list"
  assume "\<forall>a \<in> set ys. \<not> is_switch a"
  then have none: "filter is_switch ys = []"
    by (simp add: filter_empty_conv)
  show "run_rules (rule_10 b legal # drop 10 (later_rules L lm b legal dm)) ys = [''sleeptalk'']"
    using asleep last known none late_rules_keep_sleeptalk[OF quiet]
    by (simp add: rule_10_def Let_def)
next
  show "\<forall>a \<in> set (after_overrides L b legal dm). \<not> is_switch a"
    by (rule clean)
qed

lemma asleep_exact_switch:
  assumes asleep: "status (active_pokemon b) = Some SLP"
    and deep: "status_counter (active_pokemon b) > 1 \<or> ''sleeptalk'' \<notin> set legal"
    and several: "length (available_moves b) \<noteq> 1"
    and clean: "\<forall>a \<in> set (after_overrides L b legal dm). \<not> is_switch a"
  shows "filter_suboptimal_moves L lm b legal dm = []"
  unfolding filter_suboptimal_moves_def run_later_rules_split
proof (rule run_rules_phase[where I = "\<lambda>ys. \<forall>a \<in> set ys. \<not> is_switch a"
          and Post = "\<lambda>ys. ys = []"])
  fix r xs
  assume r: "r \<in> set (take 9 (later_rules L lm b legal dm))"
    and xs: "\<forall>a \<in> set xs. \<not> is_switch a"
  obtain ys where ys: "r xs = Continue ys" "subseq ys xs"
    using early_rule_continues[OF r several, of xs] by blast
  have "\<forall>a \<in> set ys. \<not> is_switch a"
    using ys(2) xs by (rule no_switch_subseq)
  then show "case r xs of Return ys \<Rightarrow> ys = []
             | Continue ys \<Rightarrow> \<forall>a \<in> set ys. \<not> is_switch a"
    using ys(1) by simp
next
  fix ys :: "string list"
  assume "\<forall>a \<in> set ys. \<not> is_switch a"
  then have none: "filter is_switch ys = []"
    by (simp add: filter_empty_conv)
  show "run_rules (rule_10 b legal # drop 10 (later_rules L lm b legal dm)) ys = []"
    using asleep deep none by (auto simp: rule_10_def Let_def)
next
  show "\<forall>a \<in> set (after_overrides L b legal dm). \<not> is_switch a"
    by (rule clean)
qed

lemma after_overrides_clean:
  assumes safe: "\<not> has_ko_threat L b"
    and ids: "\<forall>m \<in> set (available_moves b). \<not> is_switch (move_id m)"
  shows "\<forall>a \<in> set (after_overrides L b (map move_id (available_moves b))
                (calculate_move_damages L lm b)). \<not> is_switch a"
proof -
  let ?dm = "calculate_move_damages L lm b"
  have keys: "\<not> is_switch k" if "k \<in> fst ` set ?dm" for k
    using that ids unfolding calculate_keys by blast
  have ko: "\<forall>a \<in> set (map fst (filter P ?dm)). \<not> is_switch a" for P
    using keys by auto
  have r0: "rule_0 L b ?dm (map move_id (available_moves b)) = map move_id (available_moves b)"
    using safe by (rule rule_0_idle)
  have legal: "\<forall>a \<in> set (map move_id (available_moves b)). \<not> is_switch a"
    using ids by simp
  show ?thesis
    unfolding after_overrides_def r0 rule_0_5_def step_on_throat_def Let_def
    using legal ko by (simp del: set_map)
qed

text \<open>
  Claim C1, as amended. An override replaces the list the later rules work on, and the later
  rules run on the list it leaves: rule 0, under a KO threat, puts the KO moves (when the
  active Pokemon is faster and has some) or else the viable switches in place of the
  candidates; rule 0.5, against an opponent below half of its hit points that the active
  Pokemon outspeeds, puts the lethal-threshold moves in place of that list when there are
  some. The result of \<^verbatim>\<open>filter_suboptimal_moves\<close> is what rules 1 to 36 make of that
  list: it holds nothing but entries of the list, \<^verbatim>\<open>sleeptalk\<close> and names of legal
  switches, entries of the override's list can be removed, and when the active Pokemon is
  asleep no move other than \<^verbatim>\<open>sleeptalk\<close> is left of it (unless rule 5 returns first
  because the only move is weak and no switch is viable).
\<close>

theorem overrides_replace_the_list_later_rules_still_run:
  "filter_suboptimal_moves L lm b legal dm
     = run_rules (later_rules L lm b legal dm) (after_overrides L b legal dm)
   \<and> set (filter_suboptimal_moves L lm b legal dm)
       \<subseteq> set (after_overrides L b legal dm)
           \<union> insert ''sleeptalk'' (set (all_possible_switches b))
   \<and> (has_ko_threat L b \<longrightarrow>
        rule_0 L b dm legal
          = (if determine_who_moves_first b
                \<and> map fst (filter (\<lambda>(k, i). expected_damage i \<ge> 2) dm) \<noteq> []
             then map fst (filter (\<lambda>(k, i). expected_damage i \<ge> 2) dm)
             else filter_suboptimal_switches L b (all_possible_switches b)))
   \<and> (\<not> has_ko_threat L b \<longrightarrow> rule_0 L b dm legal = legal)
   \<and> (current_hp_fraction (opponent_active_pokemon b) < 1 / 2 \<and> determine_who_moves_first b
        \<and> map fst (filter (\<lambda>(k, i). expected_damage i \<ge> 5 / 2) dm) \<noteq> []
        \<longrightarrow> after_overrides L b legal dm
              = map fst (filter (\<lambda>(k, i). expected_damage i \<ge> 5 / 2) dm))
   \<and> (\<not> (current_hp_fraction (opponent_active_pokemon b) < 1 / 2
           \<and> determine_who_moves_first b
           \<and> map fst (filter (\<lambda>(k, i). expected_damage i \<ge> 5 / 2) dm) \<noteq> [])
        \<longrightarrow> after_overrides L b legal dm = rule_0 L b dm legal)
   \<and> (status (active_pokemon b) = Some SLP \<and> \<not> stands_locked L b
        \<longrightarrow> (\<forall>a \<in> set (filter_suboptimal_moves L lm b legal dm).
               a = ''sleeptalk'' \<or> is_switch a))"
proof (intro conjI impI)
  show "filter_suboptimal_moves L lm b legal dm
     = run_rules (later_rules L lm b legal dm) (after_overrides L b legal dm)"
    by (rule filter_suboptimal_moves_def)
next
  show "set (filter_suboptimal_moves L lm b legal dm)
     \<subseteq> set (after_overrides L b legal dm)
         \<union> insert ''sleeptalk'' (set (all_possible_switches b))"
    unfolding filter_suboptimal_moves_def by (rule later_rules_within)
next
  assume "has_ko_threat L b"
  then show "rule_0 L b dm legal
          = (if determine_who_moves_first b
                \<and> map fst (filter (\<lambda>(k, i). expected_damage i \<ge> 2) dm) \<noteq> []
             then map fst (filter (\<lambda>(k, i). expected_damage i \<ge> 2) dm)
             else filter_suboptimal_switches L b (all_possible_switches b))"
    by (rule rule_0_fires)
next
  assume "\<not> has_ko_threat L b"
  then show "rule_0 L b dm legal = legal"
    by (rule rule_0_idle)
next
  assume "current_hp_fraction (opponent_active_pokemon b) < 1 / 2 \<and> determine_who_moves_first b
        \<and> map fst (filter (\<lambda>(k, i). expected_damage i \<ge> 5 / 2) dm) \<noteq> []"
  then show "after_overrides L b legal dm
              = map fst (filter (\<lambda>(k, i). expected_damage i \<ge> 5 / 2) dm)"
    using rule_0_5_fires by blast
next
  assume "\<not> (current_hp_fraction (opponent_active_pokemon b) < 1 / 2
           \<and> determine_who_moves_first b
           \<and> map fst (filter (\<lambda>(k, i). expected_damage i \<ge> 5 / 2) dm) \<noteq> [])"
  then show "after_overrides L b legal dm = rule_0 L b dm legal"
    by (rule rule_0_5_idle)
next
  assume "status (active_pokemon b) = Some SLP \<and> \<not> stands_locked L b"
  then show "\<forall>a \<in> set (filter_suboptimal_moves L lm b legal dm).
               a = ''sleeptalk'' \<or> is_switch a"
    by (intro asleep_candidates) simp_all
qed

theorem overrides_replace_the_list_later_rules_still_run_witness:
  "rule_0 sample_library peril_battle (calculate_move_damages sample_library None peril_battle)
       [''growl'', ''hyperbeam''] = [''hyperbeam'']
   \<and> after_overrides sample_library peril_battle [''growl'', ''hyperbeam'']
       (calculate_move_damages sample_library None peril_battle) = [''hyperbeam'']
   \<and> filter_suboptimal_moves sample_library None peril_battle [''growl'', ''hyperbeam'']
       (calculate_move_damages sample_library None peril_battle)
     = run_rules (later_rules sample_library None peril_battle [''growl'', ''hyperbeam'']
                   (calculate_move_damages sample_library None peril_battle)) [''hyperbeam'']
   \<and> set (filter_suboptimal_moves sample_library None peril_battle [''growl'', ''hyperbeam'']
            (calculate_move_damages sample_library None peril_battle))
       \<subseteq> {''hyperbeam'', ''sleeptalk'', ''switch-squirtle''}
   \<and> rule_0 sample_library throat_battle (calculate_move_damages sample_library None throat_battle)
       [''growl'', ''hyperbeam''] = [''growl'', ''hyperbeam'']
   \<and> after_overrides sample_library throat_battle [''growl'', ''hyperbeam'']
       (calculate_move_damages sample_library None throat_battle) = [''hyperbeam'']
   \<and> after_overrides sample_library asleep_peril_battle [''growl'', ''hyperbeam'']
       (calculate_move_damages sample_library None asleep_peril_battle) = [''hyperbeam'']
   \<and> ''hyperbeam'' \<notin> set (filter_suboptimal_moves sample_library None asleep_peril_battle
         [''growl'', ''hyperbeam''] (calculate_move_damages sample_library None asleep_peril_battle))"
proof -
  let ?legal = "[''growl'', ''hyperbeam'']"
  let ?P = "calculate_move_damages sample_library None peril_battle"
  let ?T = "calculate_move_damages sample_library None throat_battle"
  let ?S = "calculate_move_damages sample_library None asleep_peril_battle"
  note P = overrides_replace_the_list_later_rules_still_run[where L = sample_library
      and lm = None and b = peril_battle and dm = ?P and legal = ?legal]
  note T = overrides_replace_the_list_later_rules_still_run[where L = sample_library
      and lm = None and b = throat_battle and dm = ?T and legal = ?legal]
  note S = overrides_replace_the_list_later_rules_still_run[where L = sample_library
      and lm = None and b = asleep_peril_battle and dm = ?S and legal = ?legal]
  have threat: "has_ko_threat sample_library peril_battle"
    by code_simp
  have faster: "determine_who_moves_first peril_battle"
    by code_simp
  have ko: "map fst (filter (\<lambda>(k, i). expected_damage i \<ge> 2) ?P) = [''hyperbeam'']"
    by code_simp
  have healthy: "\<not> (current_hp_fraction (opponent_active_pokemon peril_battle) < 1 / 2
           \<and> determine_who_moves_first peril_battle
           \<and> map fst (filter (\<lambda>(k, i). expected_damage i \<ge> 5 / 2) ?P) \<noteq> [])"
    by code_simp
  have switches: "all_possible_switches peril_battle = [''switch-squirtle'']"
    by code_simp
  have "rule_0 sample_library peril_battle ?P ?legal
          = (if determine_who_moves_first peril_battle
                \<and> map fst (filter (\<lambda>(k, i). expected_damage i \<ge> 2) ?P) \<noteq> []
             then map fst (filter (\<lambda>(k, i). expected_damage i \<ge> 2) ?P)
             else filter_suboptimal_switches sample_library peril_battle
                    (all_possible_switches peril_battle))"
    by (rule P[THEN conjunct2, THEN conjunct2, THEN conjunct1, THEN mp, OF threat])
  also have "\<dots> = [''hyperbeam'']"
    unfolding ko using faster by simp
  finally have w1: "rule_0 sample_library peril_battle ?P ?legal = [''hyperbeam'']" .
  have "after_overrides sample_library peril_battle ?legal ?P
          = rule_0 sample_library peril_battle ?P ?legal"
    by (rule P[THEN conjunct2, THEN conjunct2, THEN conjunct2, THEN conjunct2, THEN conjunct2,
          THEN conjunct1, THEN mp, OF healthy])
  then have w2: "after_overrides sample_library peril_battle ?legal ?P = [''hyperbeam'']"
    using w1 by (rule trans)
  have w3: "filter_suboptimal_moves sample_library None peril_battle ?legal ?P
              = run_rules (later_rules sample_library None peril_battle ?legal ?P) [''hyperbeam'']"
    using P[THEN conjunct1] unfolding w2 .
  have "set (filter_suboptimal_moves sample_library None peril_battle ?legal ?P)
          \<subseteq> set (after_overrides sample_library peril_battle ?legal ?P)
              \<union> insert ''sleeptalk'' (set (all_possible_switches peril_battle))"
    by (rule P[THEN conjunct2, THEN conjunct1])
  then have w4: "set (filter_suboptimal_moves sample_library None peril_battle ?legal ?P)
              \<subseteq> {''hyperbeam'', ''sleeptalk'', ''switch-squirtle''}"
    unfolding w2 switches by auto
  have safe: "\<not> has_ko_threat sample_library throat_battle"
    by code_simp
  have lethal: "map fst (filter (\<lambda>(k, i). expected_damage i \<ge> 5 / 2) ?T) = [''hyperbeam'']"
    by code_simp
  have fires: "current_hp_fraction (opponent_active_pokemon throat_battle) < 1 / 2
        \<and> determine_who_moves_first throat_battle
        \<and> map fst (filter (\<lambda>(k, i). expected_damage i \<ge> 5 / 2) ?T) \<noteq> []"
    by code_simp
  have w5: "rule_0 sample_library throat_battle ?T ?legal = ?legal"
    by (rule T[THEN conjunct2, THEN conjunct2, THEN conjunct2, THEN conjunct1, THEN mp, OF safe])
  have "after_overrides sample_library throat_battle ?legal ?T
          = map fst (filter (\<lambda>(k, i). expected_damage i \<ge> 5 / 2) ?T)"
    by (rule T[THEN conjunct2, THEN conjunct2, THEN conjunct2, THEN conjunct2, THEN conjunct1,
          THEN mp, OF fires])
  then have w6: "after_overrides sample_library throat_battle ?legal ?T = [''hyperbeam'']"
    using lethal by (rule trans)
  have w7: "after_overrides sample_library asleep_peril_battle ?legal ?S = [''hyperbeam'']"
    by code_simp
  have sleeping: "status (active_pokemon asleep_peril_battle) = Some SLP
                  \<and> \<not> stands_locked sample_library asleep_peril_battle"
    by code_simp
  have other: "\<not> (''hyperbeam'' = ''sleeptalk'' \<or> is_switch ''hyperbeam'')"
    by code_simp
  have "\<forall>a \<in> set (filter_suboptimal_moves sample_library None asleep_peril_battle ?legal ?S).
          a = ''sleeptalk'' \<or> is_switch a"
    by (rule S[THEN conjunct2, THEN conjunct2, THEN conjunct2, THEN conjunct2, THEN conjunct2,
          THEN conjunct2, THEN mp, OF sleeping])
  then have w8: "''hyperbeam'' \<notin> set (filter_suboptimal_moves sample_library None
                    asleep_peril_battle ?legal ?S)"
    using other by (rule not_candidate)
  show ?thesis using w1 w2 w3 w4 w5 w6 w7 w8 by (intro conjI)
qed

text \<open>
  Under a KO threat rule 0 leaves Hyper Beam as the only candidate, and below half of the
  opponent's hit points rule 0.5 does the same; rule 25 then removes it and the pipeline
  returns the empty list.
\<close>

theorem override_result_is_filtered_further:
  "has_ko_threat sample_library peril_battle
   \<and> mortal_peril_alert sample_library peril_battle [''growl'', ''hyperbeam'']
       (calculate_move_damages sample_library None peril_battle) = [''hyperbeam'']
   \<and> filter_suboptimal_moves sample_library None peril_battle [''growl'', ''hyperbeam'']
       (calculate_move_damages sample_library None peril_battle) = []
   \<and> current_hp_fraction (opponent_active_pokemon throat_battle) < 1 / 2
   \<and> step_on_throat throat_battle [''growl'', ''hyperbeam'']
       (calculate_move_damages sample_library None throat_battle) = [''hyperbeam'']
   \<and> filter_suboptimal_moves sample_library None throat_battle [''growl'', ''hyperbeam'']
       (calculate_move_damages sample_library None throat_battle) = []"
  by code_simp

text \<open>
  Claim C6, as amended. The candidate list shown to the decision-maker is the result of the
  move pipeline followed by the viable switches, which are a part of the legal switches
  and are left out on the turn after a switch. Unless the only available move is weak
  and no switch is viable (rule 5 then returns before the sleep rule): when the active
  Pokemon is asleep every candidate is \<^verbatim>\<open>sleeptalk\<close> or a switch; when it is asleep with
  more than one turn left, or without \<^verbatim>\<open>sleeptalk\<close> among its moves, every candidate is
  a switch; when it is not asleep, \<^verbatim>\<open>sleeptalk\<close> is not a candidate (the ids of the
  available moves being distinct). With more than one move, no KO threat and none of the
  conditions of \<open>later_rules_interfere\<close>, the list is exactly \<^verbatim>\<open>sleeptalk\<close> followed by
  the viable switches when the Pokemon is asleep with at most one turn left and has
  \<^verbatim>\<open>sleeptalk\<close>, and exactly the viable switches in the other cases of sleep.
\<close>

theorem sleep_rule_restricts_candidates:
  "legal_actions_of L st b
     = filter_suboptimal_moves L (last_move st) b (map move_id (available_moves b))
         (calculate_move_damages L (last_move st) b)
       @ (if just_switched st then []
          else filter_suboptimal_switches L b (all_possible_switches b))
   \<and> set (filter_suboptimal_switches L b (all_possible_switches b))
        \<subseteq> set (all_possible_switches b)
   \<and> (status (active_pokemon b) = Some SLP \<and> \<not> stands_locked L b
        \<longrightarrow> (\<forall>a \<in> set (legal_actions_of L st b). a = ''sleeptalk'' \<or> is_switch a))
   \<and> (status (active_pokemon b) = Some SLP \<and> \<not> stands_locked L b
        \<and> (status_counter (active_pokemon b) > 1
            \<or> ''sleeptalk'' \<notin> set (map move_id (available_moves b)))
        \<longrightarrow> (\<forall>a \<in> set (legal_actions_of L st b). is_switch a))
   \<and> (status (active_pokemon b) \<noteq> Some SLP \<and> \<not> stands_locked L b
        \<and> distinct (map move_id (available_moves b))
        \<longrightarrow> ''sleeptalk'' \<notin> set (legal_actions_of L st b))
   \<and> (status (active_pokemon b) = Some SLP \<and> status_counter (active_pokemon b) \<le> 1
        \<and> ''sleeptalk'' \<in> set (map move_id (available_moves b))
        \<and> length (available_moves b) \<noteq> 1 \<and> \<not> has_ko_threat L b
        \<and> \<not> later_rules_interfere b
        \<and> (\<forall>m \<in> set (available_moves b). \<not> is_switch (move_id m))
        \<longrightarrow> legal_actions_of L st b
              = ''sleeptalk'' # (if just_switched st then []
                                else filter_suboptimal_switches L b (all_possible_switches b)))
   \<and> (status (active_pokemon b) = Some SLP
        \<and> (status_counter (active_pokemon b) > 1
            \<or> ''sleeptalk'' \<notin> set (map move_id (available_moves b)))
        \<and> length (available_moves b) \<noteq> 1 \<and> \<not> has_ko_threat L b
        \<and> (\<forall>m \<in> set (available_moves b). \<not> is_switch (move_id m))
        \<longrightarrow> legal_actions_of L st b
              = (if just_switched st then []
                 else filter_suboptimal_switches L b (all_possible_switches b)))"
proof (intro conjI impI)
  show "legal_actions_of L st b
     = filter_suboptimal_moves L (last_move st) b (map move_id (available_moves b))
         (calculate_move_damages L (last_move st) b)
       @ (if just_switched st then []
          else filter_suboptimal_switches L b (all_possible_switches b))"
    by (rule legal_actions_of_parts)
next
  show "set (filter_suboptimal_switches L b (all_possible_switches b))
        \<subseteq> set (all_possible_switches b)"
    by (rule viable_switches_subset)
next
  assume a: "status (active_pokemon b) = Some SLP \<and> \<not> stands_locked L b"
  show "\<forall>a \<in> set (legal_actions_of L st b). a = ''sleeptalk'' \<or> is_switch a"
  proof (rule candidates_keep)
    show "\<forall>a \<in> set (filter_suboptimal_moves L (last_move st) b (map move_id (available_moves b))
                (calculate_move_damages L (last_move st) b)). a = ''sleeptalk'' \<or> is_switch a"
      using a by (intro asleep_candidates) simp_all
    show "\<forall>a \<in> set (all_possible_switches b). a = ''sleeptalk'' \<or> is_switch a"
      using all_possible_switches_are_switches by blast
  qed
next
  assume a: "status (active_pokemon b) = Some SLP \<and> \<not> stands_locked L b
        \<and> (status_counter (active_pokemon b) > 1
            \<or> ''sleeptalk'' \<notin> set (map move_id (available_moves b)))"
  show "\<forall>a \<in> set (legal_actions_of L st b). is_switch a"
  proof (rule candidates_keep)
    show "\<forall>a \<in> set (filter_suboptimal_moves L (last_move st) b (map move_id (available_moves b))
                (calculate_move_damages L (last_move st) b)). is_switch a"
      using a by (intro asleep_switch_only) simp_all
    show "\<forall>a \<in> set (all_possible_switches b). is_switch a"
      using all_possible_switches_are_switches by blast
  qed
next
  assume a: "status (active_pokemon b) \<noteq> Some SLP \<and> \<not> stands_locked L b
        \<and> distinct (map move_id (available_moves b))"
  have start: "distinct (after_overrides L b (map move_id (available_moves b))
                  (calculate_move_damages L (last_move st) b))
      \<or> ''sleeptalk'' \<notin> set (after_overrides L b (map move_id (available_moves b))
                  (calculate_move_damages L (last_move st) b))"
    using a calculate_distinct by (intro after_overrides_start) simp_all
  have "\<forall>a \<in> set (legal_actions_of L st b). a \<noteq> ''sleeptalk''"
  proof (rule candidates_keep)
    show "\<forall>a \<in> set (filter_suboptimal_moves L (last_move st) b (map move_id (available_moves b))
                (calculate_move_damages L (last_move st) b)). a \<noteq> ''sleeptalk''"
      using a start by (intro awake_no_sleeptalk) simp_all
    show "\<forall>a \<in> set (all_possible_switches b). a \<noteq> ''sleeptalk''"
      using sleeptalk_not_a_switch_name[of b] by blast
  qed
  then show "''sleeptalk'' \<notin> set (legal_actions_of L st b)" by blast
next
  assume a: "status (active_pokemon b) = Some SLP \<and> status_counter (active_pokemon b) \<le> 1
        \<and> ''sleeptalk'' \<in> set (map move_id (available_moves b))
        \<and> length (available_moves b) \<noteq> 1 \<and> \<not> has_ko_threat L b
        \<and> \<not> later_rules_interfere b
        \<and> (\<forall>m \<in> set (available_moves b). \<not> is_switch (move_id m))"
  have clean: "\<forall>a \<in> set (after_overrides L b (map move_id (available_moves b))
                (calculate_move_damages L (last_move st) b)). \<not> is_switch a"
    using a by (intro after_overrides_clean) simp_all
  have "filter_suboptimal_moves L (last_move st) b (map move_id (available_moves b))
          (calculate_move_damages L (last_move st) b) = [''sleeptalk'']"
    using a clean by (intro asleep_exact_sleeptalk) simp_all
  then show "legal_actions_of L st b
              = ''sleeptalk'' # (if just_switched st then []
                                else filter_suboptimal_switches L b (all_possible_switches b))"
    unfolding legal_actions_of_parts by simp
next
  assume a: "status (active_pokemon b) = Some SLP
        \<and> (status_counter (active_pokemon b) > 1
            \<or> ''sleeptalk'' \<notin> set (map move_id (available_moves b)))
        \<and> length (available_moves b) \<noteq> 1 \<and> \<not> has_ko_threat L b
        \<and> (\<forall>m \<in> set (available_moves b). \<not> is_switch (move_id m))"
  have clean: "\<forall>a \<in> set (after_overrides L b (map move_id (available_moves b))
                (calculate_move_damages L (last_move st) b)). \<not> is_switch a"
    using a by (intro after_overrides_clean) simp_all
  have "filter_suboptimal_moves L (last_move st) b (map move_id (available_moves b))
          (calculate_move_damages L (last_move st) b) = []"
    using a clean by (intro asleep_exact_switch) simp_all
  then show "legal_actions_of L st b
              = (if just_switched st then []
                 else filter_suboptimal_switches L b (all_possible_switches b))"
    unfolding legal_actions_of_parts by simp
qed

theorem sleep_rule_restricts_candidates_witness:
  "status (active_pokemon asleep_battle) = Some SLP
   \<and> \<not> stands_locked sample_library asleep_battle
   \<and> ''tackle'' \<in> set (map move_id (available_moves asleep_battle))
   \<and> ''tackle'' \<notin> set (legal_actions_of sample_library fresh_player asleep_battle)
   \<and> legal_actions_of sample_library fresh_player asleep_battle
       = [''sleeptalk'', ''switch-squirtle'']
   \<and> status_counter (active_pokemon deep_sleep_battle) = 3
   \<and> ''sleeptalk'' \<in> set (map move_id (available_moves deep_sleep_battle))
   \<and> ''sleeptalk'' \<notin> set (legal_actions_of sample_library fresh_player deep_sleep_battle)
   \<and> ''tackle'' \<notin> set (legal_actions_of sample_library fresh_player deep_sleep_battle)
   \<and> legal_actions_of sample_library fresh_player deep_sleep_battle = [''switch-squirtle'']
   \<and> status (active_pokemon awake_battle) = None
   \<and> ''sleeptalk'' \<in> set (map move_id (available_moves awake_battle))
   \<and> ''sleeptalk'' \<notin> set (legal_actions_of sample_library fresh_player awake_battle)"
proof -
  note A = sleep_rule_restricts_candidates[where L = sample_library and st = fresh_player
      and b = asleep_battle]
  note D = sleep_rule_restricts_candidates[where L = sample_library and st = fresh_player
      and b = deep_sleep_battle]
  note W = sleep_rule_restricts_candidates[where L = sample_library and st = fresh_player
      and b = awake_battle]
  have no_move: "\<not> (''tackle'' = ''sleeptalk'' \<or> is_switch ''tackle'')"
    by code_simp
  have no_switch: "\<not> is_switch ''tackle''"
    by code_simp
  have fresh: "\<not> just_switched fresh_player"
    by code_simp
  have a1: "status (active_pokemon asleep_battle) = Some SLP"
    by code_simp
  have a2: "\<not> stands_locked sample_library asleep_battle"
    by code_simp
  have a3: "''tackle'' \<in> set (map move_id (available_moves asleep_battle))"
    by code_simp
  have "\<forall>a \<in> set (legal_actions_of sample_library fresh_player asleep_battle).
          a = ''sleeptalk'' \<or> is_switch a"
    using a1 a2 by (intro A[THEN conjunct2, THEN conjunct2, THEN conjunct1, THEN mp] conjI)
  then have a4: "''tackle'' \<notin> set (legal_actions_of sample_library fresh_player asleep_battle)"
    using no_move by (rule not_candidate)
  have a5: "status (active_pokemon asleep_battle) = Some SLP
        \<and> status_counter (active_pokemon asleep_battle) \<le> 1
        \<and> ''sleeptalk'' \<in> set (map move_id (available_moves asleep_battle))
        \<and> length (available_moves asleep_battle) \<noteq> 1
        \<and> \<not> has_ko_threat sample_library asleep_battle
        \<and> \<not> later_rules_interfere asleep_battle
        \<and> (\<forall>m \<in> set (available_moves asleep_battle). \<not> is_switch (move_id m))"
    by code_simp
  have a6: "filter_suboptimal_switches sample_library asleep_battle
              (all_possible_switches asleep_battle) = [''switch-squirtle'']"
    by code_simp
  have "legal_actions_of sample_library fresh_player asleep_battle
          = ''sleeptalk'' # (if just_switched fresh_player then []
               else filter_suboptimal_switches sample_library asleep_battle
                      (all_possible_switches asleep_battle))"
    by (rule A[THEN conjunct2, THEN conjunct2, THEN conjunct2, THEN conjunct2, THEN conjunct2,
          THEN conjunct1, THEN mp, OF a5])
  then have a7: "legal_actions_of sample_library fresh_player asleep_battle
                   = [''sleeptalk'', ''switch-squirtle'']"
    unfolding a6 using fresh by simp
  have d1: "status (active_pokemon deep_sleep_battle) = Some SLP"
    by code_simp
  have d2: "\<not> stands_locked sample_library deep_sleep_battle"
    by code_simp
  have d3: "status_counter (active_pokemon deep_sleep_battle) = 3"
    by code_simp
  have d4: "''sleeptalk'' \<in> set (map move_id (available_moves deep_sleep_battle))"
    by code_simp
  have d5: "status_counter (active_pokemon deep_sleep_battle) > 1"
    unfolding d3 by simp
  have deep: "\<forall>a \<in> set (legal_actions_of sample_library fresh_player deep_sleep_battle).
                is_switch a"
    using d1 d2 d5
    by (intro D[THEN conjunct2, THEN conjunct2, THEN conjunct2, THEN conjunct1, THEN mp]
          conjI disjI1)
  have d6: "''sleeptalk'' \<notin> set (legal_actions_of sample_library fresh_player deep_sleep_battle)"
    using deep sleeptalk_not_switch by (rule not_candidate)
  have d7: "''tackle'' \<notin> set (legal_actions_of sample_library fresh_player deep_sleep_battle)"
    using deep no_switch by (rule not_candidate)
  have d8: "status (active_pokemon deep_sleep_battle) = Some SLP
        \<and> (status_counter (active_pokemon deep_sleep_battle) > 1
            \<or> ''sleeptalk'' \<notin> set (map move_id (available_moves deep_sleep_battle)))
        \<and> length (available_moves deep_sleep_battle) \<noteq> 1
        \<and> \<not> has_ko_threat sample_library deep_sleep_battle
        \<and> (\<forall>m \<in> set (available_moves deep_sleep_battle). \<not> is_switch (move_id m))"
    by code_simp
  have d9: "filter_suboptimal_switches sample_library deep_sleep_battle
              (all_possible_switches deep_sleep_battle) = [''switch-squirtle'']"
    by code_simp
  have "legal_actions_of sample_library fresh_player deep_sleep_battle
          = (if just_switched fresh_player then []
             else filter_suboptimal_switches sample_library deep_sleep_battle
                    (all_possible_switches deep_sleep_battle))"
    by (rule D[THEN conjunct2, THEN conjunct2, THEN conjunct2, THEN conjunct2, THEN conjunct2,
          THEN conjunct2, THEN mp, OF d8])
  then have d10: "legal_actions_of sample_library fresh_player deep_sleep_battle
                    = [''switch-squirtle'']"
    unfolding d9 using fresh by simp
  have w1: "status (active_pokemon awake_battle) = None"
    by code_simp
  have w2: "\<not> stands_locked sample_library awake_battle"
    by code_simp
  have w3: "distinct (map move_id (available_moves awake_battle))"
    by code_simp
  have w4: "''sleeptalk'' \<in> set (map move_id (available_moves awake_battle))"
    by code_simp
  have w0: "status (active_pokemon awake_battle) \<noteq> Some SLP"
    unfolding w1 by simp
  have w5: "''sleeptalk'' \<notin> set (legal_actions_of sample_library fresh_player awake_battle)"
    using w0 w2 w3
    by (intro W[THEN conjunct2, THEN conjunct2, THEN conjunct2, THEN conjunct2, THEN conjunct1,
          THEN mp] conjI)
  show ?thesis
    using a1 a2 a3 a4 a7 d3 d4 d6 d7 d10 w1 w4 w5 by (intro conjI)
qed

text \<open>
  Asleep with one turn left and Sleep Talk among the moves, with Bulbasaur and Squirtle as
  legal switches against a Fire type: the switch to Bulbasaur is not a candidate, and on
  the turn after a switch no switch is.
\<close>

theorem sleeping_pokemon_is_not_offered_every_switch:
  "status (active_pokemon asleep_battle) = Some SLP
   \<and> status_counter (active_pokemon asleep_battle) = 1
   \<and> map move_id (available_moves asleep_battle) = [''tackle'', ''sleeptalk'']
   \<and> all_possible_switches asleep_battle = [''switch-bulbasaur'', ''switch-squirtle'']
   \<and> legal_actions_of sample_library fresh_player asleep_battle
        = [''sleeptalk'', ''switch-squirtle'']
   \<and> legal_actions_of sample_library (fresh_player\<lparr>just_switched := True\<rparr>) asleep_battle
        = [''sleeptalk'']"
  by code_simp

end
